theory Spec2Isabelle
  imports
    Main
    "HOL-Library.AList"
    "HOL-Library.Char_ord"
    "HOL-Library.List_Lexorder"
    "HOL-Library.Sublist"
begin

section \<open>Batch conversion of tabular files to Parquet: model of convert\_to\_parquet.py\<close>

text \<open>
  The program walks an input directory, converts every csv/xlsx/xls/dta file it finds
  to Parquet under a mirrored output directory, optionally deletes the sources and
  prints a summary. Everything it does goes through the operating system and pandas,
  so the model threads an explicit world through every function: the file-system
  tree, the sequence of library calls made so far, and the lines printed. A Python
  exception is the \<open>Inl\<close> of a sum; the world reached when it was raised is kept,
  because files written before the exception stay on disk.
\<close>

subsection \<open>Exceptions\<close>

datatype exc =
    FileExistsError
  | NotADirectoryError
  | IsADirectoryError
  | FileNotFoundError
  | PermissionError
  | ParserError string     \<comment> \<open>a pandas reader rejects the file; the message is the file's own\<close>
  | ValueError
  | EOFError
  | SystemExit nat         \<comment> \<open>\<open>sys.exit(n)\<close>\<close>

text \<open>\<open>except Exception\<close> catches every exception of the model except \<open>SystemExit\<close>.\<close>

fun is_Exception :: "exc \<Rightarrow> bool" where
  "is_Exception (SystemExit n) = False"
| "is_Exception e = True"

text \<open>\<open>str(e)\<close>: the text the program prints and stores for a caught exception.\<close>

fun str_exc :: "exc \<Rightarrow> string" where
  "str_exc FileExistsError = ''File exists''"
| "str_exc NotADirectoryError = ''Not a directory''"
| "str_exc IsADirectoryError = ''Is a directory''"
| "str_exc FileNotFoundError = ''No such file or directory''"
| "str_exc PermissionError = ''Permission denied''"
| "str_exc (ParserError m) = m"
| "str_exc ValueError = ''chunksize must be an integer >=1''"
| "str_exc EOFError = ''EOF when reading a line''"
| "str_exc (SystemExit n) = ''''"

subsection \<open>Strings: \<open>str.lower\<close>, \<open>str.strip\<close>, \<open>os.path.splitext\<close>, \<open>{part:05d}\<close>\<close>

text \<open>
  File names are modelled as byte strings. \<open>lower\<close> maps the ASCII capitals; the
  program only compares the lowered extension with the ASCII literals \<open>.csv\<close>,
  \<open>.xlsx\<close>, \<open>.xls\<close> and \<open>.dta\<close>, and no other character lowers to an ASCII letter
  of those literals.
\<close>

definition lower_char :: "char \<Rightarrow> char" where
  "lower_char c =
     (case map_of (zip ''ABCDEFGHIJKLMNOPQRSTUVWXYZ'' ''abcdefghijklmnopqrstuvwxyz'') c of
        Some l \<Rightarrow> l
      | None \<Rightarrow> c)"

definition lower :: "string \<Rightarrow> string" where
  "lower s = map lower_char s"

text \<open>
  The line that \<open>input()\<close> returns is a Python \<open>str\<close>: a list of Unicode code
  points. \<open>points\<close> gives the code points of an ASCII literal.
\<close>

type_synonym ustring = "nat list"

definition points :: "string \<Rightarrow> ustring" where
  "points s = map of_char s"

text \<open>
  The white space of \<open>str.strip()\<close> and \<open>str.isspace()\<close>: the code points of
  bidirectional class WS, B or S and of category Zs. These are the ASCII ones
  (U+0009-U+000D, U+001C-U+001F, U+0020) and U+0085, U+00A0, U+1680, U+2000-U+200A,
  U+2028, U+2029, U+202F, U+205F, U+3000.
\<close>

definition is_space :: "nat \<Rightarrow> bool" where
  "is_space c =
     (c \<in> set [0x09, 0x0A, 0x0B, 0x0C, 0x0D, 0x1C, 0x1D, 0x1E, 0x1F, 0x20, 0x85, 0xA0,
                0x1680, 0x2000, 0x2001, 0x2002, 0x2003, 0x2004, 0x2005, 0x2006, 0x2007,
                0x2008, 0x2009, 0x200A, 0x2028, 0x2029, 0x202F, 0x205F, 0x3000])"

definition strip :: "ustring \<Rightarrow> ustring" where
  "strip s = rev (dropWhile is_space (rev (dropWhile is_space s)))"

text \<open>
  \<open>str.lower()\<close> on the stripped answer, which the program only compares with
  \<open>y\<close>. Lowering works code point by code point and no code point lowers to the
  empty string, so the result is \<open>y\<close> exactly when the string is a single code
  point that lowers to U+0079; there are two, U+0059 and U+0079. \<open>ulower\<close> lowers
  the ASCII capitals and leaves every other code point as it is, which gives the
  same answer to that comparison.
\<close>

definition ulower :: "ustring \<Rightarrow> ustring" where
  "ulower s = map (\<lambda>c. if 0x41 \<le> c \<and> c \<le> 0x5A then c + 0x20 else c) s"

text \<open>\<open>p.rfind('.')\<close>: the index of the last dot, if there is one.\<close>

fun rfind_dot :: "string \<Rightarrow> nat option" where
  "rfind_dot [] = None"
| "rfind_dot (c # cs) =
     (case rfind_dot cs of
        Some i \<Rightarrow> Some (Suc i)
      | None \<Rightarrow> if c = CHR ''.'' then Some 0 else None)"

text \<open>
  \<open>os.path.splitext\<close> on a name without separators (\<open>genericpath._splitext\<close>): the
  name is split at its last dot, unless only dots come before it; then the extension is
  empty.
\<close>

definition splitext :: "string \<Rightarrow> string \<times> string" where
  "splitext p =
     (case rfind_dot p of
        None \<Rightarrow> (p, [])
      | Some i \<Rightarrow>
          if \<exists>c \<in> set (take i p). c \<noteq> CHR ''.'' then (take i p, drop i p) else (p, []))"

text \<open>The decimal digits of a natural number, as \<open>str(n)\<close> gives them.\<close>

definition digit_char :: "nat \<Rightarrow> char" where
  "digit_char d = ''0123456789'' ! d"

function str_nat :: "nat \<Rightarrow> string" where
  "str_nat n = (if n < 10 then [digit_char n] else str_nat (n div 10) @ [digit_char (n mod 10)])"
  by pat_completeness auto
termination
  by (relation "measure id") auto

declare str_nat.simps [simp del]

text \<open>\<open>f"{part:05d}"\<close>: the decimal digits, padded on the left with zeros to width 5.\<close>

definition fmt05d :: "nat \<Rightarrow> string" where
  "fmt05d n = replicate (5 - length (str_nat n)) CHR ''0'' @ str_nat n"

definition part_name :: "nat \<Rightarrow> string" where
  "part_name part = ''part-'' @ fmt05d part @ ''.parquet''"

text \<open>Reading a decimal numeral back, used to state what \<open>fmt05d\<close> prints.\<close>

definition digit_val :: "char \<Rightarrow> nat" where
  "digit_val c = of_char c - 48"

definition decimal_val :: "string \<Rightarrow> nat" where
  "decimal_val s = foldl (\<lambda>a c. 10 * a + digit_val c) 0 s"

subsection \<open>Paths\<close>

text \<open>
  A path is the list of its components below the file-system root, so
  \<open>os.path.join\<close> of a directory and a relative path appends, \<open>dirname\<close> drops the
  last component and \<open>basename\<close> is the last component.
\<close>

type_synonym path = "string list"

definition join :: "path \<Rightarrow> path \<Rightarrow> path" where
  "join p q = p @ q"

definition dirname :: "path \<Rightarrow> path" where
  "dirname p = butlast p"

definition basename :: "path \<Rightarrow> string" where
  "basename p = (if p = [] then [] else last p)"

text \<open>
  \<open>os.path.normpath\<close> of an absolute path: empty and \<open>.\<close> components vanish, \<open>..\<close>
  removes the component before it (and nothing at the root). The kernel resolves the
  paths of system calls the same way (there are no symbolic links in the model).
\<close>

definition norm_step :: "path \<Rightarrow> string \<Rightarrow> path" where
  "norm_step acc c =
     (if c = [] \<or> c = ''.'' then acc else if c = ''..'' then tl acc else c # acc)"

definition normpath :: "path \<Rightarrow> path" where
  "normpath p = rev (foldl norm_step [] p)"

definition normal :: "path \<Rightarrow> bool" where
  "normal p = (\<forall>c \<in> set p. c \<noteq> [] \<and> c \<noteq> ''.'' \<and> c \<noteq> ''..'')"

fun common_prefix :: "path \<Rightarrow> path \<Rightarrow> nat" where
  "common_prefix (x # xs) (y # ys) = (if x = y then Suc (common_prefix xs ys) else 0)"
| "common_prefix xs ys = 0"

text \<open>
  \<open>os.path.relpath(path, start)\<close> (\<open>posixpath.relpath\<close>): both paths are made
  absolute and normal, the common prefix is dropped, one \<open>..\<close> is put for every
  remaining component of \<open>start\<close>, and the empty result is \<open>.\<close>.
\<close>

definition relpath :: "path \<Rightarrow> path \<Rightarrow> path" where
  "relpath p start =
     (let start_list = normpath start;
          path_list = normpath p;
          i = common_prefix start_list path_list;
          rel_list = replicate (length start_list - i) ''..'' @ drop i path_list
      in if rel_list = [] then [''.''] else rel_list)"

subsection \<open>Files and the file-system tree\<close>

text \<open>
  A source file has a size in bytes and the table the pandas reader chosen by its
  extension makes of it: the rows, or the message of the error the reader raises. A
  file written by \<open>DataFrame.to_parquet\<close> holds the rows of the frame. The type of a
  row is left open. A directory lists its entries in the order the system reports
  them; the flag says whether entries may be added to it or removed from it.
\<close>

datatype 'r fdata =
    Source nat "string + 'r list"
  | Parquet "'r list"

datatype 'r node =
    File "'r fdata"
  | Dir bool "(string \<times> 'r node) list"

fun lookup :: "'r node \<Rightarrow> path \<Rightarrow> 'r node option" where
  "lookup n [] = Some n"
| "lookup (File d) (c # cs) = None"
| "lookup (Dir wr es) (c # cs) =
     (case map_of es c of None \<Rightarrow> None | Some n \<Rightarrow> lookup n cs)"

definition is_dir :: "'r node \<Rightarrow> path \<Rightarrow> bool" where
  "is_dir t p = (case lookup t p of Some (Dir wr es) \<Rightarrow> True | _ \<Rightarrow> False)"

text \<open>
  \<open>os.makedirs(p, exist_ok=True)\<close>: every missing directory on the way is made (in a
  directory that allows it), an existing directory is left as it is, and a plain file
  on the way or at \<open>p\<close> is an error.
\<close>

fun makedirs :: "path \<Rightarrow> 'r node \<Rightarrow> exc + 'r node" where
  "makedirs [] (Dir wr es) = Inr (Dir wr es)"
| "makedirs [] (File d) = Inl FileExistsError"
| "makedirs (c # cs) (File d) = Inl NotADirectoryError"
| "makedirs (c # cs) (Dir wr es) =
     (case map_of es c of
        Some n \<Rightarrow>
          (case makedirs cs n of
             Inl e \<Rightarrow> Inl e
           | Inr n' \<Rightarrow> Inr (Dir wr (AList.update c n' es)))
      | None \<Rightarrow>
          if \<not> wr then Inl PermissionError
          else
            (case makedirs cs (Dir True []) of
               Inl e \<Rightarrow> Inl e
             | Inr n' \<Rightarrow> Inr (Dir wr (AList.update c n' es))))"

text \<open>
  Opening \<open>p\<close> for writing and storing \<open>d\<close>: the parent must be a directory; an
  existing plain file is overwritten, a new one needs a directory that allows it.
\<close>

fun write_node :: "path \<Rightarrow> 'r fdata \<Rightarrow> 'r node \<Rightarrow> exc + 'r node" where
  "write_node [] d n = Inl IsADirectoryError"
| "write_node (c # cs) d (File d') = Inl NotADirectoryError"
| "write_node [c] d (Dir wr es) =
     (case map_of es c of
        Some (Dir wr' es') \<Rightarrow> Inl IsADirectoryError
      | Some (File d') \<Rightarrow> Inr (Dir wr (AList.update c (File d) es))
      | None \<Rightarrow>
          if wr then Inr (Dir wr (AList.update c (File d) es)) else Inl PermissionError)"
| "write_node (c # c' # cs) d (Dir wr es) =
     (case map_of es c of
        None \<Rightarrow> Inl FileNotFoundError
      | Some n \<Rightarrow>
          (case write_node (c' # cs) d n of
             Inl e \<Rightarrow> Inl e
           | Inr n' \<Rightarrow> Inr (Dir wr (AList.update c n' es))))"

text \<open>\<open>os.remove(p)\<close>: \<open>p\<close> must be a plain file in a directory that allows removal.\<close>

fun remove_node :: "path \<Rightarrow> 'r node \<Rightarrow> exc + 'r node" where
  "remove_node [] n = Inl IsADirectoryError"
| "remove_node (c # cs) (File d') = Inl NotADirectoryError"
| "remove_node [c] (Dir wr es) =
     (case map_of es c of
        None \<Rightarrow> Inl FileNotFoundError
      | Some (Dir wr' es') \<Rightarrow> Inl IsADirectoryError
      | Some (File d') \<Rightarrow>
          if wr then Inr (Dir wr (AList.delete c es)) else Inl PermissionError)"
| "remove_node (c # c' # cs) (Dir wr es) =
     (case map_of es c of
        None \<Rightarrow> Inl FileNotFoundError
      | Some n \<Rightarrow>
          (case remove_node (c' # cs) n of
             Inl e \<Rightarrow> Inl e
           | Inr n' \<Rightarrow> Inr (Dir wr (AList.update c n' es))))"

definition is_file_entry :: "string \<times> 'r node \<Rightarrow> bool" where
  "is_file_entry e = (case snd e of File d \<Rightarrow> True | Dir wr es \<Rightarrow> False)"

text \<open>
  \<open>os.walk(top)\<close>, top-down: for a directory its path, the names of its
  sub-directories and the names of its other entries, then the same for each
  sub-directory. A top that is not a directory yields nothing.
\<close>

fun walk_node :: "path \<Rightarrow> 'r node \<Rightarrow> (path \<times> string list \<times> string list) list" where
  "walk_node p (File d) = []"
| "walk_node p (Dir wr es) =
     (p, map fst (filter (\<lambda>e. \<not> is_file_entry e) es), map fst (filter is_file_entry es))
     # concat (map (\<lambda>e. walk_node (join p [fst e]) (snd e)) es)"

definition os_walk :: "path \<Rightarrow> 'r node \<Rightarrow> (path \<times> string list \<times> string list) list" where
  "os_walk root t =
     (case lookup t (normpath root) of None \<Rightarrow> [] | Some n \<Rightarrow> walk_node root n)"

subsection \<open>The world: file system, library calls made, lines printed\<close>

datatype 'r call =
    Makedirs path                 \<comment> \<open>\<open>os.makedirs(p, exist_ok=True)\<close>\<close>
  | Walk path                     \<comment> \<open>\<open>os.walk(root)\<close>\<close>
  | Getsize path                  \<comment> \<open>\<open>os.path.getsize(p)\<close>\<close>
  | ReadCsv path "nat option"     \<comment> \<open>\<open>pd.read_csv(p)\<close>, with \<open>chunksize\<close> if given\<close>
  | ReadExcel path                \<comment> \<open>\<open>pd.read_excel(p, sheet_name=0)\<close>\<close>
  | ReadStata path                \<comment> \<open>\<open>pd.read_stata(p)\<close>\<close>
  | ToParquet path "'r list"      \<comment> \<open>\<open>df.to_parquet(p)\<close>, with the rows of \<open>df\<close>\<close>
  | Listdir path                  \<comment> \<open>\<open>os.listdir(p)\<close>\<close>
  | Remove path                   \<comment> \<open>\<open>os.remove(p)\<close>\<close>

text \<open>The lines the program prints, by the source line that prints them.\<close>

datatype msg =
    NoGui                         \<comment> \<open>line 22 (to stderr)\<close>
  | NoInputDir                    \<comment> \<open>line 94\<close>
  | NoFilesFound                  \<comment> \<open>line 103\<close>
  | Converted path nat            \<comment> \<open>line 123: the file and the number of outputs\<close>
  | ConvertFailed path string     \<comment> \<open>line 125: the file and \<open>str(e)\<close>\<close>
  | DeleteFailed path string      \<comment> \<open>line 139\<close>
  | DeleteTried                   \<comment> \<open>line 140\<close>
  | KeptOriginals                 \<comment> \<open>line 142\<close>
  | SummaryHeader                 \<comment> \<open>line 144\<close>
  | SummaryLine nat nat path      \<comment> \<open>line 147: successes, failures, output directory\<close>

record 'r world =
  fs :: "'r node"
  calls :: "'r call list"
  stdout :: "msg list"

type_synonym ('a, 'r) prog = "'r world \<Rightarrow> (exc + 'a) \<times> 'r world"

text \<open>Sequencing: an exception of the first part skips the second.\<close>

definition then_do :: "('a, 'r) prog \<Rightarrow> ('a \<Rightarrow> ('b, 'r) prog) \<Rightarrow> ('b, 'r) prog" where
  "then_do m f w = (case m w of (Inl e, w1) \<Rightarrow> (Inl e, w1) | (Inr x, w1) \<Rightarrow> f x w1)"

definition return :: "'a \<Rightarrow> ('a, 'r) prog" where
  "return x w = (Inr x, w)"

definition raise :: "exc \<Rightarrow> ('a, 'r) prog" where
  "raise e w = (Inl e, w)"

definition log_call :: "'r call \<Rightarrow> 'r world \<Rightarrow> 'r world" where
  "log_call c w = w\<lparr>calls := calls w @ [c]\<rparr>"

definition print :: "msg \<Rightarrow> (unit, 'r) prog" where
  "print m w = (Inr (), w\<lparr>stdout := stdout w @ [m]\<rparr>)"

subsection \<open>Library calls\<close>

definition os_makedirs :: "path \<Rightarrow> (unit, 'r) prog" where
  "os_makedirs p w =
     (let w1 = log_call (Makedirs p) w
      in case makedirs (normpath p) (fs w1) of
           Inl e \<Rightarrow> (Inl e, w1)
         | Inr t \<Rightarrow> (Inr (), w1\<lparr>fs := t\<rparr>))"

text \<open>
  \<open>os.path.getsize\<close>: the size of a plain file. A directory has the size its file
  system gives it (4096 here), the size of a Parquet file is not modelled (0 here);
  the program asks for neither, since it only sizes files that \<open>os.walk\<close> listed
  under an extension other than \<open>.parquet\<close>.
\<close>

definition os_path_getsize :: "path \<Rightarrow> (nat, 'r) prog" where
  "os_path_getsize p w =
     (let w1 = log_call (Getsize p) w
      in case lookup (fs w1) (normpath p) of
           None \<Rightarrow> (Inl FileNotFoundError, w1)
         | Some (Dir wr es) \<Rightarrow> (Inr 4096, w1)
         | Some (File (Source n c)) \<Rightarrow> (Inr n, w1)
         | Some (File (Parquet rows)) \<Rightarrow> (Inr 0, w1))"

text \<open>
  What a pandas reader makes of the file at \<open>p\<close>: its rows, or the error it raises.
  A Parquet file is not a table any of the three readers accepts.
\<close>

definition read_table :: "path \<Rightarrow> 'r node \<Rightarrow> exc + 'r list" where
  "read_table p t =
     (case lookup t (normpath p) of
        None \<Rightarrow> Inl FileNotFoundError
      | Some (Dir wr es) \<Rightarrow> Inl IsADirectoryError
      | Some (File (Source n (Inl m))) \<Rightarrow> Inl (ParserError m)
      | Some (File (Source n (Inr rows))) \<Rightarrow> Inr rows
      | Some (File (Parquet rows)) \<Rightarrow> Inl (ParserError ''not a text table''))"

definition pd_read_csv :: "path \<Rightarrow> ('r list, 'r) prog" where
  "pd_read_csv p w = (let w1 = log_call (ReadCsv p None) w in (read_table p (fs w1), w1))"

definition pd_read_excel :: "path \<Rightarrow> ('r list, 'r) prog" where
  "pd_read_excel p w = (let w1 = log_call (ReadExcel p) w in (read_table p (fs w1), w1))"

definition pd_read_stata :: "path \<Rightarrow> ('r list, 'r) prog" where
  "pd_read_stata p w = (let w1 = log_call (ReadStata p) w in (read_table p (fs w1), w1))"

text \<open>Successive slices of \<open>n\<close> rows; the last one holds what is left.\<close>

function chunks_of :: "nat \<Rightarrow> 'a list \<Rightarrow> 'a list list" where
  "chunks_of n xs =
     (if n = 0 \<or> xs = [] then [] else take n xs # chunks_of n (drop n xs))"
  by pat_completeness auto
termination
  by (relation "measure (\<lambda>(n, xs). length xs)") auto

declare chunks_of.simps [simp del]

text \<open>
  Iterating \<open>pd.read_csv(p, chunksize=n)\<close>: frames of \<open>n\<close> rows each, the last one
  with the rest. pandas refuses \<open>n < 1\<close>. For a table without data rows pandas
  still yields one frame, an empty one that carries the columns: in
  \<open>CParserWrapper.read\<close> the first read that hits the end of the data returns the
  empty frame instead of stopping the iteration (pandas issue 9535, test
  \<open>test_empty_with_nrows_chunksize\<close>). The chunks are read as the loop asks for
  them; the model reads them at once, which no write of the loop can tell apart, as
  the loop writes only \<open>.parquet\<close> files and the source is not one.
\<close>

definition csv_frames :: "nat \<Rightarrow> 'a list \<Rightarrow> 'a list list" where
  "csv_frames n rows = (if rows = [] then [[]] else chunks_of n rows)"

definition pd_read_csv_chunks :: "path \<Rightarrow> nat \<Rightarrow> ('r list list, 'r) prog" where
  "pd_read_csv_chunks p n w =
     (let w1 = log_call (ReadCsv p (Some n)) w
      in if n = 0 then (Inl ValueError, w1)
         else
           (case read_table p (fs w1) of
              Inl e \<Rightarrow> (Inl e, w1)
            | Inr rows \<Rightarrow> (Inr (csv_frames n rows), w1)))"

definition os_listdir :: "path \<Rightarrow> (string list, 'r) prog" where
  "os_listdir p w =
     (let w1 = log_call (Listdir p) w
      in case lookup (fs w1) (normpath p) of
           None \<Rightarrow> (Inl FileNotFoundError, w1)
         | Some (File d) \<Rightarrow> (Inl NotADirectoryError, w1)
         | Some (Dir wr es) \<Rightarrow> (Inr (map fst es), w1))"

definition os_remove :: "path \<Rightarrow> (unit, 'r) prog" where
  "os_remove p w =
     (let w1 = log_call (Remove p) w
      in case remove_node (normpath p) (fs w1) of
           Inl e \<Rightarrow> (Inl e, w1)
         | Inr t \<Rightarrow> (Inr (), w1\<lparr>fs := t\<rparr>))"

definition to_parquet :: "'r list \<Rightarrow> path \<Rightarrow> (unit, 'r) prog" where
  "to_parquet df p w =
     (let w1 = log_call (ToParquet p df) w
      in case write_node (normpath p) (Parquet df) (fs w1) of
           Inl e \<Rightarrow> (Inl e, w1)
         | Inr t \<Rightarrow> (Inr (), w1\<lparr>fs := t\<rparr>))"

subsection \<open>The program\<close>

text \<open>Lines 31-32.\<close>

definition ensure_dir :: "path \<Rightarrow> (unit, 'r) prog" where
  "ensure_dir p = os_makedirs p"

text \<open>Lines 35-37.\<close>

definition write_df_to_parquet :: "'r list \<Rightarrow> path \<Rightarrow> (unit, 'r) prog" where
  "write_df_to_parquet df out_path = to_parquet df out_path"

text \<open>Lines 47-50: the loop over the chunks, with its counter \<open>part\<close>.\<close>

fun write_parts :: "path \<Rightarrow> nat \<Rightarrow> 'r list list \<Rightarrow> (nat, 'r) prog" where
  "write_parts part_dir part [] w = (Inr part, w)"
| "write_parts part_dir part (chunk # rest) w =
     (let out_file = join part_dir [part_name part]
      in case write_df_to_parquet chunk out_file w of
           (Inl e, w1) \<Rightarrow> (Inl e, w1)
         | (Inr u, w1) \<Rightarrow> write_parts part_dir (part + 1) rest w1)"

text \<open>Lines 40-56.\<close>

definition process_csv :: "path \<Rightarrow> path \<Rightarrow> string \<Rightarrow> nat \<Rightarrow> (path list, 'r) prog" where
  "process_csv path out_dir name chunk_size =
     then_do (os_path_getsize path) (\<lambda>file_size.
       if file_size > 50 * 1024 * 1024 then
         (let part_dir = join out_dir [name]
          in then_do (ensure_dir part_dir) (\<lambda>u.
             then_do (pd_read_csv_chunks path chunk_size) (\<lambda>chunks.
             then_do (write_parts part_dir 0 chunks) (\<lambda>part.
             then_do (os_listdir part_dir) (\<lambda>names.
               return (map (\<lambda>f. join part_dir [f]) (sort names)))))))
       else
         then_do (pd_read_csv path) (\<lambda>df.
           (let out_file = join out_dir [name @ ''.parquet'']
            in then_do (write_df_to_parquet df out_file) (\<lambda>u. return [out_file]))))"

text \<open>Lines 59-65.\<close>

definition process_excel :: "path \<Rightarrow> path \<Rightarrow> string \<Rightarrow> (path list, 'r) prog" where
  "process_excel path out_dir name =
     then_do (pd_read_excel path) (\<lambda>df.
       (let out_file = join out_dir [name @ ''.parquet'']
        in then_do (write_df_to_parquet df out_file) (\<lambda>u. return [out_file])))"

text \<open>Lines 68-73.\<close>

definition process_dta :: "path \<Rightarrow> path \<Rightarrow> string \<Rightarrow> (path list, 'r) prog" where
  "process_dta path out_dir name =
     then_do (pd_read_stata path) (\<lambda>df.
       (let out_file = join out_dir [name @ ''.parquet'']
        in then_do (write_df_to_parquet df out_file) (\<lambda>u. return [out_file])))"

text \<open>Lines 76-82.\<close>

definition find_files :: "path \<Rightarrow> string list \<Rightarrow> (path list, 'r) prog" where
  "find_files root exts w =
     (let w1 = log_call (Walk root) w
      in (Inr (concat (map (\<lambda>(dirpath, dirnames, filenames).
                 map (\<lambda>f. join dirpath [f])
                   (filter (\<lambda>f. lower (snd (splitext f)) \<in> set exts) filenames))
               (os_walk root (fs w1)))), w1))"

text \<open>
  An entry of \<open>summary\<close> (lines 122 and 126): the input file, the outputs recorded for
  it, and the error text if its conversion failed.
\<close>

type_synonym outcome = "path \<times> path list \<times> string option"

definition exts :: "string list" where
  "exts = [''.csv'', ''.xlsx'', ''.xls'', ''.dta'']"

text \<open>Lines 114-121: the reader is chosen by the lowered extension.\<close>

definition dispatch :: "string \<Rightarrow> path \<Rightarrow> path \<Rightarrow> string \<Rightarrow> (path list, 'r) prog" where
  "dispatch ext f target_dir name =
     (if ext = ''.csv'' then process_csv f target_dir name 200000
      else if ext \<in> set [''.xlsx'', ''.xls''] then process_excel f target_dir name
      else if ext = ''.dta'' then process_dta f target_dir name
      else return [])"

text \<open>
  Lines 108-126, one pass of the loop over \<open>files\<close>. The target directory is made
  before the \<open>try\<close>; what the \<open>try\<close> raises is caught by \<open>except Exception\<close>.
\<close>

definition convert_one :: "path \<Rightarrow> path \<Rightarrow> path \<Rightarrow> outcome list \<Rightarrow> (outcome list, 'r) prog" where
  "convert_one input_dir output_dir f summary =
     (let rel_dir = relpath (dirname f) input_dir;
          target_dir = join output_dir rel_dir
      in then_do (ensure_dir target_dir) (\<lambda>u.
           (let name = fst (splitext (basename f));
                ext = lower (snd (splitext (basename f)))
            in (\<lambda>w.
                 case dispatch ext f target_dir name w of
                   (Inr out_files, w1) \<Rightarrow>
                     then_do (print (Converted f (length out_files)))
                       (\<lambda>u. return (summary @ [(f, out_files, None)])) w1
                 | (Inl e, w1) \<Rightarrow>
                     if is_Exception e then
                       then_do (print (ConvertFailed f (str_exc e)))
                         (\<lambda>u. return (summary @ [(f, [], Some (str_exc e))])) w1
                     else (Inl e, w1)))))"

text \<open>Lines 106-126: the loop.\<close>

fun convert_all :: "path \<Rightarrow> path \<Rightarrow> path list \<Rightarrow> outcome list \<Rightarrow> (outcome list, 'r) prog" where
  "convert_all input_dir output_dir [] summary w = (Inr summary, w)"
| "convert_all input_dir output_dir (f # files) summary w =
     (case convert_one input_dir output_dir f summary w of
        (Inl e, w1) \<Rightarrow> (Inl e, w1)
      | (Inr summary1, w1) \<Rightarrow> convert_all input_dir output_dir files summary1 w1)"

text \<open>Lines 135-139: the loop that removes the originals.\<close>

fun delete_all :: "outcome list \<Rightarrow> (unit, 'r) prog" where
  "delete_all [] w = (Inr (), w)"
| "delete_all ((orig, outs, err) # rest) w =
     (case os_remove orig w of
        (Inr u, w1) \<Rightarrow> delete_all rest w1
      | (Inl e, w1) \<Rightarrow>
          if is_Exception e then
            (case print (DeleteFailed orig (str_exc e)) w1 of
               (Inl e', w2) \<Rightarrow> (Inl e', w2)
             | (Inr u, w2) \<Rightarrow> delete_all rest w2)
          else (Inl e, w1))"

text \<open>
  The command line (lines 86-90), the directory dialog (lines 17-28) and the line the
  user types when asked (line 132; \<open>None\<close> when the input is at its end).
\<close>

record args =
  arg_input :: "path option"
  arg_output :: "path option"
  arg_delete :: bool

datatype dialog = NoTkinter | Chosen "path option"

definition choose_directory_dialog :: "dialog \<Rightarrow> (path option, 'r) prog" where
  "choose_directory_dialog dlg =
     (case dlg of
        NoTkinter \<Rightarrow> then_do (print NoGui) (\<lambda>u. raise (SystemExit 1))
      | Chosen folder \<Rightarrow> return folder)"

definition input_line :: "ustring option \<Rightarrow> (ustring, 'r) prog" where
  "input_line stdin = (case stdin of None \<Rightarrow> raise EOFError | Some l \<Rightarrow> return l)"

definition succ_count :: "outcome list \<Rightarrow> nat" where
  "succ_count summary = length (filter (\<lambda>s. snd (snd s) = None) summary)"

definition fail_count :: "outcome list \<Rightarrow> nat" where
  "fail_count summary = length (filter (\<lambda>s. snd (snd s) \<noteq> None) summary)"

text \<open>Lines 128-147: what follows the loop over the files.\<close>

definition finish :: "args \<Rightarrow> ustring option \<Rightarrow> path \<Rightarrow> outcome list \<Rightarrow> (unit, 'r) prog" where
  "finish a stdin output_dir summary =
     then_do (if arg_delete a then return (points ''y'')
              else then_do (input_line stdin) (\<lambda>l. return (ulower (strip l)))) (\<lambda>confirm.
     then_do (if confirm = points ''y''
              then then_do (delete_all summary) (\<lambda>u. print DeleteTried)
              else print KeptOriginals) (\<lambda>u.
     then_do (print SummaryHeader) (\<lambda>u.
       print (SummaryLine (succ_count summary) (fail_count summary) output_dir))))"

text \<open>Lines 85-147.\<close>

definition main :: "args \<Rightarrow> dialog \<Rightarrow> ustring option \<Rightarrow> (unit, 'r) prog" where
  "main a dlg stdin =
     then_do (case arg_input a of
                Some d \<Rightarrow> return (Some d)
              | None \<Rightarrow> choose_directory_dialog dlg) (\<lambda>chosen.
       case chosen of
         None \<Rightarrow> then_do (print NoInputDir) (\<lambda>u. raise (SystemExit 1))
       | Some d \<Rightarrow>
           (let input_dir = normpath d;
                output_dir = (case arg_output a of
                                Some out \<Rightarrow> out
                              | None \<Rightarrow> join input_dir [''_parquet_out''])
            in then_do (ensure_dir output_dir) (\<lambda>u.
               then_do (find_files input_dir exts) (\<lambda>files.
                 if files = [] then then_do (print NoFilesFound) (\<lambda>u. raise (SystemExit 0))
                 else
                   then_do (convert_all input_dir output_dir files []) (\<lambda>summary.
                     finish a stdin output_dir summary)))))"

subsection \<open>Reading the record of calls\<close>

text \<open>The calls made between two worlds of one run.\<close>

definition new_calls :: "'r world \<Rightarrow> 'r world \<Rightarrow> 'r call list" where
  "new_calls w w' = drop (length (calls w)) (calls w')"

text \<open>The Parquet files written, with their rows, in the order of writing.\<close>

fun written :: "'r call list \<Rightarrow> (path \<times> 'r list) list" where
  "written [] = []"
| "written (ToParquet p df # cs) = (p, df) # written cs"
| "written (c # cs) = written cs"

text \<open>The calls of the pandas readers.\<close>

fun is_read :: "'r call \<Rightarrow> bool" where
  "is_read (ReadCsv p n) = True"
| "is_read (ReadExcel p) = True"
| "is_read (ReadStata p) = True"
| "is_read c = False"

definition reads :: "'r call list \<Rightarrow> 'r call list" where
  "reads cs = filter is_read cs"

text \<open>The files \<open>os.remove\<close> was called on.\<close>

fun removed :: "'r call list \<Rightarrow> path list" where
  "removed [] = []"
| "removed (Remove p # cs) = p # removed cs"
| "removed (c # cs) = removed cs"

text \<open>The rows of the Parquet file at a path, if there is one.\<close>

definition parquet_rows :: "'r node \<Rightarrow> path \<Rightarrow> 'r list option" where
  "parquet_rows t p =
     (case lookup t (normpath p) of Some (File (Parquet rows)) \<Rightarrow> Some rows | _ \<Rightarrow> None)"

text \<open>
  From one world of a run to a later one: calls and printed lines are only added, and
  a directory stays a directory. A program is steady when every run of it is such a
  step, and it does not exit when the exceptions it raises are ones that
  \<open>except Exception\<close> catches.
\<close>

definition grows :: "'r world \<Rightarrow> 'r world \<Rightarrow> bool" where
  "grows w w' \<longleftrightarrow>
     prefix (calls w) (calls w') \<and> prefix (stdout w) (stdout w') \<and>
     (\<forall>q. is_dir (fs w) q \<longrightarrow> is_dir (fs w') q)"

definition steady :: "('a, 'r) prog \<Rightarrow> bool" where
  "steady m \<longleftrightarrow> (\<forall>w. grows w (snd (m w)))"

definition no_exit :: "('a, 'r) prog \<Rightarrow> bool" where
  "no_exit m \<longleftrightarrow> (\<forall>w e w'. m w = (Inl e, w') \<longrightarrow> is_Exception e)"

text \<open>
  The local variables of one pass of the loop (lines 108-112), as functions of the
  file: its target directory, its name without extension, its lowered extension.
\<close>

definition target_dir_of :: "path \<Rightarrow> path \<Rightarrow> path \<Rightarrow> path" where
  "target_dir_of input_dir output_dir f = join output_dir (relpath (dirname f) input_dir)"

definition name_of :: "path \<Rightarrow> string" where
  "name_of f = fst (splitext (basename f))"

definition ext_of :: "path \<Rightarrow> string" where
  "ext_of f = lower (snd (splitext (basename f)))"

text \<open>
  Line 92, \<open>args.input or choose_directory_dialog()\<close> when the dialog returns, and
  line 97, \<open>args.output or os.path.join(input_dir, '_parquet_out')\<close>, as functions
  of the command line.
\<close>

definition input_of :: "args \<Rightarrow> dialog \<Rightarrow> path option" where
  "input_of a dlg =
     (case arg_input a of
        Some d \<Rightarrow> Some d
      | None \<Rightarrow> (case dlg of NoTkinter \<Rightarrow> None | Chosen folder \<Rightarrow> folder))"

definition output_dir_of :: "args \<Rightarrow> path \<Rightarrow> path" where
  "output_dir_of a d =
     (case arg_output a of Some out \<Rightarrow> out | None \<Rightarrow> join (normpath d) [''_parquet_out''])"

subsection \<open>Sample trees\<close>

text \<open>
  An input directory with a small CSV file, a CSV file above the 50 MiB threshold, a
  spreadsheet the reader rejects in a sub-directory, and a Stata file in a
  sub-directory that does not allow removal. Rows are numbers here.
\<close>

definition sample_tree :: "nat node" where
  "sample_tree =
     Dir True
       [(''in'', Dir True
          [(''x.csv'', File (Source 1024 (Inr [1, 2, 3]))),
           (''big.csv'', File (Source 52428801 (Inr [4, 5, 6]))),
           (''sub'', Dir True [(''y.XLSX'', File (Source 512 (Inl ''not a workbook'')))]),
           (''ro'', Dir False [(''z.dta'', File (Source 2048 (Inr [7])))])])]"

definition sample_world :: "nat world" where
  "sample_world = \<lparr>fs = sample_tree, calls = [], stdout = []\<rparr>"

text \<open>An input directory with one CSV file above the threshold that has no data rows.\<close>

definition header_only_tree :: "nat node" where
  "header_only_tree =
     Dir True [(''in'', Dir True [(''h.csv'', File (Source 52428801 (Inr [])))])]"

definition header_only_world :: "nat world" where
  "header_only_world = \<lparr>fs = header_only_tree, calls = [], stdout = []\<rparr>"

text \<open>
  An input directory without a file to convert: a text file, and a file named
  \<open>.csv\<close>, which has no extension.
\<close>

definition no_match_tree :: "nat node" where
  "no_match_tree =
     Dir True
       [(''in'', Dir True
          [(''notes.txt'', File (Source 10 (Inr []))),
           (''.csv'', File (Source 10 (Inr [1])))])]"

definition no_match_world :: "nat world" where
  "no_match_world = \<lparr>fs = no_match_tree, calls = [], stdout = []\<rparr>"

text \<open>
  Three small CSV files, one in the input directory and two in sub-directories, and
  an output directory in which the name \<open>sub\<close> is taken by a plain file.
\<close>

definition blocked_tree :: "nat node" where
  "blocked_tree =
     Dir True
       [(''in'', Dir True
          [(''x.csv'', File (Source 100 (Inr [1]))),
           (''sub'', Dir True [(''y.csv'', File (Source 100 (Inr [2])))]),
           (''t'', Dir True [(''z.csv'', File (Source 100 (Inr [3])))])]),
        (''out'', Dir True [(''sub'', File (Source 5 (Inr [])))])]"

definition blocked_world :: "nat world" where
  "blocked_world = \<lparr>fs = blocked_tree, calls = [], stdout = []\<rparr>"

text \<open>
  A CSV file above the threshold, and an output directory whose part directory for
  it already holds a part, number 7, from an earlier run.
\<close>

definition stale_tree :: "nat node" where
  "stale_tree =
     Dir True
       [(''in'', Dir True [(''big.csv'', File (Source 52428801 (Inr [1, 2, 3])))]),
        (''out'', Dir True
          [(''big'', Dir True [(''part-00007.parquet'', File (Parquet [9, 9]))])])]"

definition stale_world :: "nat world" where
  "stale_world = \<lparr>fs = stale_tree, calls = [], stdout = []\<rparr>"

text \<open>Command lines: input \<open>in\<close>, output \<open>out\<close>, with and without \<open>--delete\<close>.\<close>

definition args_delete :: args where
  "args_delete = \<lparr>arg_input = Some [''in''], arg_output = Some [''out''], arg_delete = True\<rparr>"

definition args_ask :: args where
  "args_ask = \<lparr>arg_input = Some [''in''], arg_output = Some [''out''], arg_delete = False\<rparr>"

text \<open>
  The run on the sample tree with \<open>--delete\<close>: the files it discovers, the
  summary at the end of its loop, and the worlds after the output directory is made,
  after the walk, after the loop and at the end.
\<close>

definition sample_files :: "path list" where
  "sample_files =
     [[''in'', ''x.csv''], [''in'', ''big.csv''], [''in'', ''sub'', ''y.XLSX''],
      [''in'', ''ro'', ''z.dta'']]"

definition sample_summary :: "outcome list" where
  "sample_summary =
     [([''in'', ''x.csv''], [[''out'', ''.'', ''x.parquet'']], None),
      ([''in'', ''big.csv''], [[''out'', ''.'', ''big'', ''part-00000.parquet'']], None),
      ([''in'', ''sub'', ''y.XLSX''], [], Some ''not a workbook''),
      ([''in'', ''ro'', ''z.dta''], [[''out'', ''ro'', ''z.parquet'']], None)]"

definition sample_w1 :: "nat world" where
  "sample_w1 = snd (ensure_dir [''out''] sample_world)"

definition sample_w2 :: "nat world" where
  "sample_w2 = snd (find_files [''in''] exts sample_w1)"

definition sample_w3 :: "nat world" where
  "sample_w3 = snd (convert_all [''in''] [''out''] sample_files [] sample_w2)"

definition sample_end :: "nat world" where
  "sample_end = snd (main args_delete NoTkinter None sample_world)"

text \<open>The world after the output directory is made in the tree without a match.\<close>

definition no_match_w1 :: "nat world" where
  "no_match_w1 =
     \<lparr>fs = Dir True
     [(''in'',
     Dir True
     [(''notes.txt'', File (Source 10 (Inr []))),
     (''.csv'', File (Source 10 (Inr [1])))]),
     (''out'', Dir True [])],
     calls = [Makedirs [''out'']], stdout = []\<rparr>"

text \<open>A command line whose output directory is \<open>out/sub\<close>.\<close>

definition args_sub :: args where
  "args_sub =
     \<lparr>arg_input = Some [''in''], arg_output = Some [''out'', ''sub''], arg_delete = True\<rparr>"

text \<open>
  The run on the tree whose output directory holds a plain file named \<open>sub\<close>: the
  files it discovers, and the worlds after the output directory is made, after the
  walk and after the loop.
\<close>

definition blocked_files :: "path list" where
  "blocked_files = [[''in'', ''x.csv''], [''in'', ''sub'', ''y.csv''], [''in'', ''t'', ''z.csv'']]"

definition blocked_w1 :: "nat world" where
  "blocked_w1 = snd (ensure_dir [''out''] blocked_world)"

definition blocked_w2 :: "nat world" where
  "blocked_w2 = snd (find_files [''in''] exts blocked_w1)"

definition blocked_w3 :: "nat world" where
  "blocked_w3 = snd (convert_all [''in''] [''out''] blocked_files [] blocked_w2)"

text \<open>
  The run on the tree with a part of an earlier run: the worlds after the output
  directory is made, after the walk and after the loop, the file it discovers and the
  summary at the end of its loop.
\<close>

definition stale_w1 :: "nat world" where
  "stale_w1 = snd (ensure_dir [''out''] stale_world)"

definition stale_w2 :: "nat world" where
  "stale_w2 = snd (find_files [''in''] exts stale_w1)"

definition stale_files :: "path list" where
  "stale_files = [[''in'', ''big.csv'']]"

definition stale_w3 :: "nat world" where
  "stale_w3 = snd (convert_all [''in''] [''out''] stale_files [] stale_w2)"

definition stale_summary :: "outcome list" where
  "stale_summary =
     [([''in'', ''big.csv''],
       [[''out'', ''.'', ''big'', ''part-00000.parquet''],
        [''out'', ''.'', ''big'', ''part-00007.parquet'']], None)]"

text \<open>
  An input directory with a spreadsheet two directories down, and no output directory
  yet.
\<close>

definition nested_tree :: "nat node" where
  "nested_tree =
     Dir True
       [(''in'', Dir True
          [(''a'', Dir True
             [(''b'', Dir True [(''c.xlsx'', File (Source 300 (Inr [1, 2])))])])])]"

definition nested_world :: "nat world" where
  "nested_world = \<lparr>fs = nested_tree, calls = [], stdout = []\<rparr>"

section \<open>Properties\<close>

subsection \<open>Paths\<close>

lemma foldl_norm_step_normal:
  "normal q \<Longrightarrow> foldl norm_step acc q = rev q @ acc"
  by (induction q arbitrary: acc) (auto simp: normal_def norm_step_def)

lemma normpath_normal: "normal p \<Longrightarrow> normpath p = p"
  by (simp add: normpath_def foldl_norm_step_normal)

lemma normpath_append_normal: "normal q \<Longrightarrow> normpath (p @ q) = normpath p @ q"
  by (simp add: normpath_def foldl_norm_step_normal)

lemma normpath_dot: "normpath (p @ [''.''] @ q) = normpath (p @ q)"
  by (simp add: normpath_def norm_step_def)

lemma normal_foldl_norm_step:
  "normal acc \<Longrightarrow> normal (foldl norm_step acc p)"
proof (induction p arbitrary: acc)
  case Nil
  then show ?case by simp
next
  case (Cons c p)
  have "normal (norm_step acc c)"
    using Cons.prems by (cases acc) (auto simp: normal_def norm_step_def)
  then show ?case using Cons.IH by simp
qed

lemma normal_normpath: "normal (normpath p)"
  using normal_foldl_norm_step [of "[]" p] by (simp add: normpath_def normal_def)

lemma normal_append: "normal (p @ q) \<longleftrightarrow> normal p \<and> normal q"
  by (auto simp: normal_def)

lemma common_prefix_append: "common_prefix s (s @ r) = length s"
  by (induction s) auto

lemma relpath_under:
  assumes "normal input_dir" and "normal rel"
  shows "relpath (input_dir @ rel) input_dir = (if rel = [] then [''.''] else rel)"
  using assms
  by (simp add: relpath_def Let_def normpath_normal normal_append common_prefix_append)

subsection \<open>Chunks\<close>

lemma ceil_div_small:
  assumes "0 < n" and "0 < m" and "m \<le> n"
  shows "(m + n - 1) div n = (1::nat)"
proof -
  have "(m + n - 1) div n = Suc ((m + n - 1 - n) div n)"
    using assms by (intro le_div_geq) auto
  moreover have "m + n - 1 - n = m - 1" by simp
  moreover have "(m - 1) div n = 0" using assms by simp
  ultimately show ?thesis by (simp only: One_nat_def)
qed

lemma ceil_div_step:
  assumes "0 < n" and "n < m"
  shows "(m + n - 1) div n = Suc ((m - n + n - 1) div n)"
proof -
  have "(m + n - 1) div n = Suc ((m + n - 1 - n) div n)"
    using assms by (intro le_div_geq) auto
  moreover have "m + n - 1 - n = m - n + n - 1" using assms by simp
  ultimately show ?thesis by (simp only:)
qed

lemma chunks_of_Nil: "chunks_of n [] = []"
  by (simp add: chunks_of.simps)

lemma chunks_of_step:
  "0 < n \<Longrightarrow> xs \<noteq> [] \<Longrightarrow> chunks_of n xs = take n xs # chunks_of n (drop n xs)"
  by (subst chunks_of.simps) simp

lemma concat_chunks_of: "0 < n \<Longrightarrow> concat (chunks_of n xs) = xs"
proof (induction n xs rule: chunks_of.induct)
  case (1 n xs)
  show ?case
  proof (cases "xs = []")
    case True
    then show ?thesis by (simp add: chunks_of_Nil)
  next
    case False
    with 1 show ?thesis by (simp add: chunks_of_step)
  qed
qed

lemma chunks_of_bounded: "c \<in> set (chunks_of n xs) \<Longrightarrow> length c \<le> n \<and> c \<noteq> []"
proof (induction n xs rule: chunks_of.induct)
  case (1 n xs)
  show ?case
  proof (cases "n = 0 \<or> xs = []")
    case True
    with 1(2) show ?thesis by (simp add: chunks_of.simps)
  next
    case False
    with 1 show ?thesis by (auto simp: chunks_of_step)
  qed
qed

lemma length_chunks_of: "0 < n \<Longrightarrow> length (chunks_of n xs) = (length xs + n - 1) div n"
proof (induction n xs rule: chunks_of.induct)
  case (1 n xs)
  show ?case
  proof (cases "xs = []")
    case True
    with 1(2) show ?thesis by (simp add: chunks_of_Nil)
  next
    case False
    note ne = this
    have ih: "length (chunks_of n (drop n xs)) = (length (drop n xs) + n - 1) div n"
      using 1 ne by simp
    show ?thesis
    proof (cases "length xs \<le> n")
      case True
      have "(length xs + n - 1) div n = 1"
        using ne True 1(2) by (intro ceil_div_small) auto
      with True 1(2) ne show ?thesis by (simp add: chunks_of_step chunks_of_Nil)
    next
      case False
      have "(length xs + n - 1) div n = Suc ((length xs - n + n - 1) div n)"
        using False 1(2) by (intro ceil_div_step) auto
      with ih 1(2) ne show ?thesis by (simp add: chunks_of_step)
    qed
  qed
qed

subsection \<open>The file-system tree\<close>

lemma is_dir_Nil [simp]: "is_dir (Dir wr es) []" "\<not> is_dir (File d) q"
  by (cases q; simp add: is_dir_def)+

lemma is_dir_Cons:
  "is_dir (Dir wr es) (c # cs) \<longleftrightarrow> (\<exists>n. map_of es c = Some n \<and> is_dir n cs)"
  by (auto simp: is_dir_def split: option.splits)

lemma makedirs_is_dir: "makedirs p t = Inr t' \<Longrightarrow> prefix q p \<Longrightarrow> is_dir t' q"
proof (induction p t arbitrary: t' q rule: makedirs.induct)
  case (4 c cs wr es)
  show ?case
  proof (cases q)
    case Nil
    with 4(3) show ?thesis by (auto split: option.splits sum.splits if_splits)
  next
    case (Cons c' q')
    with 4(4) have c': "c' = c" and pre: "prefix q' cs" by auto
    show ?thesis
    proof (cases "map_of es c")
      case None
      with 4(3) obtain n' where n': "makedirs cs (Dir True []) = Inr n'"
        and t': "t' = Dir wr (AList.update c n' es)" and wr: wr
        by (auto split: sum.splits if_splits)
      from 4(1) [OF None _ n' pre] wr have "is_dir n' q'" by simp
      then show ?thesis by (simp add: Cons c' t' is_dir_Cons update_conv')
    next
      case (Some n)
      with 4(3) obtain n' where n': "makedirs cs n = Inr n'"
        and t': "t' = Dir wr (AList.update c n' es)"
        by (auto split: sum.splits)
      from 4(2) [OF Some n' pre] have "is_dir n' q'" .
      then show ?thesis by (simp add: Cons c' t' is_dir_Cons update_conv')
    qed
  qed
qed (auto)

lemma makedirs_idem: "is_dir t p \<Longrightarrow> makedirs p t = Inr t"
proof (induction p t rule: makedirs.induct)
  case (4 c cs wr es)
  then obtain n where n: "map_of es c = Some n" and d: "is_dir n cs"
    by (auto simp: is_dir_Cons)
  from 4(2) [OF n d] have "makedirs cs n = Inr n" .
  with n show ?case by (simp add: update_triv)
qed (auto)

lemma makedirs_keeps_file:
  "makedirs p t = Inr t' \<Longrightarrow> lookup t q = Some (File d) \<Longrightarrow> lookup t' q = Some (File d)"
proof (induction p t arbitrary: t' q rule: makedirs.induct)
  case (4 c cs wr es)
  from 4(4) obtain c' q' where q: "q = c' # q'" by (cases q) auto
  show ?case
  proof (cases "map_of es c")
    case None
    with 4(3) obtain n' where t': "t' = Dir wr (AList.update c n' es)"
      by (auto split: sum.splits if_splits)
    from 4(4) None have "c' \<noteq> c" by (auto simp: q split: option.splits)
    with 4(4) show ?thesis by (simp add: q t' update_conv')
  next
    case (Some n)
    with 4(3) obtain n' where n': "makedirs cs n = Inr n'"
      and t': "t' = Dir wr (AList.update c n' es)"
      by (auto split: sum.splits)
    show ?thesis
    proof (cases "c' = c")
      case True
      with 4(4) Some have "lookup n q' = Some (File d)" by (simp add: q)
      from 4(2) [OF Some n' this] show ?thesis by (simp add: q t' True update_conv')
    next
      case False
      with 4(4) show ?thesis by (simp add: q t' update_conv')
    qed
  qed
qed (auto)

lemma makedirs_keeps_dir:
  "makedirs p t = Inr t' \<Longrightarrow> is_dir t q \<Longrightarrow> is_dir t' q"
proof (induction p t arbitrary: t' q rule: makedirs.induct)
  case (4 c cs wr es)
  show ?case
  proof (cases q)
    case Nil
    with 4(3) show ?thesis by (auto split: option.splits sum.splits if_splits)
  next
    case (Cons c' q')
    from 4(4) obtain m where m: "map_of es c' = Some m" and md: "is_dir m q'"
      by (auto simp: Cons is_dir_Cons)
    show ?thesis
    proof (cases "map_of es c")
      case None
      with 4(3) obtain n' where t': "t' = Dir wr (AList.update c n' es)"
        by (auto split: sum.splits if_splits)
      from m None have "c' \<noteq> c" by auto
      with m md show ?thesis by (simp add: Cons t' is_dir_Cons update_conv')
    next
      case (Some n)
      with 4(3) obtain n' where n': "makedirs cs n = Inr n'"
        and t': "t' = Dir wr (AList.update c n' es)"
        by (auto split: sum.splits)
      show ?thesis
      proof (cases "c' = c")
        case True
        with m Some md have "is_dir n q'" by simp
        from 4(2) [OF Some n' this] show ?thesis
          by (simp add: Cons t' True is_dir_Cons update_conv')
      next
        case False
        with m md show ?thesis by (simp add: Cons t' is_dir_Cons update_conv')
      qed
    qed
  qed
qed (auto)

lemma write_node_lookup: "write_node p d t = Inr t' \<Longrightarrow> lookup t' p = Some (File d)"
proof (induction p d t arbitrary: t' rule: write_node.induct)
  case (3 c d wr es)
  then show ?case
    by (auto simp: update_conv' split: option.splits node.splits if_splits)
next
  case (4 c c' cs d wr es)
  then show ?case
    by (auto simp: update_conv' split: option.splits sum.splits)
qed (auto)

lemma write_node_frame:
  "write_node p d t = Inr t' \<Longrightarrow> \<not> prefix q p \<Longrightarrow> lookup t' q = lookup t q"
proof (induction p d t arbitrary: t' q rule: write_node.induct)
  case (3 c d wr es)
  from 3(2) obtain c' q' where q: "q = c' # q'" by (cases q) auto
  from 3(1) have t': "t' = Dir wr (AList.update c (File d) es)"
    and nd: "\<forall>wr' es'. map_of es c \<noteq> Some (Dir wr' es')"
    by (auto split: option.splits node.splits if_splits)
  show ?case
  proof (cases "c' = c")
    case True
    with 3(2) q obtain c'' q'' where "q' = c'' # q''" by (cases q') auto
    with nd True show ?thesis
      by (cases "map_of es c"; cases "the (map_of es c)") (auto simp: q t' update_conv')
  next
    case False
    then show ?thesis by (simp add: q t' update_conv')
  qed
next
  case (4 c c' cs d wr es)
  from 4(3) obtain k q' where q: "q = k # q'" by (cases q) auto
  from 4(2) obtain n n' where n: "map_of es c = Some n"
    and n': "write_node (c' # cs) d n = Inr n'"
    and t': "t' = Dir wr (AList.update c n' es)"
    by (auto split: option.splits sum.splits)
  show ?case
  proof (cases "k = c")
    case True
    with 4(3) q have "\<not> prefix q' (c' # cs)" by simp
    from 4(1) [OF n n' this] show ?thesis by (simp add: q t' True update_conv' n)
  next
    case False
    then show ?thesis by (simp add: q t' update_conv')
  qed
qed (auto)

lemma write_node_keeps_dir:
  "write_node p d t = Inr t' \<Longrightarrow> is_dir t q \<Longrightarrow> is_dir t' q"
proof (induction p d t arbitrary: t' q rule: write_node.induct)
  case (3 c d wr es)
  from 3(1) have t': "t' = Dir wr (AList.update c (File d) es)"
    and nd: "\<forall>wr' es'. map_of es c \<noteq> Some (Dir wr' es')"
    by (auto split: option.splits node.splits if_splits)
  show ?case
  proof (cases q)
    case Nil
    then show ?thesis by (simp add: t')
  next
    case (Cons k q')
    from 3(2) obtain m where m: "map_of es k = Some m" and md: "is_dir m q'"
      by (auto simp: Cons is_dir_Cons)
    have "k \<noteq> c"
    proof
      assume "k = c"
      with m nd obtain d' where "m = File d'" by (cases m) auto
      with md show False by simp
    qed
    with m md show ?thesis by (simp add: Cons t' is_dir_Cons update_conv')
  qed
next
  case (4 c c' cs d wr es)
  from 4(2) obtain n n' where n: "map_of es c = Some n"
    and n': "write_node (c' # cs) d n = Inr n'"
    and t': "t' = Dir wr (AList.update c n' es)"
    by (auto split: option.splits sum.splits)
  show ?case
  proof (cases q)
    case Nil
    then show ?thesis by (simp add: t')
  next
    case (Cons k q')
    from 4(3) obtain m where m: "map_of es k = Some m" and md: "is_dir m q'"
      by (auto simp: Cons is_dir_Cons)
    show ?thesis
    proof (cases "k = c")
      case True
      with m n md have "is_dir n q'" by simp
      from 4(1) [OF n n' this] show ?thesis
        by (simp add: Cons t' True is_dir_Cons update_conv')
    next
      case False
      with m md show ?thesis by (simp add: Cons t' is_dir_Cons update_conv')
    qed
  qed
qed (auto)

subsection \<open>Part names\<close>

lemma digit_cases: "d < 10 \<Longrightarrow> d \<in> {0, 1, 2, 3, 4, 5, 6, 7, 8, 9::nat}"
  by auto

lemma digit_val_digit_char: "d < 10 \<Longrightarrow> digit_val (digit_char d) = d"
  using digit_cases [of d] by (auto simp: digit_val_def digit_char_def)

lemma digit_char_is_digit: "d < 10 \<Longrightarrow> digit_char d \<in> set ''0123456789''"
  using digit_cases [of d] by (auto simp: digit_char_def)

lemma decimal_val_snoc: "decimal_val (s @ [c]) = 10 * decimal_val s + digit_val c"
  by (simp add: decimal_val_def)

lemma decimal_val_str_nat: "decimal_val (str_nat n) = n"
proof (induction n rule: str_nat.induct)
  case (1 n)
  show ?case
  proof (cases "n < 10")
    case True
    then show ?thesis
      by (subst str_nat.simps) (simp add: decimal_val_def digit_val_digit_char)
  next
    case False
    with 1 have "decimal_val (str_nat (n div 10)) = n div 10" by simp
    with False show ?thesis
      by (subst str_nat.simps) (simp add: decimal_val_snoc digit_val_digit_char)
  qed
qed

lemma foldl_zeros:
  "foldl (\<lambda>a c. 10 * a + digit_val c) 0 (replicate k CHR ''0'') = 0"
  by (induction k) (auto simp: digit_val_def)

lemma decimal_val_fmt05d: "decimal_val (fmt05d n) = n"
  using decimal_val_str_nat [of n]
  by (simp add: fmt05d_def decimal_val_def foldl_zeros)

lemma str_nat_digits: "set (str_nat n) \<subseteq> set ''0123456789''"
proof (induction n rule: str_nat.induct)
  case (1 n)
  show ?case
  proof (cases "n < 10")
    case True
    then show ?thesis
      using digit_char_is_digit [of n] by (subst str_nat.simps) simp
  next
    case False
    with 1 have "set (str_nat (n div 10)) \<subseteq> set ''0123456789''" by simp
    moreover have "digit_char (n mod 10) \<in> set ''0123456789''"
      by (rule digit_char_is_digit) simp
    ultimately show ?thesis using False
      by (subst str_nat.simps) simp
  qed
qed

lemma fmt05d_digits: "set (fmt05d n) \<subseteq> set ''0123456789''"
  using str_nat_digits [of n] by (auto simp: fmt05d_def)

lemma length_str_nat: "0 < k \<Longrightarrow> n < 10 ^ k \<Longrightarrow> length (str_nat n) \<le> k"
proof (induction n arbitrary: k rule: str_nat.induct)
  case (1 n)
  show ?case
  proof (cases "n < 10")
    case True
    then show ?thesis using 1(2) by (subst str_nat.simps) simp
  next
    case False
    with 1(3) obtain j where k: "k = Suc j" and j: "0 < j"
      by (cases k; cases "k - 1") auto
    from 1(3) k have "n div 10 < 10 ^ j"
      by (simp add: less_mult_imp_div_less mult.commute)
    from 1(1) [OF False j this] False k show ?thesis
      by (subst str_nat.simps) simp
  qed
qed

lemma length_str_nat_pos: "0 < length (str_nat n)"
  by (subst str_nat.simps) simp

lemma length_fmt05d:
  assumes "n < 100000"
  shows "length (fmt05d n) = 5"
proof -
  have "(10::nat) ^ 5 = 100000" by simp
  with assms have "n < 10 ^ 5" by (simp only:)
  then have "length (str_nat n) \<le> 5" by (intro length_str_nat) simp
  then show ?thesis by (simp only: fmt05d_def length_append length_replicate)
qed

lemma fmt05d_inj: "fmt05d a = fmt05d b \<Longrightarrow> a = b"
  by (metis decimal_val_fmt05d)

lemma part_name_inj: "part_name a = part_name b \<Longrightarrow> a = b"
  by (simp add: part_name_def fmt05d_inj)

lemma part_name_normal: "normal [part_name k]"
  by (simp add: normal_def part_name_def)

subsection \<open>The record of calls\<close>

lemma written_append [simp]: "written (xs @ ys) = written xs @ written ys"
  by (induction xs rule: written.induct) auto

lemma removed_append [simp]: "removed (xs @ ys) = removed xs @ removed ys"
  by (induction xs rule: removed.induct) auto

lemma reads_append [simp]: "reads (xs @ ys) = reads xs @ reads ys"
  by (simp add: reads_def)

lemma new_calls_append: "calls w' = calls w @ cs \<Longrightarrow> new_calls w w' = cs"
  by (simp add: new_calls_def)

lemma to_parquet_result:
  "to_parquet df p w = (r, w') \<Longrightarrow>
     calls w' = calls w @ [ToParquet p df] \<and> stdout w' = stdout w \<and>
     (case r of
        Inl e \<Rightarrow> fs w' = fs w \<and> write_node (normpath p) (Parquet df) (fs w) = Inl e
      | Inr u \<Rightarrow> write_node (normpath p) (Parquet df) (fs w) = Inr (fs w'))"
  by (auto simp: to_parquet_def log_call_def Let_def split: sum.splits)

lemma write_parts_calls:
  "write_parts d k cs w = (r, w') \<Longrightarrow>
     \<exists>m \<le> length cs.
       calls w' = calls w @ map (\<lambda>i. ToParquet (join d [part_name (k + i)]) (cs ! i)) [0..<m] \<and>
       stdout w' = stdout w \<and>
       (\<forall>n. r = Inr n \<longrightarrow> m = length cs \<and> n = k + length cs)"
proof (induction cs arbitrary: k w)
  case Nil
  then show ?case by auto
next
  case (Cons c cs)
  obtain r1 w1 where s: "to_parquet c (join d [part_name k]) w = (r1, w1)"
    by (cases "to_parquet c (join d [part_name k]) w") auto
  note tp = to_parquet_result [OF s]
  show ?case
  proof (cases r1)
    case (Inl e)
    with Cons.prems s have "r = Inl e" "w' = w1"
      by (auto simp: write_df_to_parquet_def Let_def)
    with tp show ?thesis
      by (intro exI [of _ 1]) auto
  next
    case (Inr u)
    with Cons.prems s have "write_parts d (Suc k) cs w1 = (r, w')"
      by (auto simp: write_df_to_parquet_def Let_def)
    from Cons.IH [OF this] obtain m where m: "m \<le> length cs"
      "calls w' = calls w1 @ map (\<lambda>i. ToParquet (join d [part_name (Suc k + i)]) (cs ! i)) [0..<m]"
      "stdout w' = stdout w1"
      "\<forall>n. r = Inr n \<longrightarrow> m = length cs \<and> n = Suc k + length cs"
      by blast
    have "map (\<lambda>i. ToParquet (join d [part_name (k + i)]) ((c # cs) ! i)) [0..<Suc m] =
          ToParquet (join d [part_name k]) c
          # map (\<lambda>i. ToParquet (join d [part_name (Suc k + i)]) (cs ! i)) [0..<m]"
      by (simp add: upt_rec [of 0] map_Suc_upt [symmetric] del: upt_Suc)
    with m tp show ?thesis
      by (intro exI [of _ "Suc m"]) (auto simp del: upt_Suc)
  qed
qed

subsection \<open>Converting a CSV file\<close>

lemma then_do_Inr: "m w = (Inr x, w1) \<Longrightarrow> then_do m f w = f x w1"
  by (simp add: then_do_def)

lemma then_do_Inl: "m w = (Inl e, w1) \<Longrightarrow> then_do m f w = (Inl e, w1)"
  by (simp add: then_do_def)

lemma os_path_getsize_file:
  "lookup (fs w) (normpath p) = Some (File (Source sz tbl)) \<Longrightarrow>
     os_path_getsize p w = (Inr sz, log_call (Getsize p) w)"
  by (simp add: os_path_getsize_def log_call_def Let_def)

lemma fs_log_call [simp]: "fs (log_call c w) = fs w"
  and calls_log_call [simp]: "calls (log_call c w) = calls w @ [c]"
  and stdout_log_call [simp]: "stdout (log_call c w) = stdout w"
  by (simp_all add: log_call_def)

lemma read_table_file:
  "lookup t (normpath p) = Some (File (Source sz tbl)) \<Longrightarrow>
     read_table p t = (case tbl of Inl m \<Rightarrow> Inl (ParserError m) | Inr rows \<Rightarrow> Inr rows)"
  by (simp add: read_table_def split: sum.splits)

lemma os_makedirs_result:
  "os_makedirs p w = (r, w') \<Longrightarrow>
     calls w' = calls w @ [Makedirs p] \<and> stdout w' = stdout w \<and>
     (case r of
        Inl e \<Rightarrow> fs w' = fs w \<and> makedirs (normpath p) (fs w) = Inl e
      | Inr u \<Rightarrow> makedirs (normpath p) (fs w) = Inr (fs w'))"
  by (auto simp: os_makedirs_def log_call_def Let_def split: sum.splits)

text \<open>The whole-file path of \<open>process_csv\<close>.\<close>

lemma process_csv_whole:
  assumes "lookup (fs w) (normpath path) = Some (File (Source sz (Inr rows)))"
    and "sz \<le> 50 * 1024 * 1024"
    and "process_csv path out_dir name n w = (r, w')"
  shows "calls w' = calls w @ [Getsize path, ReadCsv path None,
                               ToParquet (join out_dir [name @ ''.parquet'']) rows]"
    and "stdout w' = stdout w"
    and "\<And>outs. r = Inr outs \<Longrightarrow> outs = [join out_dir [name @ ''.parquet'']] \<and>
           write_node (normpath (join out_dir [name @ ''.parquet''])) (Parquet rows) (fs w)
             = Inr (fs w')"
proof -
  let ?w1 = "log_call (Getsize path) w"
  let ?w2 = "log_call (ReadCsv path None) ?w1"
  let ?out = "join out_dir [name @ ''.parquet'']"
  have rd: "pd_read_csv path ?w1 = (Inr rows, ?w2)"
    using assms(1) by (simp add: pd_read_csv_def Let_def read_table_file)
  obtain r3 w3 where tp: "to_parquet rows ?out ?w2 = (r3, w3)"
    by (cases "to_parquet rows ?out ?w2") auto
  have pc: "process_csv path out_dir name n w =
              then_do (write_df_to_parquet rows ?out) (\<lambda>u. return [?out]) ?w2"
    using assms(1,2) rd
    by (simp add: process_csv_def os_path_getsize_file then_do_Inr Let_def)
  note res = to_parquet_result [OF tp]
  have "r = (case r3 of Inl e \<Rightarrow> Inl e | Inr u \<Rightarrow> Inr [?out]) \<and> w' = w3"
    using assms(3) pc tp
    by (auto simp: then_do_def write_df_to_parquet_def return_def split: sum.splits)
  then have r: "r = (case r3 of Inl e \<Rightarrow> Inl e | Inr u \<Rightarrow> Inr [?out])" and w': "w' = w3"
    by simp_all
  show "calls w' = calls w @ [Getsize path, ReadCsv path None, ToParquet ?out rows]"
    using res w' by simp
  show "stdout w' = stdout w" using res w' by simp
  show "\<And>outs. r = Inr outs \<Longrightarrow> outs = [?out] \<and>
           write_node (normpath ?out) (Parquet rows) (fs w) = Inr (fs w')"
    using res r w' by (auto split: sum.splits)
qed


lemma os_listdir_result:
  "os_listdir p w = (r, w') \<Longrightarrow>
     calls w' = calls w @ [Listdir p] \<and> stdout w' = stdout w \<and> fs w' = fs w \<and>
     (\<forall>names. r = Inr names \<longrightarrow>
        (\<exists>wr es. lookup (fs w) (normpath p) = Some (Dir wr es) \<and> names = map fst es))"
  by (auto simp: os_listdir_def Let_def log_call_def split: option.splits node.splits)

lemma part_path_normpath: "normpath (join d [part_name k]) = normpath d @ [part_name k]"
  by (simp add: join_def normpath_append_normal part_name_normal)

lemma write_parts_frame:
  "write_parts d k cs w = (r, w') \<Longrightarrow> j < k \<Longrightarrow>
     lookup (fs w') (normpath (join d [part_name j])) =
     lookup (fs w) (normpath (join d [part_name j]))"
proof (induction cs arbitrary: k w)
  case Nil
  then show ?case by simp
next
  case (Cons c cs)
  obtain r1 w1 where s: "to_parquet c (join d [part_name k]) w = (r1, w1)"
    by (cases "to_parquet c (join d [part_name k]) w") auto
  note tp = to_parquet_result [OF s]
  have np: "\<not> prefix (normpath (join d [part_name j])) (normpath (join d [part_name k]))"
    using Cons.prems(2) part_name_inj [of j k] by (auto simp: part_path_normpath)
  have step: "lookup (fs w1) (normpath (join d [part_name j])) =
              lookup (fs w) (normpath (join d [part_name j]))"
    using tp write_node_frame [OF _ np] by (cases r1) auto
  show ?case
  proof (cases r1)
    case (Inl e)
    with Cons.prems s have "w' = w1" by (auto simp: write_df_to_parquet_def Let_def)
    with step show ?thesis by simp
  next
    case (Inr u)
    with Cons.prems s have "write_parts d (Suc k) cs w1 = (r, w')"
      by (auto simp: write_df_to_parquet_def Let_def)
    from Cons.IH [OF this] Cons.prems(2) step show ?thesis by simp
  qed
qed

lemma write_parts_fs:
  "write_parts d k cs w = (Inr n, w') \<Longrightarrow> i < length cs \<Longrightarrow>
     lookup (fs w') (normpath (join d [part_name (k + i)])) = Some (File (Parquet (cs ! i)))"
proof (induction cs arbitrary: k w i)
  case Nil
  then show ?case by simp
next
  case (Cons c cs)
  obtain r1 w1 where s: "to_parquet c (join d [part_name k]) w = (r1, w1)"
    by (cases "to_parquet c (join d [part_name k]) w") auto
  note tp = to_parquet_result [OF s]
  from Cons.prems(1) s obtain u where r1: "r1 = Inr u"
    and rest: "write_parts d (Suc k) cs w1 = (Inr n, w')"
    by (cases r1) (auto simp: write_df_to_parquet_def Let_def)
  show ?case
  proof (cases i)
    case 0
    from tp r1 have "lookup (fs w1) (normpath (join d [part_name k])) = Some (File (Parquet c))"
      by (auto intro: write_node_lookup)
    with write_parts_frame [OF rest, of k] 0 show ?thesis by simp
  next
    case (Suc i')
    with Cons.prems(2) have "i' < length cs" by simp
    from Cons.IH [OF rest this] Suc show ?thesis by simp
  qed
qed

text \<open>The chunked path of \<open>process_csv\<close>.\<close>

lemma process_csv_chunked:
  assumes "lookup (fs w) (normpath path) = Some (File (Source sz (Inr rows)))"
    and "50 * 1024 * 1024 < sz"
    and "0 < n"
    and "process_csv path out_dir name n w = (r, w')"
  shows "(\<exists>e. r = Inl e \<and> makedirs (normpath (join out_dir [name])) (fs w) = Inl e \<and>
              calls w' = calls w @ [Getsize path, Makedirs (join out_dir [name])] \<and>
              fs w' = fs w \<and> stdout w' = stdout w)
       \<or> (\<exists>w2 rp w3.
              makedirs (normpath (join out_dir [name])) (fs w) = Inr (fs w2) \<and>
              calls w2 = calls w @ [Getsize path, Makedirs (join out_dir [name]),
                                    ReadCsv path (Some n)] \<and>
              stdout w2 = stdout w \<and>
              write_parts (join out_dir [name]) 0 (csv_frames n rows) w2 = (rp, w3) \<and>
              (case rp of
                 Inl e \<Rightarrow> r = Inl e \<and> w' = w3
               | Inr k \<Rightarrow>
                   (\<exists>rl. os_listdir (join out_dir [name]) w3 = (rl, w') \<and>
                      (case rl of
                         Inl e \<Rightarrow> r = Inl e
                       | Inr names \<Rightarrow>
                           r = Inr (map (\<lambda>f. join (join out_dir [name]) [f]) (sort names))))))"
proof -
  let ?d = "join out_dir [name]"
  let ?w1 = "log_call (Getsize path) w"
  have pc: "process_csv path out_dir name n w =
      then_do (ensure_dir ?d) (\<lambda>u.
        then_do (pd_read_csv_chunks path n) (\<lambda>chunks.
        then_do (write_parts ?d 0 chunks) (\<lambda>part.
        then_do (os_listdir ?d) (\<lambda>names.
          return (map (\<lambda>f. join ?d [f]) (sort names)))))) ?w1"
    using assms(1,2) by (simp add: process_csv_def os_path_getsize_file then_do_Inr Let_def)
  obtain rm wm where mk: "os_makedirs ?d ?w1 = (rm, wm)"
    by (cases "os_makedirs ?d ?w1") auto
  note mr = os_makedirs_result [OF mk]
  show ?thesis
  proof (cases rm)
    case (Inl e)
    with pc mk assms(4) have "r = Inl e" "w' = wm"
      by (auto simp: ensure_dir_def then_do_def)
    with mr Inl show ?thesis by auto
  next
    case (Inr u)
    with mr have mkd: "makedirs (normpath ?d) (fs w) = Inr (fs wm)" by simp
    let ?w2 = "log_call (ReadCsv path (Some n)) wm"
    have "lookup (fs wm) (normpath path) = Some (File (Source sz (Inr rows)))"
      using makedirs_keeps_file [OF mkd assms(1)] .
    then have rd: "pd_read_csv_chunks path n wm = (Inr (csv_frames n rows), ?w2)"
      using assms(3) by (simp add: pd_read_csv_chunks_def Let_def read_table_file)
    obtain rp w3 where wp: "write_parts ?d 0 (csv_frames n rows) ?w2 = (rp, w3)"
      by (cases "write_parts ?d 0 (csv_frames n rows) ?w2") auto
    have run: "(r, w') =
        then_do (write_parts ?d 0 (csv_frames n rows)) (\<lambda>part.
        then_do (os_listdir ?d) (\<lambda>names.
          return (map (\<lambda>f. join ?d [f]) (sort names)))) ?w2"
      using pc mk Inr rd assms(4) by (simp add: ensure_dir_def then_do_Inr)
    have tail: "case rp of
                 Inl e \<Rightarrow> r = Inl e \<and> w' = w3
               | Inr k \<Rightarrow>
                   (\<exists>rl. os_listdir ?d w3 = (rl, w') \<and>
                      (case rl of
                         Inl e \<Rightarrow> r = Inl e
                       | Inr names \<Rightarrow> r = Inr (map (\<lambda>f. join ?d [f]) (sort names))))"
    proof (cases rp)
      case (Inl e)
      with run wp show ?thesis by (simp add: then_do_def)
    next
      case (Inr k)
      obtain rl wl where ls: "os_listdir ?d w3 = (rl, wl)"
        by (cases "os_listdir ?d w3") auto
      with run wp Inr show ?thesis
        by (cases rl) (auto simp: then_do_def return_def)
    qed
    have "calls ?w2 = calls w @ [Getsize path, Makedirs ?d, ReadCsv path (Some n)]"
      using mr by simp
    moreover have "stdout ?w2 = stdout w" using mr by simp
    moreover have "makedirs (normpath ?d) (fs w) = Inr (fs ?w2)" using mkd by simp
    ultimately show ?thesis using wp tail by blast
  qed
qed

lemma csv_frames_bounded: "0 < n \<Longrightarrow> c \<in> set (csv_frames n rows) \<Longrightarrow> length c \<le> n"
  using chunks_of_bounded [of c n rows] by (auto simp: csv_frames_def split: if_splits)

lemma concat_csv_frames: "0 < n \<Longrightarrow> concat (csv_frames n rows) = rows"
  by (simp add: csv_frames_def concat_chunks_of)

lemma written_ToParquets:
  "written (map (\<lambda>i. ToParquet (g i) (h i)) is) = map (\<lambda>i. (g i, h i)) is"
  by (induction "is") auto

lemma reads_ToParquets: "reads (map (\<lambda>i. ToParquet (g i) (h i)) is) = []"
  by (induction "is") (auto simp: reads_def)

text \<open>What the chunked path has read and written, whatever its result.\<close>

lemma process_csv_chunked_calls:
  assumes "lookup (fs w) (normpath path) = Some (File (Source sz (Inr rows)))"
    and "50 * 1024 * 1024 < sz"
    and "0 < n"
    and "process_csv path out_dir name n w = (r, w')"
  shows "\<exists>m \<le> length (csv_frames n rows).
           written (new_calls w w') =
             map (\<lambda>i. (join (join out_dir [name]) [part_name i], csv_frames n rows ! i)) [0..<m] \<and>
           set (reads (new_calls w w')) \<subseteq> {ReadCsv path (Some n)} \<and>
           take 2 (new_calls w w') = [Getsize path, Makedirs (join out_dir [name])] \<and>
           stdout w' = stdout w \<and>
           (\<forall>outs. r = Inr outs \<longrightarrow>
              m = length (csv_frames n rows) \<and> reads (new_calls w w') = [ReadCsv path (Some n)])"
proof -
  let ?d = "join out_dir [name]"
  let ?fr = "csv_frames n rows"
  from process_csv_chunked [OF assms] show ?thesis
  proof (elim disjE exE conjE)
    fix e
    assume "r = Inl e" "calls w' = calls w @ [Getsize path, Makedirs ?d]" "stdout w' = stdout w"
    then show ?thesis
      by (intro exI [of _ 0]) (simp add: new_calls_def reads_def)
  next
    fix w2 rp w3
    assume c2: "calls w2 = calls w @ [Getsize path, Makedirs ?d, ReadCsv path (Some n)]"
      and o2: "stdout w2 = stdout w"
      and wp: "write_parts ?d 0 ?fr w2 = (rp, w3)"
      and tail: "case rp of
                 Inl e \<Rightarrow> r = Inl e \<and> w' = w3
               | Inr k \<Rightarrow>
                   (\<exists>rl. os_listdir ?d w3 = (rl, w') \<and>
                      (case rl of
                         Inl e \<Rightarrow> r = Inl e
                       | Inr names \<Rightarrow> r = Inr (map (\<lambda>f. join ?d [f]) (sort names))))"
    from write_parts_calls [OF wp] obtain m where m: "m \<le> length ?fr"
      and c3: "calls w3 = calls w2 @ map (\<lambda>i. ToParquet (join ?d [part_name (0 + i)]) (?fr ! i)) [0..<m]"
      and o3: "stdout w3 = stdout w2"
      and ok: "\<forall>k. rp = Inr k \<longrightarrow> m = length ?fr \<and> k = 0 + length ?fr"
      by blast
    have "\<exists>tl. calls w' = calls w3 @ tl \<and> written tl = [] \<and> reads tl = [] \<and> stdout w' = stdout w3
             \<and> (\<forall>outs. r = Inr outs \<longrightarrow> (\<exists>k. rp = Inr k))"
    proof (cases rp)
      case (Inl e)
      with tail show ?thesis by (intro exI [of _ "[]"]) (simp add: reads_def)
    next
      case (Inr k)
      with tail obtain rl where ls: "os_listdir ?d w3 = (rl, w')" by auto
      from os_listdir_result [OF ls] Inr show ?thesis
        by (intro exI [of _ "[Listdir ?d]"]) (simp add: reads_def)
    qed
    then obtain tl where tl: "calls w' = calls w3 @ tl" "written tl = []" "reads tl = []"
      "stdout w' = stdout w3" "\<forall>outs. r = Inr outs \<longrightarrow> (\<exists>k. rp = Inr k)"
      by blast
    have nc: "new_calls w w' = [Getsize path, Makedirs ?d, ReadCsv path (Some n)]
                @ map (\<lambda>i. ToParquet (join ?d [part_name i]) (?fr ! i)) [0..<m] @ tl"
      using c2 c3 tl(1) by (simp add: new_calls_def)
    show ?thesis
      using m ok tl(2-5) o2 o3
      by (intro exI [of _ m]) (auto simp: nc written_ToParquets reads_ToParquets reads_def)
  qed
qed

text \<open>
  C1. A CSV file larger than 50 * 1024 * 1024 bytes is read in chunks of 200000 rows
  (the only pandas call is the chunked \<open>read_csv\<close>) and whatever is written holds at
  most 200000 rows; when the conversion returns, the batches written are, in order,
  the whole table. A CSV file of at most that size is read by one whole-file
  \<open>read_csv\<close> and written once, all its rows to \<open>name.parquet\<close>; when the conversion
  returns, that one file is its result and is on disk.
\<close>

theorem csv_chunking_policy:
  assumes "lookup (fs w) (normpath path) = Some (File (Source sz (Inr rows)))"
    and "process_csv path out_dir name 200000 w = (r, w')"
  shows "(50 * 1024 * 1024 < sz \<longrightarrow>
            set (reads (new_calls w w')) \<subseteq> {ReadCsv path (Some 200000)} \<and>
            (\<forall>(p, df) \<in> set (written (new_calls w w')). length df \<le> 200000) \<and>
            (\<forall>outs. r = Inr outs \<longrightarrow>
               reads (new_calls w w') = [ReadCsv path (Some 200000)] \<and>
               concat (map snd (written (new_calls w w'))) = rows))
       \<and> (sz \<le> 50 * 1024 * 1024 \<longrightarrow>
            reads (new_calls w w') = [ReadCsv path None] \<and>
            written (new_calls w w') = [(join out_dir [name @ ''.parquet''], rows)] \<and>
            (\<forall>outs. r = Inr outs \<longrightarrow>
               outs = [join out_dir [name @ ''.parquet'']] \<and>
               lookup (fs w') (normpath (join out_dir [name @ ''.parquet'']))
                 = Some (File (Parquet rows))))"
proof (intro conjI impI)
  assume big: "50 * 1024 * 1024 < sz"
  let ?fr = "csv_frames 200000 rows"
  from process_csv_chunked_calls [OF assms(1) big _ assms(2)]
  obtain m where m: "m \<le> length ?fr"
    and wr: "written (new_calls w w') =
               map (\<lambda>i. (join (join out_dir [name]) [part_name i], ?fr ! i)) [0..<m]"
    and rd: "set (reads (new_calls w w')) \<subseteq> {ReadCsv path (Some 200000)}"
    and ok: "\<forall>outs. r = Inr outs \<longrightarrow>
               m = length ?fr \<and> reads (new_calls w w') = [ReadCsv path (Some 200000)]"
    by auto
  show "set (reads (new_calls w w')) \<subseteq> {ReadCsv path (Some 200000)}" by (rule rd)
  show "\<forall>(p, df) \<in> set (written (new_calls w w')). length df \<le> 200000"
    using m csv_frames_bounded [of 200000 _ rows] by (auto simp: wr)
  show "\<forall>outs. r = Inr outs \<longrightarrow>
          reads (new_calls w w') = [ReadCsv path (Some 200000)] \<and>
          concat (map snd (written (new_calls w w'))) = rows"
  proof (intro allI impI)
    fix outs assume "r = Inr outs"
    with ok have ml: "m = length ?fr" and r1: "reads (new_calls w w') = [ReadCsv path (Some 200000)]"
      by auto
    have "map snd (written (new_calls w w')) = map (\<lambda>i. ?fr ! i) [0..<length ?fr]"
      by (simp add: wr ml comp_def)
    then have "map snd (written (new_calls w w')) = ?fr" by (simp add: map_nth)
    with r1 show "reads (new_calls w w') = [ReadCsv path (Some 200000)] \<and>
          concat (map snd (written (new_calls w w'))) = rows"
      by (simp add: concat_csv_frames)
  qed
next
  assume small: "sz \<le> 50 * 1024 * 1024"
  note pw = process_csv_whole [OF assms(1) small assms(2)]
  have nc: "new_calls w w' = [Getsize path, ReadCsv path None,
                              ToParquet (join out_dir [name @ ''.parquet'']) rows]"
    using pw(1) by (simp add: new_calls_def)
  show "reads (new_calls w w') = [ReadCsv path None]" by (simp add: nc reads_def)
  show "written (new_calls w w') = [(join out_dir [name @ ''.parquet''], rows)]"
    by (simp add: nc)
  show "\<forall>outs. r = Inr outs \<longrightarrow>
          outs = [join out_dir [name @ ''.parquet'']] \<and>
          lookup (fs w') (normpath (join out_dir [name @ ''.parquet'']))
            = Some (File (Parquet rows))"
    using pw(3) write_node_lookup by blast
qed

subsection \<open>Runs on the sample tree\<close>

lemma part_name_0: "part_name 0 = ''part-00000.parquet''"
  by (simp add: part_name_def fmt05d_def str_nat.simps digit_char_def numeral_eq_Suc)

lemma part_name_1: "part_name (Suc 0) = ''part-00001.parquet''"
  by (simp add: part_name_def fmt05d_def str_nat.simps digit_char_def numeral_eq_Suc)

lemmas run_defs =
  process_csv_def process_excel_def process_dta_def then_do_def return_def raise_def
  os_path_getsize_def os_makedirs_def ensure_dir_def write_df_to_parquet_def to_parquet_def
  pd_read_csv_def pd_read_excel_def pd_read_stata_def pd_read_csv_chunks_def read_table_def
  os_listdir_def os_remove_def log_call_def print_def
  csv_frames_def chunks_of.simps join_def normpath_def norm_step_def
  part_name_0 part_name_1 new_calls_def reads_def Let_def

lemma sample_lookup_x:
  "lookup (fs sample_world) (normpath [''in'', ''x.csv'']) = Some (File (Source 1024 (Inr [1, 2, 3])))"
  by (simp add: sample_world_def sample_tree_def normpath_def norm_step_def)

lemma sample_lookup_big:
  "lookup (fs sample_world) (normpath [''in'', ''big.csv''])
     = Some (File (Source 52428801 (Inr [4, 5, 6])))"
  by (simp add: sample_world_def sample_tree_def normpath_def norm_step_def)

lemma sample_process_x:
  "fst (process_csv [''in'', ''x.csv''] [''in''] ''x'' 200000 sample_world)
     = Inr [[''in'', ''x.parquet'']]"
  by (simp add: run_defs sample_world_def sample_tree_def)

lemma sample_process_big:
  "fst (process_csv [''in'', ''big.csv''] [''in''] ''big'' 200000 sample_world)
     = Inr [[''in'', ''big'', ''part-00000.parquet'']]"
  by (simp add: run_defs sample_world_def sample_tree_def)

theorem csv_chunking_policy_witness:
  "lookup (fs sample_world) (normpath [''in'', ''big.csv''])
     = Some (File (Source 52428801 (Inr [4, 5, 6]))) \<and>
   50 * 1024 * 1024 < (52428801::nat) \<and>
   fst (process_csv [''in'', ''big.csv''] [''in''] ''big'' 200000 sample_world)
     = Inr [[''in'', ''big'', ''part-00000.parquet'']] \<and>
   reads (new_calls sample_world
      (snd (process_csv [''in'', ''big.csv''] [''in''] ''big'' 200000 sample_world)))
     = [ReadCsv [''in'', ''big.csv''] (Some 200000)] \<and>
   concat (map snd (written (new_calls sample_world
      (snd (process_csv [''in'', ''big.csv''] [''in''] ''big'' 200000 sample_world)))))
     = [4, 5, 6] \<and>
   lookup (fs sample_world) (normpath [''in'', ''x.csv''])
     = Some (File (Source 1024 (Inr [1, 2, 3]))) \<and>
   (1024::nat) \<le> 50 * 1024 * 1024 \<and>
   fst (process_csv [''in'', ''x.csv''] [''in''] ''x'' 200000 sample_world)
     = Inr [[''in'', ''x.parquet'']] \<and>
   written (new_calls sample_world
      (snd (process_csv [''in'', ''x.csv''] [''in''] ''x'' 200000 sample_world)))
     = [([''in'', ''x.parquet''], [1, 2, 3])] \<and>
   lookup (fs (snd (process_csv [''in'', ''x.csv''] [''in''] ''x'' 200000 sample_world)))
      (normpath [''in'', ''x.parquet''])
     = Some (File (Parquet [1, 2, 3]))"
proof -
  note big = csv_chunking_policy [OF sample_lookup_big prod.collapse [symmetric],
      of "[''in'']" "''big''"]
  note small = csv_chunking_policy [OF sample_lookup_x prod.collapse [symmetric],
      of "[''in'']" "''x''"]
  have b: "50 * 1024 * 1024 < (52428801::nat)" by simp
  have s: "(1024::nat) \<le> 50 * 1024 * 1024" by simp
  from big b sample_process_big
  have "reads (new_calls sample_world
          (snd (process_csv [''in'', ''big.csv''] [''in''] ''big'' 200000 sample_world)))
         = [ReadCsv [''in'', ''big.csv''] (Some 200000)] \<and>
       concat (map snd (written (new_calls sample_world
          (snd (process_csv [''in'', ''big.csv''] [''in''] ''big'' 200000 sample_world)))))
         = [4, 5, 6]"
    by blast
  moreover from small s sample_process_x
  have "written (new_calls sample_world
          (snd (process_csv [''in'', ''x.csv''] [''in''] ''x'' 200000 sample_world)))
         = [(join [''in''] [''x'' @ ''.parquet''], [1, 2, 3])] \<and>
        lookup (fs (snd (process_csv [''in'', ''x.csv''] [''in''] ''x'' 200000 sample_world)))
          (normpath (join [''in''] [''x'' @ ''.parquet'']))
         = Some (File (Parquet [1, 2, 3]))"
    by blast
  ultimately show ?thesis
    using sample_lookup_big sample_lookup_x sample_process_big sample_process_x b s
    by (simp add: join_def)
qed

subsection \<open>Parts of a chunked conversion\<close>

lemma length_csv_frames:
  "0 < n \<Longrightarrow> length (csv_frames n rows) = max 1 ((length rows + n - 1) div n)"
proof (cases "rows = []")
  case True
  assume "0 < n"
  then show ?thesis using True by (simp add: csv_frames_def)
next
  case False
  assume n: "0 < n"
  have "n \<le> length rows + n - 1" using False by (cases rows) auto
  then have "1 \<le> (length rows + n - 1) div n"
    using n by (metis One_nat_def Suc_leI div_greater_zero_iff)
  then show ?thesis using False n by (simp add: csv_frames_def length_chunks_of max_def)
qed

text \<open>
  C4. The chunked conversion writes its frames to \<open>part-00000.parquet\<close>,
  \<open>part-00001.parquet\<close>, ... inside the part directory: the write number \<open>k\<close>
  (from 0) carries frame number \<open>k\<close> and goes to part number \<open>k\<close>, with no gap; it
  stops early only when a write fails. The number in a part name is the decimal
  numeral of the part, with zeros in front up to five digits.
\<close>

theorem chunk_part_numbering:
  assumes "lookup (fs w) (normpath path) = Some (File (Source sz (Inr rows)))"
    and "50 * 1024 * 1024 < sz"
    and "process_csv path out_dir name 200000 w = (r, w')"
  shows "(\<exists>m \<le> length (csv_frames 200000 rows).
            written (new_calls w w') =
              map (\<lambda>k. (join (join out_dir [name]) [part_name k], csv_frames 200000 rows ! k))
                [0..<m] \<and>
            (\<forall>outs. r = Inr outs \<longrightarrow> m = length (csv_frames 200000 rows)))
       \<and> (\<forall>k. part_name k = ''part-'' @ fmt05d k @ ''.parquet'' \<and>
               decimal_val (fmt05d k) = k \<and>
               set (fmt05d k) \<subseteq> set ''0123456789'' \<and>
               (k < 100000 \<longrightarrow> length (fmt05d k) = 5))"
proof -
  from process_csv_chunked_calls [OF assms(1,2) _ assms(3)]
  have "\<exists>m \<le> length (csv_frames 200000 rows).
            written (new_calls w w') =
              map (\<lambda>k. (join (join out_dir [name]) [part_name k], csv_frames 200000 rows ! k))
                [0..<m] \<and>
            (\<forall>outs. r = Inr outs \<longrightarrow> m = length (csv_frames 200000 rows))"
    by auto
  moreover have "\<forall>k. part_name k = ''part-'' @ fmt05d k @ ''.parquet'' \<and>
               decimal_val (fmt05d k) = k \<and>
               set (fmt05d k) \<subseteq> set ''0123456789'' \<and>
               (k < 100000 \<longrightarrow> length (fmt05d k) = 5)"
    using fmt05d_digits length_fmt05d by (simp add: part_name_def decimal_val_fmt05d)
  ultimately show ?thesis by blast
qed

text \<open>The chunked path when it returns.\<close>

lemma process_csv_chunked_ok:
  assumes "lookup (fs w) (normpath path) = Some (File (Source sz (Inr rows)))"
    and "50 * 1024 * 1024 < sz"
    and "0 < n"
    and "process_csv path out_dir name n w = (r, w')"
    and "r = Inr outs"
  shows "\<exists>w2 k w3 names.
           makedirs (normpath (join out_dir [name])) (fs w) = Inr (fs w2) \<and>
           calls w2 = calls w @ [Getsize path, Makedirs (join out_dir [name]),
                                 ReadCsv path (Some n)] \<and>
           write_parts (join out_dir [name]) 0 (csv_frames n rows) w2 = (Inr k, w3) \<and>
           os_listdir (join out_dir [name]) w3 = (Inr names, w') \<and>
           outs = map (\<lambda>f. join (join out_dir [name]) [f]) (sort names)"
proof -
  let ?d = "join out_dir [name]"
  from process_csv_chunked [OF assms(1-4)] show ?thesis
  proof (elim disjE exE conjE)
    fix e assume "r = Inl e"
    with assms(5) show ?thesis by simp
  next
    fix w2 rp w3
    assume mk: "makedirs (normpath ?d) (fs w) = Inr (fs w2)"
      and c2: "calls w2 = calls w @ [Getsize path, Makedirs ?d, ReadCsv path (Some n)]"
      and wp: "write_parts ?d 0 (csv_frames n rows) w2 = (rp, w3)"
      and tail: "case rp of
                 Inl e \<Rightarrow> r = Inl e \<and> w' = w3
               | Inr k \<Rightarrow>
                   (\<exists>rl. os_listdir ?d w3 = (rl, w') \<and>
                      (case rl of
                         Inl e \<Rightarrow> r = Inl e
                       | Inr names \<Rightarrow> r = Inr (map (\<lambda>f. join ?d [f]) (sort names))))"
    show ?thesis
    proof (cases rp)
      case (Inl e)
      with tail assms(5) show ?thesis by simp
    next
      case (Inr k)
      with tail obtain rl where ls: "os_listdir ?d w3 = (rl, w')"
        and rr: "case rl of
                   Inl e \<Rightarrow> r = Inl e
                 | Inr names \<Rightarrow> r = Inr (map (\<lambda>f. join ?d [f]) (sort names))"
        by auto
      show ?thesis
      proof (cases rl)
        case (Inl e)
        with rr assms(5) show ?thesis by simp
      next
        case names: (Inr names)
        with rr assms(5) have "outs = map (\<lambda>f. join ?d [f]) (sort names)" by simp
        moreover have "write_parts ?d 0 (csv_frames n rows) w2 = (Inr k, w3)"
          using wp Inr by simp
        moreover have "os_listdir ?d w3 = (Inr names, w')" using ls names by simp
        ultimately show ?thesis using mk c2 by blast
      qed
    qed
  qed
qed

text \<open>The parts on disk after a chunked conversion that returned.\<close>

lemma process_csv_chunked_disk:
  assumes "lookup (fs w) (normpath path) = Some (File (Source sz (Inr rows)))"
    and "50 * 1024 * 1024 < sz"
    and "0 < n"
    and "process_csv path out_dir name n w = (Inr outs, w')"
    and "k < length (csv_frames n rows)"
  shows "parquet_rows (fs w') (join (join out_dir [name]) [part_name k])
           = Some (csv_frames n rows ! k)"
proof -
  let ?d = "join out_dir [name]"
  from process_csv_chunked_ok [OF assms(1-4) refl]
  obtain w2 j w3 names where wp: "write_parts ?d 0 (csv_frames n rows) w2 = (Inr j, w3)"
    and ls: "os_listdir ?d w3 = (Inr names, w')"
    by blast
  from os_listdir_result [OF ls] have "fs w' = fs w3" by simp
  moreover from write_parts_fs [OF wp assms(5)]
  have "lookup (fs w3) (normpath (join ?d [part_name k]))
          = Some (File (Parquet (csv_frames n rows ! k)))"
    by simp
  ultimately show ?thesis by (simp add: parquet_rows_def)
qed

text \<open>
  C2, as the code has it. A CSV file of at most 50 MiB is written as one file holding
  all its rows. A larger one with \<open>R\<close> rows is written as \<open>ceil(R / 200000)\<close> parts
  when \<open>R \<ge> 1\<close> and as one part without rows when \<open>R = 0\<close>; the parts are written
  to the part names 0, 1, ... in order, and the rows read back from these part files,
  in the order of their numbers, are the rows of the source in their order.
\<close>

theorem csv_parts_roundtrip:
  assumes "lookup (fs w) (normpath path) = Some (File (Source sz (Inr rows)))"
    and "process_csv path out_dir name 200000 w = (Inr outs, w')"
  shows "(sz \<le> 50 * 1024 * 1024 \<longrightarrow>
            outs = [join out_dir [name @ ''.parquet'']] \<and>
            written (new_calls w w') = [(join out_dir [name @ ''.parquet''], rows)] \<and>
            parquet_rows (fs w') (join out_dir [name @ ''.parquet'']) = Some rows)
       \<and> (50 * 1024 * 1024 < sz \<longrightarrow>
            length (written (new_calls w w')) = max 1 ((length rows + 200000 - 1) div 200000) \<and>
            map fst (written (new_calls w w')) =
              map (\<lambda>k. join (join out_dir [name]) [part_name k])
                [0..<max 1 ((length rows + 200000 - 1) div 200000)] \<and>
            concat (map snd (written (new_calls w w'))) = rows \<and>
            concat (map (\<lambda>k. the (parquet_rows (fs w') (join (join out_dir [name]) [part_name k])))
                      [0..<max 1 ((length rows + 200000 - 1) div 200000)]) = rows)"
proof (intro conjI impI)
  assume small: "sz \<le> 50 * 1024 * 1024"
  note pw = process_csv_whole [OF assms(1) small assms(2)]
  show "outs = [join out_dir [name @ ''.parquet'']]" using pw(3) by simp
  show "written (new_calls w w') = [(join out_dir [name @ ''.parquet''], rows)]"
    using pw(1) by (simp add: new_calls_def)
  have "lookup (fs w') (normpath (join out_dir [name @ ''.parquet'']))
          = Some (File (Parquet rows))"
    using pw(3) write_node_lookup by blast
  then show "parquet_rows (fs w') (join out_dir [name @ ''.parquet'']) = Some rows"
    by (simp add: parquet_rows_def)
next
  assume big: "50 * 1024 * 1024 < sz"
  let ?fr = "csv_frames 200000 rows"
  let ?N = "max 1 ((length rows + 200000 - 1) div 200000)"
  let ?p = "\<lambda>k. join (join out_dir [name]) [part_name k]"
  have N: "length ?fr = ?N" by (rule length_csv_frames) simp
  from process_csv_chunked_calls [OF assms(1) big _ assms(2)]
  have wr: "written (new_calls w w') = map (\<lambda>k. (?p k, ?fr ! k)) [0..<length ?fr]"
    by auto
  show "length (written (new_calls w w')) = ?N" using N by (simp add: wr)
  show "map fst (written (new_calls w w')) = map ?p [0..<?N]"
    using N by (simp add: wr comp_def)
  have "map snd (written (new_calls w w')) = map (\<lambda>k. ?fr ! k) [0..<length ?fr]"
    by (simp add: wr comp_def)
  then have "map snd (written (new_calls w w')) = ?fr" by (simp add: map_nth)
  then show "concat (map snd (written (new_calls w w'))) = rows"
    by (simp add: concat_csv_frames)
  have "map (\<lambda>k. the (parquet_rows (fs w') (?p k))) [0..<length ?fr]
          = map (\<lambda>k. ?fr ! k) [0..<length ?fr]"
    using process_csv_chunked_disk [OF assms(1) big _ assms(2)] by (intro map_cong) auto
  then have "map (\<lambda>k. the (parquet_rows (fs w') (?p k))) [0..<length ?fr] = ?fr"
    by (simp add: map_nth)
  then show "concat (map (\<lambda>k. the (parquet_rows (fs w') (?p k))) [0..<?N]) = rows"
    using N by (simp add: concat_csv_frames)
qed

lemma sample_frames_big: "csv_frames 200000 [4, 5, 6::nat] = [[4, 5, 6]]"
  by (simp add: csv_frames_def chunks_of.simps)

lemma sample_written_big:
  "written (new_calls sample_world
      (snd (process_csv [''in'', ''big.csv''] [''in''] ''big'' 200000 sample_world)))
     = [([''in'', ''big'', ''part-00000.parquet''], [4, 5, 6])]"
  by (simp add: run_defs sample_world_def sample_tree_def)

theorem chunk_part_numbering_witness:
  "lookup (fs sample_world) (normpath [''in'', ''big.csv''])
     = Some (File (Source 52428801 (Inr [4, 5, 6]))) \<and>
   50 * 1024 * 1024 < (52428801::nat) \<and>
   fst (process_csv [''in'', ''big.csv''] [''in''] ''big'' 200000 sample_world)
     = Inr [[''in'', ''big'', ''part-00000.parquet'']] \<and>
   (\<exists>m \<le> length (csv_frames 200000 [4, 5, 6::nat]).
      written (new_calls sample_world
        (snd (process_csv [''in'', ''big.csv''] [''in''] ''big'' 200000 sample_world))) =
        map (\<lambda>k. (join (join [''in''] [''big'']) [part_name k],
                   csv_frames 200000 [4, 5, 6] ! k)) [0..<m] \<and>
      m = length (csv_frames 200000 [4, 5, 6::nat])) \<and>
   (0::nat) < 100000 \<and>
   part_name 0 = ''part-'' @ fmt05d 0 @ ''.parquet'' \<and>
   decimal_val (fmt05d 0) = 0 \<and>
   length (fmt05d 0) = 5"
proof -
  have b: "50 * 1024 * 1024 < (52428801::nat)" by simp
  note inst = chunk_part_numbering [OF sample_lookup_big b prod.collapse [symmetric],
      of "[''in'']" "''big''"]
  from inst sample_process_big
  have "\<exists>m \<le> length (csv_frames 200000 [4, 5, 6::nat]).
      written (new_calls sample_world
        (snd (process_csv [''in'', ''big.csv''] [''in''] ''big'' 200000 sample_world))) =
        map (\<lambda>k. (join (join [''in''] [''big'']) [part_name k],
                   csv_frames 200000 [4, 5, 6] ! k)) [0..<m] \<and>
      m = length (csv_frames 200000 [4, 5, 6::nat])"
    by blast
  moreover from inst have "part_name 0 = ''part-'' @ fmt05d 0 @ ''.parquet'' \<and>
      decimal_val (fmt05d 0) = 0 \<and> length (fmt05d 0) = 5"
    by simp
  ultimately show ?thesis
    using sample_lookup_big sample_process_big b by simp
qed

lemma header_only_lookup:
  "lookup (fs header_only_world) (normpath [''in'', ''h.csv''])
     = Some (File (Source 52428801 (Inr [])))"
  by (simp add: header_only_world_def header_only_tree_def normpath_def norm_step_def)

lemma header_only_process:
  "fst (process_csv [''in'', ''h.csv''] [''out''] ''h'' 200000 header_only_world)
     = Inr [[''out'', ''h'', ''part-00000.parquet'']]"
  by (simp add: run_defs header_only_world_def header_only_tree_def)

lemma header_only_written:
  "written (new_calls header_only_world
      (snd (process_csv [''in'', ''h.csv''] [''out''] ''h'' 200000 header_only_world)))
     = [([''out'', ''h'', ''part-00000.parquet''], [])]"
  by (simp add: run_defs header_only_world_def header_only_tree_def)

text \<open>
  C2 as stated fails for a CSV file above the threshold that has no data rows: one
  part is written, and \<open>ceil(0 / 200000) = 0\<close>.
\<close>

theorem header_only_csv_counterexample:
  "lookup (fs header_only_world) (normpath [''in'', ''h.csv''])
     = Some (File (Source 52428801 (Inr []))) \<and>
   50 * 1024 * 1024 < (52428801::nat) \<and>
   fst (process_csv [''in'', ''h.csv''] [''out''] ''h'' 200000 header_only_world)
     = Inr [[''out'', ''h'', ''part-00000.parquet'']] \<and>
   length (written (new_calls header_only_world
      (snd (process_csv [''in'', ''h.csv''] [''out''] ''h'' 200000 header_only_world))))
     \<noteq> (length ([]::nat list) + 200000 - 1) div 200000"
  using header_only_lookup header_only_process header_only_written by simp

theorem csv_parts_roundtrip_witness:
  "lookup (fs sample_world) (normpath [''in'', ''x.csv''])
     = Some (File (Source 1024 (Inr [1, 2, 3]))) \<and>
   (1024::nat) \<le> 50 * 1024 * 1024 \<and>
   process_csv [''in'', ''x.csv''] [''in''] ''x'' 200000 sample_world
     = (Inr [[''in'', ''x.parquet'']],
        snd (process_csv [''in'', ''x.csv''] [''in''] ''x'' 200000 sample_world)) \<and>
   parquet_rows
     (fs (snd (process_csv [''in'', ''x.csv''] [''in''] ''x'' 200000 sample_world)))
     [''in'', ''x.parquet''] = Some [1, 2, 3] \<and>
   lookup (fs sample_world) (normpath [''in'', ''big.csv''])
     = Some (File (Source 52428801 (Inr [4, 5, 6]))) \<and>
   50 * 1024 * 1024 < (52428801::nat) \<and>
   process_csv [''in'', ''big.csv''] [''in''] ''big'' 200000 sample_world
     = (Inr [[''in'', ''big'', ''part-00000.parquet'']],
        snd (process_csv [''in'', ''big.csv''] [''in''] ''big'' 200000 sample_world)) \<and>
   length (written (new_calls sample_world
     (snd (process_csv [''in'', ''big.csv''] [''in''] ''big'' 200000 sample_world)))) = 1 \<and>
   the (parquet_rows
     (fs (snd (process_csv [''in'', ''big.csv''] [''in''] ''big'' 200000 sample_world)))
     [''in'', ''big'', ''part-00000.parquet'']) = [4, 5, 6]"
proof -
  have b: "50 * 1024 * 1024 < (52428801::nat)" by simp
  have s: "(1024::nat) \<le> 50 * 1024 * 1024" by simp
  have px: "process_csv [''in'', ''x.csv''] [''in''] ''x'' 200000 sample_world
     = (Inr [[''in'', ''x.parquet'']],
        snd (process_csv [''in'', ''x.csv''] [''in''] ''x'' 200000 sample_world))"
    using sample_process_x by (metis prod.collapse)
  have pb: "process_csv [''in'', ''big.csv''] [''in''] ''big'' 200000 sample_world
     = (Inr [[''in'', ''big'', ''part-00000.parquet'']],
        snd (process_csv [''in'', ''big.csv''] [''in''] ''big'' 200000 sample_world))"
    using sample_process_big by (metis prod.collapse)
  have N: "max 1 ((length [4, 5, 6::nat] + 200000 - 1) div 200000) = (1::nat)" by simp
  from csv_parts_roundtrip [OF sample_lookup_x px] s
  have "parquet_rows
     (fs (snd (process_csv [''in'', ''x.csv''] [''in''] ''x'' 200000 sample_world)))
     (join [''in''] [''x'' @ ''.parquet'']) = Some [1, 2, 3]"
    by blast
  moreover from csv_parts_roundtrip [OF sample_lookup_big pb] b
  have "length (written (new_calls sample_world
     (snd (process_csv [''in'', ''big.csv''] [''in''] ''big'' 200000 sample_world))))
       = max 1 ((length [4, 5, 6::nat] + 200000 - 1) div 200000) \<and>
     concat (map (\<lambda>k. the (parquet_rows
       (fs (snd (process_csv [''in'', ''big.csv''] [''in''] ''big'' 200000 sample_world)))
       (join (join [''in''] [''big'']) [part_name k])))
         [0..<max 1 ((length [4, 5, 6::nat] + 200000 - 1) div 200000)]) = [4, 5, 6]"
    by blast
  ultimately show ?thesis
    using sample_lookup_x sample_lookup_big px pb b s
    by (simp only: N) (simp add: join_def part_name_0)
qed

subsection \<open>Steady programs\<close>

lemma remove_node_lookup: "remove_node p t = Inr t' \<Longrightarrow> lookup t' p = None"
proof (induction p t arbitrary: t' rule: remove_node.induct)
  case (3 c wr es)
  then show ?case
    by (auto simp: delete_conv' split: option.splits node.splits if_splits)
next
  case (4 c c' cs wr es)
  then show ?case
    by (auto simp: update_conv' split: option.splits sum.splits)
qed (auto)

lemma remove_node_absent:
  "remove_node p t = Inr t' \<Longrightarrow> lookup t q = None \<Longrightarrow> lookup t' q = None"
proof (induction p t arbitrary: t' q rule: remove_node.induct)
  case (3 c wr es)
  from 3(2) obtain k q' where q: "q = k # q'" by (cases q) auto
  from 3(1) have t': "t' = Dir wr (AList.delete c es)"
    by (auto split: option.splits node.splits if_splits)
  from 3(2) show ?case
    by (cases "k = c") (auto simp: q t' delete_conv' split: option.splits)
next
  case (4 c c' cs wr es)
  from 4(3) obtain k q' where q: "q = k # q'" by (cases q) auto
  from 4(2) obtain n n' where n: "map_of es c = Some n"
    and n': "remove_node (c' # cs) n = Inr n'"
    and t': "t' = Dir wr (AList.update c n' es)"
    by (auto split: option.splits sum.splits)
  show ?case
  proof (cases "k = c")
    case True
    with 4(3) n have "lookup n q' = None" by (simp add: q)
    from 4(1) [OF n n' this] show ?thesis by (simp add: q t' True update_conv')
  next
    case False
    with 4(3) show ?thesis by (simp add: q t' update_conv')
  qed
qed (auto)

lemma remove_node_keeps_dir:
  "remove_node p t = Inr t' \<Longrightarrow> is_dir t q \<Longrightarrow> is_dir t' q"
proof (induction p t arbitrary: t' q rule: remove_node.induct)
  case (3 c wr es)
  from 3(1) obtain d where t': "t' = Dir wr (AList.delete c es)"
    and cf: "map_of es c = Some (File d)"
    by (auto split: option.splits node.splits if_splits)
  show ?case
  proof (cases q)
    case Nil
    then show ?thesis by (simp add: t')
  next
    case (Cons k q')
    from 3(2) obtain m where m: "map_of es k = Some m" and md: "is_dir m q'"
      by (auto simp: Cons is_dir_Cons)
    from m md cf have "k \<noteq> c" by auto
    with m md show ?thesis by (simp add: Cons t' is_dir_Cons delete_conv')
  qed
next
  case (4 c c' cs wr es)
  from 4(2) obtain n n' where n: "map_of es c = Some n"
    and n': "remove_node (c' # cs) n = Inr n'"
    and t': "t' = Dir wr (AList.update c n' es)"
    by (auto split: option.splits sum.splits)
  show ?case
  proof (cases q)
    case Nil
    then show ?thesis by (simp add: t')
  next
    case (Cons k q')
    from 4(3) obtain m where m: "map_of es k = Some m" and md: "is_dir m q'"
      by (auto simp: Cons is_dir_Cons)
    show ?thesis
    proof (cases "k = c")
      case True
      with m n md have "is_dir n q'" by simp
      from 4(1) [OF n n' this] show ?thesis
        by (simp add: Cons t' True is_dir_Cons update_conv')
    next
      case False
      with m md show ?thesis by (simp add: Cons t' is_dir_Cons update_conv')
    qed
  qed
qed (auto)

lemma grows_refl [simp]: "grows w w"
  by (simp add: grows_def)

lemma grows_trans: "grows w w1 \<Longrightarrow> grows w1 w2 \<Longrightarrow> grows w w2"
  by (auto simp: grows_def intro: prefix_order.order_trans)

lemma steadyI: "(\<And>w. grows w (snd (m w))) \<Longrightarrow> steady m"
  by (simp add: steady_def)

lemma steadyD: "steady m \<Longrightarrow> m w = (r, w') \<Longrightarrow> grows w w'"
  by (auto simp: steady_def dest: spec [of _ w])

lemma no_exitD: "no_exit m \<Longrightarrow> m w = (Inl e, w') \<Longrightarrow> is_Exception e"
  by (auto simp: no_exit_def)

lemma steady_then_do: "steady m \<Longrightarrow> (\<And>x. steady (f x)) \<Longrightarrow> steady (then_do m f)"
proof (rule steadyI)
  fix w
  assume m: "steady m" and f: "\<And>x. steady (f x)"
  obtain r w1 where mw: "m w = (r, w1)" by (cases "m w") auto
  note g1 = steadyD [OF m mw]
  show "grows w (snd (then_do m f w))"
  proof (cases r)
    case (Inl e)
    with mw g1 show ?thesis by (simp add: then_do_def)
  next
    case (Inr x)
    obtain r2 w2 where fw: "f x w1 = (r2, w2)" by (cases "f x w1") auto
    from steadyD [OF f fw] g1 have "grows w w2" by (blast intro: grows_trans)
    with mw Inr fw show ?thesis by (simp add: then_do_def)
  qed
qed

lemma no_exit_then_do: "no_exit m \<Longrightarrow> (\<And>x. no_exit (f x)) \<Longrightarrow> no_exit (then_do m f)"
  unfolding no_exit_def then_do_def
  by (auto split: prod.splits sum.splits)

lemma steady_return [simp]: "steady (return x)"
  by (simp add: steady_def return_def)

lemma no_exit_return [simp]: "no_exit (return x)"
  by (simp add: no_exit_def return_def)

lemma steady_raise [simp]: "steady (raise e)"
  by (simp add: steady_def raise_def)

lemma steady_print [simp]: "steady (print m)"
  by (simp add: steady_def print_def grows_def)

lemma no_exit_print [simp]: "no_exit (print m)"
  by (simp add: no_exit_def print_def)

lemma steady_os_makedirs [simp]: "steady (os_makedirs p)"
  by (rule steadyI)
     (auto simp: os_makedirs_def log_call_def Let_def grows_def
           split: sum.splits intro: makedirs_keeps_dir)

lemma no_exit_os_makedirs [simp]: "no_exit (os_makedirs p)"
proof -
  have "makedirs q t = Inl e \<Longrightarrow> is_Exception e" for q and t :: "'a node" and e
    by (induction q t rule: makedirs.induct) (auto split: option.splits sum.splits if_splits)
  then show ?thesis
    by (auto simp: no_exit_def os_makedirs_def Let_def split: sum.splits)
qed

lemma steady_to_parquet [simp]: "steady (to_parquet df p)"
  by (rule steadyI)
     (auto simp: to_parquet_def log_call_def Let_def grows_def
           split: sum.splits intro: write_node_keeps_dir)

lemma no_exit_to_parquet [simp]: "no_exit (to_parquet df p)"
proof -
  have "write_node q d t = Inl e \<Longrightarrow> is_Exception e" for q d and t :: "'a node" and e
    by (induction q d t rule: write_node.induct)
       (auto split: option.splits sum.splits if_splits node.splits)
  then show ?thesis
    by (auto simp: no_exit_def to_parquet_def Let_def split: sum.splits)
qed

lemma steady_os_remove [simp]: "steady (os_remove p)"
  by (rule steadyI)
     (auto simp: os_remove_def log_call_def Let_def grows_def
           split: sum.splits intro: remove_node_keeps_dir)

lemma no_exit_os_remove [simp]: "no_exit (os_remove p)"
proof -
  have "remove_node q t = Inl e \<Longrightarrow> is_Exception e" for q and t :: "'a node" and e
    by (induction q t rule: remove_node.induct)
       (auto split: option.splits sum.splits if_splits node.splits)
  then show ?thesis
    by (auto simp: no_exit_def os_remove_def Let_def split: sum.splits)
qed

lemma steady_os_listdir [simp]: "steady (os_listdir p)"
  by (rule steadyI)
     (auto simp: os_listdir_def log_call_def Let_def grows_def split: option.splits node.splits)

lemma no_exit_os_listdir [simp]: "no_exit (os_listdir p)"
  by (auto simp: no_exit_def os_listdir_def Let_def split: option.splits node.splits)

lemma steady_os_path_getsize [simp]: "steady (os_path_getsize p)"
  by (rule steadyI)
     (auto simp: os_path_getsize_def log_call_def Let_def grows_def
           split: option.splits node.splits fdata.splits)

lemma no_exit_os_path_getsize [simp]: "no_exit (os_path_getsize p)"
  by (auto simp: no_exit_def os_path_getsize_def Let_def
           split: option.splits node.splits fdata.splits)

lemma read_table_exc: "read_table p t = Inl e \<Longrightarrow> is_Exception e"
  by (auto simp: read_table_def split: option.splits node.splits fdata.splits sum.splits)

lemma steady_pd_read [simp]:
  "steady (pd_read_csv p)" "steady (pd_read_excel p)" "steady (pd_read_stata p)"
  "steady (pd_read_csv_chunks p n)"
  by (rule steadyI;
      auto simp: pd_read_csv_def pd_read_excel_def pd_read_stata_def pd_read_csv_chunks_def
                 log_call_def Let_def grows_def split: sum.splits)+

lemma no_exit_pd_read [simp]:
  "no_exit (pd_read_csv p)" "no_exit (pd_read_excel p)" "no_exit (pd_read_stata p)"
  "no_exit (pd_read_csv_chunks p n)"
  by (auto simp: no_exit_def pd_read_csv_def pd_read_excel_def pd_read_stata_def
                 pd_read_csv_chunks_def Let_def read_table_exc split: sum.splits if_splits)

lemma steady_write_parts [simp]: "steady (write_parts d k cs)"
proof (induction cs arbitrary: k)
  case Nil
  show ?case by (simp add: steady_def)
next
  case (Cons c cs)
  have "write_parts d k (c # cs) =
          then_do (to_parquet c (join d [part_name k])) (\<lambda>u. write_parts d (Suc k) cs)"
    by (rule ext) (simp add: then_do_def write_df_to_parquet_def Let_def split: prod.splits sum.splits)
  with Cons show ?case by (simp add: steady_then_do)
qed

lemma no_exit_write_parts [simp]: "no_exit (write_parts d k cs)"
proof (induction cs arbitrary: k)
  case Nil
  show ?case by (simp add: no_exit_def)
next
  case (Cons c cs)
  have "write_parts d k (c # cs) =
          then_do (to_parquet c (join d [part_name k])) (\<lambda>u. write_parts d (Suc k) cs)"
    by (rule ext) (simp add: then_do_def write_df_to_parquet_def Let_def split: prod.splits sum.splits)
  with Cons show ?case by (simp add: no_exit_then_do)
qed

lemma steady_process [simp]:
  "steady (process_csv f t name n)" "steady (process_excel f t name)"
  "steady (process_dta f t name)"
  by (simp_all add: process_csv_def process_excel_def process_dta_def ensure_dir_def
        write_df_to_parquet_def Let_def steady_then_do)

lemma no_exit_process [simp]:
  "no_exit (process_csv f t name n)" "no_exit (process_excel f t name)"
  "no_exit (process_dta f t name)"
  by (simp_all add: process_csv_def process_excel_def process_dta_def ensure_dir_def
        write_df_to_parquet_def Let_def no_exit_then_do)

lemma steady_dispatch [simp]: "steady (dispatch ext f t name)"
  by (simp add: dispatch_def)

lemma no_exit_dispatch [simp]: "no_exit (dispatch ext f t name)"
  by (simp add: dispatch_def)

subsection \<open>The loop over the files\<close>

lemma os_makedirs_unit: "os_makedirs p w = (Inr u, w1) \<Longrightarrow> os_makedirs p w = (Inr (), w1)"
  by simp

text \<open>
  One pass of the loop: either the target directory cannot be made and the exception
  leaves the loop, or the conversion runs and its result, whatever it is, becomes one
  more entry of the summary.
\<close>

lemma convert_one_result:
  assumes "convert_one input_dir output_dir f summary w = (r, w')"
  shows "(\<exists>e. os_makedirs (target_dir_of input_dir output_dir f) w = (Inl e, w') \<and> r = Inl e)
       \<or> (\<exists>w1 rd w2 entry.
             os_makedirs (target_dir_of input_dir output_dir f) w = (Inr (), w1) \<and>
             dispatch (ext_of f) f (target_dir_of input_dir output_dir f) (name_of f) w1 = (rd, w2) \<and>
             r = Inr (summary @ [entry]) \<and> fs w' = fs w2 \<and> calls w' = calls w2 \<and>
             ((\<exists>outs. rd = Inr outs \<and> entry = (f, outs, None) \<and>
                 stdout w' = stdout w2 @ [Converted f (length outs)])
            \<or> (\<exists>e. rd = Inl e \<and> entry = (f, [], Some (str_exc e)) \<and>
                 stdout w' = stdout w2 @ [ConvertFailed f (str_exc e)])))"
proof -
  let ?t = "target_dir_of input_dir output_dir f"
  obtain rm w1 where mk: "os_makedirs ?t w = (rm, w1)" by (cases "os_makedirs ?t w") auto
  show ?thesis
  proof (cases rm)
    case (Inl e)
    with assms mk have "r = Inl e" "w' = w1"
      by (auto simp: convert_one_def target_dir_of_def ensure_dir_def then_do_def Let_def)
    with mk Inl show ?thesis by simp
  next
    case (Inr u)
    obtain rd w2 where dp: "dispatch (ext_of f) f ?t (name_of f) w1 = (rd, w2)"
      by (cases "dispatch (ext_of f) f ?t (name_of f) w1") auto
    have run: "(r, w') =
        (case rd of
           Inr out_files \<Rightarrow>
             then_do (print (Converted f (length out_files)))
               (\<lambda>u. return (summary @ [(f, out_files, None)])) w2
         | Inl e \<Rightarrow>
             if is_Exception e then
               then_do (print (ConvertFailed f (str_exc e)))
                 (\<lambda>u. return (summary @ [(f, [], Some (str_exc e))])) w2
             else (Inl e, w2))"
      using assms mk Inr dp
      by (simp add: convert_one_def target_dir_of_def name_of_def ext_of_def ensure_dir_def
            then_do_def Let_def split: sum.splits)
    have m1: "os_makedirs ?t w = (Inr (), w1)" using mk Inr by simp
    show ?thesis
    proof (cases rd)
      case (Inl e)
      from no_exitD [OF no_exit_dispatch dp [unfolded Inl]] have "is_Exception e" .
      with run Inl have "r = Inr (summary @ [(f, [], Some (str_exc e))])"
        and "w' = w2\<lparr>stdout := stdout w2 @ [ConvertFailed f (str_exc e)]\<rparr>"
        by (simp_all add: then_do_def print_def return_def)
      with m1 dp Inl show ?thesis by auto
    next
      case outs: (Inr outs)
      with run have "r = Inr (summary @ [(f, outs, None)])"
        and "w' = w2\<lparr>stdout := stdout w2 @ [Converted f (length outs)]\<rparr>"
        by (simp_all add: then_do_def print_def return_def)
      with m1 dp outs show ?thesis by auto
    qed
  qed
qed

lemma steady_convert_one [simp]: "steady (convert_one input_dir output_dir f summary)"
proof (rule steadyI)
  fix w :: "'a world"
  obtain r w' where c: "convert_one input_dir output_dir f summary w = (r, w')"
    by (cases "convert_one input_dir output_dir f summary w") auto
  from convert_one_result [OF c] have "grows w w'"
  proof (elim disjE exE conjE)
    fix e assume "os_makedirs (target_dir_of input_dir output_dir f) w = (Inl e, w')"
    then show ?thesis by (rule steadyD [OF steady_os_makedirs])
  next
    fix w1 rd w2 entry outs
    assume mk: "os_makedirs (target_dir_of input_dir output_dir f) w = (Inr (), w1)"
      and dp: "dispatch (ext_of f) f (target_dir_of input_dir output_dir f) (name_of f) w1 = (rd, w2)"
      and same: "fs w' = fs w2" "calls w' = calls w2"
      and out: "stdout w' = stdout w2 @ [Converted f (length outs)]"
    have "grows w w1" using mk by (rule steadyD [OF steady_os_makedirs])
    moreover have "grows w1 w2" using dp by (rule steadyD [OF steady_dispatch])
    moreover have "grows w2 w'" using same out by (auto simp: grows_def)
    ultimately show ?thesis by (blast intro: grows_trans)
  next
    fix w1 rd w2 entry e
    assume mk: "os_makedirs (target_dir_of input_dir output_dir f) w = (Inr (), w1)"
      and dp: "dispatch (ext_of f) f (target_dir_of input_dir output_dir f) (name_of f) w1 = (rd, w2)"
      and same: "fs w' = fs w2" "calls w' = calls w2"
      and out: "stdout w' = stdout w2 @ [ConvertFailed f (str_exc e)]"
    have "grows w w1" using mk by (rule steadyD [OF steady_os_makedirs])
    moreover have "grows w1 w2" using dp by (rule steadyD [OF steady_dispatch])
    moreover have "grows w2 w'" using same out by (auto simp: grows_def)
    ultimately show ?thesis by (blast intro: grows_trans)
  qed
  with c show "grows w (snd (convert_one input_dir output_dir f summary w))" by simp
qed

lemma steady_convert_all [simp]: "steady (convert_all input_dir output_dir files summary)"
proof (induction files arbitrary: summary)
  case Nil
  show ?case by (simp add: steady_def)
next
  case (Cons f files)
  have eq: "convert_all input_dir output_dir (f # files) summary =
          then_do (convert_one input_dir output_dir f summary)
            (\<lambda>s. convert_all input_dir output_dir files s)"
    by (rule ext) (simp add: then_do_def split: prod.splits sum.splits)
  show ?case by (subst eq) (intro steady_then_do steady_convert_one Cons)
qed

text \<open>When the loop ends, the summary has one more entry for each file, in order.\<close>

lemma convert_all_summary:
  "convert_all input_dir output_dir files s0 w = (Inr summary, w') \<Longrightarrow>
     map fst summary = map fst s0 @ files"
proof (induction files arbitrary: s0 w)
  case Nil
  then show ?case by simp
next
  case (Cons f files)
  obtain r1 w1 where c: "convert_one input_dir output_dir f s0 w = (r1, w1)"
    by (cases "convert_one input_dir output_dir f s0 w") auto
  with Cons.prems obtain s1 where r1: "r1 = Inr s1"
    and rest: "convert_all input_dir output_dir files s1 w1 = (Inr summary, w')"
    by (cases r1) auto
  from convert_one_result [OF c] r1 obtain entry where "s1 = s0 @ [entry]"
    and "fst entry = f"
    by auto
  with Cons.IH [OF rest] show ?case by simp
qed

text \<open>The loop is left early only by a target directory that cannot be made.\<close>

lemma convert_all_abort:
  "convert_all input_dir output_dir files s0 w = (Inl e, w') \<Longrightarrow>
     \<exists>f \<in> set files. \<exists>w0.
       os_makedirs (target_dir_of input_dir output_dir f) w0 = (Inl e, w')"
proof (induction files arbitrary: s0 w)
  case Nil
  then show ?case by simp
next
  case (Cons f files)
  obtain r1 w1 where c: "convert_one input_dir output_dir f s0 w = (r1, w1)"
    by (cases "convert_one input_dir output_dir f s0 w") auto
  show ?case
  proof (cases r1)
    case (Inl e1)
    with Cons.prems c have "e1 = e" "w1 = w'" by auto
    with convert_one_result [OF c] Inl show ?thesis by auto
  next
    case (Inr s1)
    with Cons.prems c have "convert_all input_dir output_dir files s1 w1 = (Inl e, w')"
      by auto
    from Cons.IH [OF this] show ?thesis by auto
  qed
qed

subsection \<open>Removing the originals and the summary\<close>

lemma os_remove_result:
  "os_remove p w = (r, w') \<Longrightarrow>
     calls w' = calls w @ [Remove p] \<and> stdout w' = stdout w \<and>
     (\<forall>q. lookup (fs w) q = None \<longrightarrow> lookup (fs w') q = None) \<and>
     (\<forall>u. r = Inr u \<longrightarrow> lookup (fs w') (normpath p) = None) \<and>
     (\<forall>e. r = Inl e \<longrightarrow> is_Exception e \<and> fs w' = fs w)"
proof -
  assume a: "os_remove p w = (r, w')"
  have ex: "\<forall>e. r = Inl e \<longrightarrow> is_Exception e"
    using no_exitD [OF no_exit_os_remove] a by blast
  from a ex show ?thesis
    by (auto simp: os_remove_def log_call_def Let_def split: sum.splits
             intro: remove_node_lookup remove_node_absent)
qed

text \<open>
  The loop that removes the originals: it calls \<open>os.remove\<close> on every file of the
  summary, in order, never raises, prints one line for each removal that failed and
  nothing else; and a file that is not on disk stays so.
\<close>

lemma delete_all_result:
  "delete_all summary w = (r, w') \<Longrightarrow>
     r = Inr () \<and>
     calls w' = calls w @ map (\<lambda>s. Remove (fst s)) summary \<and>
     prefix (stdout w) (stdout w') \<and>
     (\<forall>q. lookup (fs w) q = None \<longrightarrow> lookup (fs w') q = None) \<and>
     (\<forall>s \<in> set summary.
        lookup (fs w') (normpath (fst s)) = None \<or>
        (\<exists>m. DeleteFailed (fst s) m \<in> set (stdout w')))"
proof (induction summary arbitrary: w)
  case Nil
  then show ?case by simp
next
  case (Cons s rest)
  obtain orig outs err where s: "s = (orig, outs, err)" by (cases s) auto
  obtain r1 w1 where rm: "os_remove orig w = (r1, w1)" by (cases "os_remove orig w") auto
  note rr = os_remove_result [OF rm]
  show ?case
  proof (cases r1)
    case (Inr u)
    with Cons.prems s rm have rest: "delete_all rest w1 = (r, w')" by simp
    note ih = Cons.IH [OF rest]
    from rr Inr have gone: "lookup (fs w1) (normpath orig) = None" by simp
    with ih have "lookup (fs w') (normpath orig) = None" by simp
    with ih rr show ?thesis by (auto simp: s)
  next
    case (Inl e)
    with rr have ex: "is_Exception e" by simp
    let ?w2 = "w1\<lparr>stdout := stdout w1 @ [DeleteFailed orig (str_exc e)]\<rparr>"
    from Cons.prems s rm Inl ex have rest: "delete_all rest ?w2 = (r, w')"
      by (simp add: print_def)
    note ih = Cons.IH [OF rest]
    from ih have "prefix (stdout w1 @ [DeleteFailed orig (str_exc e)]) (stdout w')" by simp
    then have pre: "prefix (stdout w1) (stdout w')"
      and mem: "DeleteFailed orig (str_exc e) \<in> set (stdout w')"
      by (auto simp: prefix_def)
    from ih rr pre mem show ?thesis by (auto simp: s)
  qed
qed

lemma removed_Removes: "removed (map (\<lambda>s. Remove (fst s)) summary) = map fst summary"
  by (induction summary) auto

lemma written_Removes: "written (map (\<lambda>s. Remove (fst s)) summary) = []"
  by (induction summary) auto

text \<open>Lines 128-147 when the deletion is confirmed.\<close>

lemma finish_confirmed:
  assumes "arg_delete a \<or> (\<exists>l. stdin = Some l \<and> ulower (strip l) = points ''y'')"
  shows "\<exists>w1. delete_all summary w = (Inr (), w1) \<and>
           finish a stdin output_dir summary w =
             (Inr (), w1\<lparr>stdout := stdout w1 @
                [DeleteTried, SummaryHeader,
                 SummaryLine (succ_count summary) (fail_count summary) output_dir]\<rparr>)"
proof -
  obtain r1 w1 where d: "delete_all summary w = (r1, w1)"
    by (cases "delete_all summary w") auto
  from delete_all_result [OF d] have r1: "r1 = Inr ()" by simp
  have "(if arg_delete a then return (points ''y'')
         else then_do (input_line stdin) (\<lambda>l. return (ulower (strip l)))) w =
        (Inr (points ''y''), w)"
    using assms by (auto simp: return_def then_do_def input_line_def)
  then have "finish a stdin output_dir summary w =
      then_do (then_do (delete_all summary) (\<lambda>u. print DeleteTried)) (\<lambda>u.
        then_do (print SummaryHeader) (\<lambda>u.
          print (SummaryLine (succ_count summary) (fail_count summary) output_dir))) w"
    by (simp add: finish_def then_do_def)
  with d r1 show ?thesis by (simp add: then_do_def print_def)
qed

text \<open>
  An answer is stripped of Unicode white space: \<open>Y\<close> between a space and a no-break
  space followed by an ideographic space confirms the removal.
\<close>

lemma answer_with_wide_spaces:
  "ulower (strip [0x20, 0x59, 0xA0, 0x3000]) = points ''y''"
  by (simp add: ulower_def strip_def is_space_def points_def)

text \<open>Lines 128-147 when they run to the end: the last two lines printed.\<close>

lemma finish_summary:
  assumes "finish a stdin output_dir summary w = (Inr u, w')"
  shows "\<exists>pre. stdout w' = pre @
           [SummaryHeader, SummaryLine (succ_count summary) (fail_count summary) output_dir]"
proof -
  obtain rc wc where c: "(if arg_delete a then return (points ''y'')
         else then_do (input_line stdin) (\<lambda>l. return (ulower (strip l)))) w = (rc, wc)"
    by (cases "(if arg_delete a then return (points ''y'')
         else then_do (input_line stdin) (\<lambda>l. return (ulower (strip l)))) w") auto
  from assms c obtain confirm where rc: "rc = Inr confirm"
    by (cases rc) (auto simp: finish_def then_do_def)
  let ?del = "if confirm = points ''y''
              then then_do (delete_all summary) (\<lambda>u. print DeleteTried)
              else print KeptOriginals"
  obtain rd wd where d: "?del wc = (rd, wd)" by (cases "?del wc") auto
  from assms c rc d obtain ud where rd: "rd = Inr ud"
    by (cases rd) (auto simp: finish_def then_do_def)
  from assms c rc d rd
  have "w' = wd\<lparr>stdout := stdout wd @
           [SummaryHeader, SummaryLine (succ_count summary) (fail_count summary) output_dir]\<rparr>"
    by (auto simp: finish_def then_do_def print_def)
  then show ?thesis by simp
qed

lemma succ_fail_count: "succ_count summary + fail_count summary = length summary"
  unfolding succ_count_def fail_count_def by (rule sum_length_filter_compl)

lemma steady_delete_all [simp]: "steady (delete_all summary)"
proof (rule steadyI)
  fix w :: "'a world"
  obtain r w' where d: "delete_all summary w = (r, w')" by (cases "delete_all summary w") auto
  have "\<And>w w'. delete_all summary w = (r, w') \<Longrightarrow> (\<forall>q. is_dir (fs w) q \<longrightarrow> is_dir (fs w') q)"
  proof (induction summary)
    case Nil
    then show ?case by simp
  next
    case (Cons s rest)
    obtain orig outs err where s: "s = (orig, outs, err)" by (cases s) auto
    obtain r1 w1 where rm: "os_remove orig w = (r1, w1)" by (cases "os_remove orig w") auto
    from steadyD [OF steady_os_remove rm] have g: "\<forall>q. is_dir (fs w) q \<longrightarrow> is_dir (fs w1) q"
      by (simp add: grows_def)
    show ?case
    proof (cases r1)
      case (Inr u)
      with Cons.prems s rm have "delete_all rest w1 = (r, w')" by simp
      from Cons.IH [OF this] g show ?thesis by blast
    next
      case (Inl e)
      from no_exitD [OF no_exit_os_remove rm [unfolded Inl]] have "is_Exception e" .
      with Cons.prems s rm Inl
      have "delete_all rest (w1\<lparr>stdout := stdout w1 @ [DeleteFailed orig (str_exc e)]\<rparr>) = (r, w')"
        by (simp add: print_def)
      from Cons.IH [OF this] g show ?thesis by simp
    qed
  qed
  from this [OF d] delete_all_result [OF d] have "grows w w'" by (simp add: grows_def)
  with d show "grows w (snd (delete_all summary w))" by simp
qed

lemma steady_input_line [simp]: "steady (input_line stdin)"
  by (cases stdin) (simp_all add: input_line_def)

lemma steady_finish [simp]: "steady (finish a stdin output_dir summary)"
  by (simp add: finish_def steady_then_do)

lemma steady_find_files [simp]: "steady (find_files root es)"
  by (rule steadyI) (simp add: find_files_def Let_def grows_def)

subsection \<open>The whole run\<close>

text \<open>Lines 98-147, once the input directory is known.\<close>

lemma main_run:
  assumes "input_of a dlg = Some d"
  shows "main a dlg stdin w =
     then_do (ensure_dir (output_dir_of a d)) (\<lambda>u.
       then_do (find_files (normpath d) exts) (\<lambda>files.
         if files = [] then then_do (print NoFilesFound) (\<lambda>u. raise (SystemExit 0))
         else
           then_do (convert_all (normpath d) (output_dir_of a d) files []) (\<lambda>summary.
             finish a stdin (output_dir_of a d) summary))) w"
proof -
  have "(case arg_input a of
           Some d \<Rightarrow> return (Some d)
         | None \<Rightarrow> choose_directory_dialog dlg) w = (Inr (Some d), w)"
    using assms
    by (auto simp: input_of_def return_def choose_directory_dialog_def
             split: option.splits dialog.splits)
  then have "main a dlg stdin w =
      (case Some d of
         None \<Rightarrow> then_do (print NoInputDir) (\<lambda>u. raise (SystemExit 1))
       | Some d \<Rightarrow>
           (let input_dir = normpath d;
                output_dir = (case arg_output a of
                                Some out \<Rightarrow> out
                              | None \<Rightarrow> join input_dir [''_parquet_out''])
            in then_do (ensure_dir output_dir) (\<lambda>u.
               then_do (find_files input_dir exts) (\<lambda>files.
                 if files = [] then then_do (print NoFilesFound) (\<lambda>u. raise (SystemExit 0))
                 else
                   then_do (convert_all input_dir output_dir files []) (\<lambda>summary.
                     finish a stdin output_dir summary))))) w"
    unfolding main_def by (rule then_do_Inr)
  also have "\<dots> =
     then_do (ensure_dir (output_dir_of a d)) (\<lambda>u.
       then_do (find_files (normpath d) exts) (\<lambda>files.
         if files = [] then then_do (print NoFilesFound) (\<lambda>u. raise (SystemExit 0))
         else
           then_do (convert_all (normpath d) (output_dir_of a d) files []) (\<lambda>summary.
             finish a stdin (output_dir_of a d) summary))) w"
    unfolding output_dir_of_def Let_def by simp
  finally show ?thesis .
qed

lemma find_files_result:
  "find_files root es w = (r, w') \<Longrightarrow>
     w' = log_call (Walk root) w \<and>
     r = Inr (concat (map (\<lambda>(dirpath, dirnames, filenames).
                 map (\<lambda>f. join dirpath [f])
                   (filter (\<lambda>f. lower (snd (splitext f)) \<in> set es) filenames))
               (os_walk root (fs w))))"
  by (auto simp: find_files_def Let_def)

lemma steady_after_discovery [simp]:
  "steady (\<lambda>w. if files = [] then then_do (print NoFilesFound) (\<lambda>u. raise (SystemExit 0)) w
         else
           then_do (convert_all input_dir output_dir files []) (\<lambda>summary.
             finish a stdin output_dir summary) w)"
  by (cases "files = []") (simp_all add: steady_then_do)

text \<open>
  C9. When the walk of the input directory (made after the output directory) lists no
  file whose lowered extension is one of \<open>.csv\<close>, \<open>.xlsx\<close>, \<open>.xls\<close>, \<open>.dta\<close>, the
  program prints the line that says so and exits with status 0; it has made the two
  calls \<open>os.makedirs\<close> and \<open>os.walk\<close> and no other: nothing is read, written or
  removed, and no summary is printed.
\<close>

theorem no_files_clean_exit:
  fixes w :: "'a world"
  assumes "input_of a dlg = Some d"
    and "ensure_dir (output_dir_of a d) w = (Inr (), w1)"
    and "\<forall>(dirpath, dirnames, filenames) \<in> set (os_walk (normpath d) (fs w1)).
           \<forall>f \<in> set filenames. lower (snd (splitext f)) \<notin> set exts"
  shows "main a dlg stdin w =
           (Inl (SystemExit 0),
            w1\<lparr>calls := calls w1 @ [Walk (normpath d)], stdout := stdout w1 @ [NoFilesFound]\<rparr>)
       \<and> calls w1 = calls w @ [Makedirs (output_dir_of a d)] \<and> stdout w1 = stdout w"
proof -
  let ?found = "concat (map (\<lambda>(dirpath, dirnames, filenames).
                 map (\<lambda>f. join dirpath [f])
                   (filter (\<lambda>f. lower (snd (splitext f)) \<in> set exts) filenames))
               (os_walk (normpath d) (fs w1)))"
  have "\<And>t. t \<in> set (os_walk (normpath d) (fs w1)) \<Longrightarrow>
          (case t of (dirpath, dirnames, filenames) \<Rightarrow>
             map (\<lambda>f. join dirpath [f])
               (filter (\<lambda>f. lower (snd (splitext f)) \<in> set exts) filenames)) = []"
    using assms(3) by (auto simp: filter_empty_conv)
  then have "?found = []" by (simp add: concat_eq_Nil_conv)
  then have ff: "find_files (normpath d) exts w1 = (Inr [], log_call (Walk (normpath d)) w1)"
    by (simp add: find_files_def Let_def)
  have s1: "then_do (ensure_dir (output_dir_of a d)) F w = F () w1" for F :: "unit \<Rightarrow> (unit, 'a) prog"
    using assms(2) by (simp add: then_do_def)
  have s2: "then_do (find_files (normpath d) exts) G w1 = G [] (log_call (Walk (normpath d)) w1)"
    for G :: "path list \<Rightarrow> (unit, 'a) prog"
    using ff by (simp add: then_do_def)
  have "main a dlg stdin w =
          then_do (print NoFilesFound) (\<lambda>u. raise (SystemExit 0))
            (log_call (Walk (normpath d)) w1)"
    unfolding main_run [OF assms(1)] s1 s2 by simp
  then have "main a dlg stdin w =
          (Inl (SystemExit 0),
           w1\<lparr>calls := calls w1 @ [Walk (normpath d)], stdout := stdout w1 @ [NoFilesFound]\<rparr>)"
    by (simp add: then_do_def print_def raise_def log_call_def)
  moreover from os_makedirs_result [OF assms(2) [unfolded ensure_dir_def]]
  have "calls w1 = calls w @ [Makedirs (output_dir_of a d)] \<and> stdout w1 = stdout w" by simp
  ultimately show ?thesis by simp
qed

text \<open>
  C10. The first call of a run that has an input directory is \<open>os.makedirs\<close> on the
  output directory. If it raises, the run ends there, without a walk. If it returns,
  the output directory and all its ancestors are directories in the world the walk
  then sees; the walk is the second call; and the output directory is still a
  directory when the run ends, however it ends.
\<close>

theorem output_dir_made_before_discovery:
  fixes w :: "'a world"
  assumes "input_of a dlg = Some d"
    and "main a dlg stdin w = (r, w')"
  shows "(\<forall>e w1. ensure_dir (output_dir_of a d) w = (Inl e, w1) \<longrightarrow>
            r = Inl e \<and> w' = w1 \<and> new_calls w w' = [Makedirs (output_dir_of a d)])
       \<and> (\<forall>w1. ensure_dir (output_dir_of a d) w = (Inr (), w1) \<longrightarrow>
            (\<forall>q. prefix q (normpath (output_dir_of a d)) \<longrightarrow> is_dir (fs w1) q) \<and>
            take 2 (new_calls w w') = [Makedirs (output_dir_of a d), Walk (normpath d)] \<and>
            fs (snd (find_files (normpath d) exts w1)) = fs w1 \<and>
            is_dir (fs w') (normpath (output_dir_of a d)))"
proof (intro conjI)
  show "\<forall>e w1. ensure_dir (output_dir_of a d) w = (Inl e, w1) \<longrightarrow>
            r = Inl e \<and> w' = w1 \<and> new_calls w w' = [Makedirs (output_dir_of a d)]"
  proof (intro allI impI)
    fix e w1
    assume mk: "ensure_dir (output_dir_of a d) w = (Inl e, w1)"
    from mk assms(2) have res: "r = Inl e" "w' = w1"
      by (simp_all add: main_run [OF assms(1)] then_do_def)
    with os_makedirs_result [OF mk [unfolded ensure_dir_def]]
    have "new_calls w w' = [Makedirs (output_dir_of a d)]" by (simp add: new_calls_def)
    with res show "r = Inl e \<and> w' = w1 \<and> new_calls w w' = [Makedirs (output_dir_of a d)]"
      by simp
  qed
next
  show "\<forall>w1. ensure_dir (output_dir_of a d) w = (Inr (), w1) \<longrightarrow>
            (\<forall>q. prefix q (normpath (output_dir_of a d)) \<longrightarrow> is_dir (fs w1) q) \<and>
            take 2 (new_calls w w') = [Makedirs (output_dir_of a d), Walk (normpath d)] \<and>
            fs (snd (find_files (normpath d) exts w1)) = fs w1 \<and>
            is_dir (fs w') (normpath (output_dir_of a d))"
  proof (intro allI impI)
    fix w1
    assume mk: "ensure_dir (output_dir_of a d) w = (Inr (), w1)"
    note mr = os_makedirs_result [OF mk [unfolded ensure_dir_def]]
    then have md: "makedirs (normpath (output_dir_of a d)) (fs w) = Inr (fs w1)" by simp
    have dirs: "\<forall>q. prefix q (normpath (output_dir_of a d)) \<longrightarrow> is_dir (fs w1) q"
      using makedirs_is_dir [OF md] by blast
    let ?w2 = "log_call (Walk (normpath d)) w1"
    obtain files where ff: "find_files (normpath d) exts w1 = (Inr files, ?w2)"
      by (simp add: find_files_def Let_def)
    have same: "fs (snd (find_files (normpath d) exts w1)) = fs w1" using ff by simp
    let ?rest = "\<lambda>w. if files = [] then then_do (print NoFilesFound) (\<lambda>u. raise (SystemExit 0)) w
           else
             then_do (convert_all (normpath d) (output_dir_of a d) files []) (\<lambda>summary.
               finish a stdin (output_dir_of a d) summary) w"
    have s1: "then_do (ensure_dir (output_dir_of a d)) F w = F () w1" for F :: "unit \<Rightarrow> (unit, 'a) prog"
      using mk by (simp add: then_do_def)
    have s2: "then_do (find_files (normpath d) exts) G w1 = G files ?w2"
      for G :: "path list \<Rightarrow> (unit, 'a) prog"
      using ff by (simp add: then_do_def)
    have "main a dlg stdin w = ?rest ?w2"
      unfolding main_run [OF assms(1)] s1 s2 by simp
    with assms(2) have run: "?rest ?w2 = (r, w')" by simp
    have g: "grows ?w2 w'" using run by (rule steadyD [OF steady_after_discovery])
    then obtain tl where tl: "calls w' = calls ?w2 @ tl" by (auto simp: grows_def prefix_def)
    with mr have two: "take 2 (new_calls w w') = [Makedirs (output_dir_of a d), Walk (normpath d)]"
      by (simp add: new_calls_def)
    from dirs have "is_dir (fs ?w2) (normpath (output_dir_of a d))" by simp
    with g have "is_dir (fs w') (normpath (output_dir_of a d))" by (simp add: grows_def)
    with dirs two same
    show "(\<forall>q. prefix q (normpath (output_dir_of a d)) \<longrightarrow> is_dir (fs w1) q) \<and>
            take 2 (new_calls w w') = [Makedirs (output_dir_of a d), Walk (normpath d)] \<and>
            fs (snd (find_files (normpath d) exts w1)) = fs w1 \<and>
            is_dir (fs w') (normpath (output_dir_of a d))"
      by blast
  qed
qed

lemma main_after_loop:
  fixes w :: "'a world"
  assumes "input_of a dlg = Some d"
    and "ensure_dir (output_dir_of a d) w = (Inr (), w1)"
    and "find_files (normpath d) exts w1 = (Inr files, w2)"
    and "files \<noteq> []"
    and "convert_all (normpath d) (output_dir_of a d) files [] w2 = (Inr summary, w3)"
  shows "main a dlg stdin w = finish a stdin (output_dir_of a d) summary w3"
proof -
  have s1: "then_do (ensure_dir (output_dir_of a d)) F w = F () w1"
    for F :: "unit \<Rightarrow> (unit, 'a) prog"
    using assms(2) by (simp add: then_do_def)
  have s2: "then_do (find_files (normpath d) exts) G w1 = G files w2"
    for G :: "path list \<Rightarrow> (unit, 'a) prog"
    using assms(3) by (simp add: then_do_def)
  have s3: "then_do (convert_all (normpath d) (output_dir_of a d) files []) H w2 = H summary w3"
    for H :: "outcome list \<Rightarrow> (unit, 'a) prog"
    using assms(5) by (simp add: then_do_def)
  show ?thesis
    unfolding main_run [OF assms(1)] s1 s2 using assms(4) by (simp add: s3)
qed

text \<open>
  After the loop. When the loop over the files has ended and the deletion is confirmed
  (by \<open>--delete\<close>, or by an answer that is \<open>y\<close> once stripped and lowered), the
  program calls \<open>os.remove\<close> on every discovered file, in the order of discovery, whether its
  conversion succeeded or failed, and on nothing else. A removal that raises does
  not stop the others: the run goes on to its end (the line after the removals and
  the summary are printed, the result is a normal return), and every discovered file
  is either gone from disk or named in a printed failure line.
\<close>

theorem deletion_attempts_every_file:
  fixes w :: "'a world"
  assumes "input_of a dlg = Some d"
    and "ensure_dir (output_dir_of a d) w = (Inr (), w1)"
    and "find_files (normpath d) exts w1 = (Inr files, w2)"
    and "files \<noteq> []"
    and "convert_all (normpath d) (output_dir_of a d) files [] w2 = (Inr summary, w3)"
    and "arg_delete a \<or> (\<exists>l. stdin = Some l \<and> ulower (strip l) = points ''y'')"
  shows "\<exists>w'. main a dlg stdin w = (Inr (), w') \<and>
           map fst summary = files \<and>
           new_calls w3 w' = map Remove files \<and>
           (\<forall>f \<in> set files.
              lookup (fs w') (normpath f) = None \<or>
              (\<exists>m. DeleteFailed f m \<in> set (stdout w'))) \<and>
           (\<exists>pre. stdout w' = pre @
              [DeleteTried, SummaryHeader,
               SummaryLine (succ_count summary) (fail_count summary) (output_dir_of a d)])"
proof -
  from finish_confirmed [OF assms(6), of summary w3 "output_dir_of a d"]
  obtain wd where del: "delete_all summary w3 = (Inr (), wd)"
    and fin: "finish a stdin (output_dir_of a d) summary w3 =
             (Inr (), wd\<lparr>stdout := stdout wd @
                [DeleteTried, SummaryHeader,
                 SummaryLine (succ_count summary) (fail_count summary) (output_dir_of a d)]\<rparr>)"
    by blast
  let ?w' = "wd\<lparr>stdout := stdout wd @
                [DeleteTried, SummaryHeader,
                 SummaryLine (succ_count summary) (fail_count summary) (output_dir_of a d)]\<rparr>"
  note dr = delete_all_result [OF del]
  have files: "map fst summary = files" using convert_all_summary [OF assms(5)] by simp
  have m: "main a dlg stdin w = (Inr (), ?w')"
    using main_after_loop [OF assms(1-5)] fin by simp
  have "map (\<lambda>s. Remove (fst s)) summary = map Remove (map fst summary)" by simp
  with dr files have c: "new_calls w3 ?w' = map Remove files"
    by (simp add: new_calls_def)
  have gone: "\<forall>f \<in> set files.
              lookup (fs ?w') (normpath f) = None \<or>
              (\<exists>m. DeleteFailed f m \<in> set (stdout ?w'))"
  proof
    fix f assume "f \<in> set files"
    with files obtain s where "s \<in> set summary" "fst s = f" by force
    with dr show "lookup (fs ?w') (normpath f) = None \<or>
              (\<exists>m. DeleteFailed f m \<in> set (stdout ?w'))"
      by auto
  qed
  have pre: "\<exists>pre. stdout ?w' = pre @
              [DeleteTried, SummaryHeader,
               SummaryLine (succ_count summary) (fail_count summary) (output_dir_of a d)]"
    by simp
  from m files c gone pre show ?thesis by blast
qed

text \<open>
  C8. When the run reaches its end, the last line printed is the summary line: its
  first number is the number of outcomes without an error, its second the number of
  outcomes with one, the two add up to the number of discovered files, and the
  output directory is printed with them.
\<close>

theorem summary_counts:
  fixes w :: "'a world"
  assumes "input_of a dlg = Some d"
    and "ensure_dir (output_dir_of a d) w = (Inr (), w1)"
    and "find_files (normpath d) exts w1 = (Inr files, w2)"
    and "files \<noteq> []"
    and "convert_all (normpath d) (output_dir_of a d) files [] w2 = (Inr summary, w3)"
    and "main a dlg stdin w = (Inr u, w')"
  shows "(\<exists>pre. stdout w' = pre @
            [SummaryHeader,
             SummaryLine (length (filter (\<lambda>s. snd (snd s) = None) summary))
                         (length (filter (\<lambda>s. snd (snd s) \<noteq> None) summary))
                         (output_dir_of a d)])
       \<and> length (filter (\<lambda>s. snd (snd s) = None) summary)
           + length (filter (\<lambda>s. snd (snd s) \<noteq> None) summary) = length files"
proof -
  from main_after_loop [OF assms(1-5)] assms(6)
  have "finish a stdin (output_dir_of a d) summary w3 = (Inr u, w')" by simp
  from finish_summary [OF this]
  have "\<exists>pre. stdout w' = pre @
            [SummaryHeader,
             SummaryLine (length (filter (\<lambda>s. snd (snd s) = None) summary))
                         (length (filter (\<lambda>s. snd (snd s) \<noteq> None) summary))
                         (output_dir_of a d)]"
    by (simp add: succ_count_def fail_count_def)
  moreover have "length summary = length files"
    using convert_all_summary [OF assms(5)] by (metis append_Nil length_map list.simps(8))
  then have "length (filter (\<lambda>s. snd (snd s) = None) summary)
           + length (filter (\<lambda>s. snd (snd s) \<noteq> None) summary) = length files"
    using sum_length_filter_compl [of "\<lambda>s. snd (snd s) = None" summary] by simp
  ultimately show ?thesis by blast
qed

subsection \<open>The run on the sample tree\<close>

lemmas main_defs =
  main_def finish_def convert_one_def dispatch_def find_files_def os_walk_def exts_def
  choose_directory_dialog_def input_line_def succ_count_def fail_count_def
  relpath_def dirname_def basename_def splitext_def lower_def lower_char_def strip_def
  is_space_def ulower_def points_def is_file_entry_def args_delete_def args_ask_def
  input_of_def output_dir_of_def target_dir_of_def name_of_def ext_of_def

lemma sample_w1_eq:
  "sample_w1 =
     \<lparr>fs = Dir True
     [(''in'',
     Dir True
     [(''x.csv'', File (Source 1024 (Inr [1, 2, 3]))),
     (''big.csv'', File (Source 52428801 (Inr [4, 5, 6]))),
     (''sub'',
     Dir True
     [(''y.XLSX'', File (Source 512 (Inl ''not a workbook'')))]),
     (''ro'',
     Dir False [(''z.dta'', File (Source 2048 (Inr [7])))])]),
     (''out'', Dir True [])],
     calls = [Makedirs [''out'']], stdout = []\<rparr>"
  by (simp add: sample_w1_def run_defs sample_world_def sample_tree_def)

lemma sample_stage1: "ensure_dir [''out''] sample_world = (Inr (), sample_w1)"
proof -
  have "fst (ensure_dir [''out''] sample_world) = Inr ()"
    by (simp add: run_defs sample_world_def sample_tree_def)
  then show ?thesis by (simp add: sample_w1_def prod_eq_iff)
qed

lemma sample_w2_eq:
  "sample_w2 =
     \<lparr>fs = Dir True
     [(''in'',
     Dir True
     [(''x.csv'', File (Source 1024 (Inr [1, 2, 3]))),
     (''big.csv'', File (Source 52428801 (Inr [4, 5, 6]))),
     (''sub'',
     Dir True
     [(''y.XLSX'', File (Source 512 (Inl ''not a workbook'')))]),
     (''ro'',
     Dir False [(''z.dta'', File (Source 2048 (Inr [7])))])]),
     (''out'', Dir True [])],
     calls = [Makedirs [''out''], Walk [''in'']], stdout = []\<rparr>"
  by (simp add: sample_w2_def sample_w1_eq main_defs run_defs)

lemma sample_stage2: "find_files [''in''] exts sample_w1 = (Inr sample_files, sample_w2)"
proof -
  have "fst (find_files [''in''] exts sample_w1) = Inr sample_files"
    by (simp add: sample_w1_eq sample_files_def main_defs run_defs)
  then show ?thesis by (simp add: sample_w2_def prod_eq_iff)
qed

lemma sample_w3_eq:
  "sample_w3 =
     \<lparr>fs = Dir True
     [(''in'',
     Dir True
     [(''x.csv'', File (Source 1024 (Inr [1, 2, 3]))),
     (''big.csv'', File (Source 52428801 (Inr [4, 5, 6]))),
     (''sub'',
     Dir True
     [(''y.XLSX'', File (Source 512 (Inl ''not a workbook'')))]),
     (''ro'',
     Dir False [(''z.dta'', File (Source 2048 (Inr [7])))])]),
     (''out'',
     Dir True
     [(''x.parquet'', File (Parquet [1, 2, 3])),
     (''big'',
     Dir True [(''part-00000.parquet'', File (Parquet [4, 5, 6]))]),
     (''sub'', Dir True []),
     (''ro'', Dir True [(''z.parquet'', File (Parquet [7]))])])],
     calls =
     [Makedirs [''out''], Walk [''in''], Makedirs [''out'', ''.''],
     Getsize [''in'', ''x.csv''], ReadCsv [''in'', ''x.csv''] None,
     ToParquet [''out'', ''.'', ''x.parquet''] [1, 2, 3],
     Makedirs [''out'', ''.''], Getsize [''in'', ''big.csv''],
     Makedirs [''out'', ''.'', ''big''],
     ReadCsv [''in'', ''big.csv''] (Some 200000),
     ToParquet [''out'', ''.'', ''big'', ''part-00000.parquet'']
     [4, 5, 6],
     Listdir [''out'', ''.'', ''big''], Makedirs [''out'', ''sub''],
     ReadExcel [''in'', ''sub'', ''y.XLSX''], Makedirs [''out'', ''ro''],
     ReadStata [''in'', ''ro'', ''z.dta''],
     ToParquet [''out'', ''ro'', ''z.parquet''] [7]],
     stdout =
     [Converted [''in'', ''x.csv''] 1, Converted [''in'', ''big.csv''] 1,
     ConvertFailed [''in'', ''sub'', ''y.XLSX''] ''not a workbook'',
     Converted [''in'', ''ro'', ''z.dta''] 1]\<rparr>"
  by (simp add: sample_w3_def sample_w2_eq sample_files_def main_defs run_defs)

lemma sample_stage3:
  "convert_all [''in''] [''out''] sample_files [] sample_w2 = (Inr sample_summary, sample_w3)"
proof -
  have "fst (convert_all [''in''] [''out''] sample_files [] sample_w2) = Inr sample_summary"
    by (simp add: sample_w2_eq sample_files_def sample_summary_def main_defs run_defs)
  then show ?thesis by (simp add: sample_w3_def prod_eq_iff)
qed

lemma sample_input: "input_of args_delete NoTkinter = Some [''in'']"
  by (simp add: input_of_def args_delete_def)

lemma sample_output: "output_dir_of args_delete [''in''] = [''out'']"
  by (simp add: output_dir_of_def args_delete_def)

lemma normpath_in: "normpath [''in''] = [''in'']"
  by (simp add: normpath_def norm_step_def)

lemma sample_files_ne: "sample_files \<noteq> []"
  by (simp add: sample_files_def)

lemma sample_main: "main args_delete NoTkinter None sample_world = (Inr (), sample_end)"
proof -
  have "main args_delete NoTkinter None sample_world =
          finish args_delete None [''out''] sample_summary sample_w3"
    using main_after_loop [of args_delete NoTkinter "[''in'']" sample_world sample_w1
        sample_files sample_w2 sample_summary sample_w3 None]
    by (simp add: sample_input sample_output normpath_in sample_stage1 sample_stage2
          sample_stage3 sample_files_ne)
  moreover have "fst (finish args_delete None [''out''] sample_summary sample_w3) = Inr ()"
    by (simp add: sample_w3_eq sample_summary_def main_defs run_defs)
  ultimately show ?thesis by (simp add: sample_end_def prod_eq_iff)
qed

theorem deletion_attempts_every_file_witness:
  "input_of args_delete NoTkinter = Some [''in''] \<and>
   ensure_dir [''out''] sample_world = (Inr (), sample_w1) \<and>
   find_files [''in''] exts sample_w1 = (Inr sample_files, sample_w2) \<and>
   sample_files \<noteq> [] \<and>
   convert_all [''in''] [''out''] sample_files [] sample_w2 = (Inr sample_summary, sample_w3) \<and>
   arg_delete args_delete \<and>
   (\<exists>w'. main args_delete NoTkinter None sample_world = (Inr (), w') \<and>
      map fst sample_summary = sample_files \<and>
      new_calls sample_w3 w' = map Remove sample_files \<and>
      (\<forall>f \<in> set sample_files.
         lookup (fs w') (normpath f) = None \<or> (\<exists>m. DeleteFailed f m \<in> set (stdout w'))) \<and>
      (\<exists>pre. stdout w' = pre @
         [DeleteTried, SummaryHeader,
          SummaryLine (succ_count sample_summary) (fail_count sample_summary) [''out'']]))"
proof -
  have d: "arg_delete args_delete" by (simp add: args_delete_def)
  from deletion_attempts_every_file [of args_delete NoTkinter "[''in'']" sample_world sample_w1
      sample_files sample_w2 sample_summary sample_w3 None]
  have "\<exists>w'. main args_delete NoTkinter None sample_world = (Inr (), w') \<and>
      map fst sample_summary = sample_files \<and>
      new_calls sample_w3 w' = map Remove sample_files \<and>
      (\<forall>f \<in> set sample_files.
         lookup (fs w') (normpath f) = None \<or> (\<exists>m. DeleteFailed f m \<in> set (stdout w'))) \<and>
      (\<exists>pre. stdout w' = pre @
         [DeleteTried, SummaryHeader,
          SummaryLine (succ_count sample_summary) (fail_count sample_summary) [''out'']])"
    by (simp add: sample_input sample_output normpath_in sample_stage1 sample_stage2
          sample_stage3 sample_files_ne d)
  then show ?thesis
    using sample_input sample_stage1 sample_stage2 sample_stage3 sample_files_ne d by blast
qed

theorem summary_counts_witness:
  "input_of args_delete NoTkinter = Some [''in''] \<and>
   ensure_dir [''out''] sample_world = (Inr (), sample_w1) \<and>
   find_files [''in''] exts sample_w1 = (Inr sample_files, sample_w2) \<and>
   sample_files \<noteq> [] \<and>
   convert_all [''in''] [''out''] sample_files [] sample_w2 = (Inr sample_summary, sample_w3) \<and>
   main args_delete NoTkinter None sample_world = (Inr (), sample_end) \<and>
   (\<exists>pre. stdout sample_end = pre @ [SummaryHeader, SummaryLine 3 1 [''out'']]) \<and>
   (3::nat) + 1 = length sample_files"
proof -
  have c1: "length (filter (\<lambda>s. snd (snd s) = None) sample_summary) = 3"
    by (simp add: sample_summary_def)
  have c2: "length (filter (\<lambda>s. snd (snd s) \<noteq> None) sample_summary) = 1"
    by (simp add: sample_summary_def)
  from summary_counts [of args_delete NoTkinter "[''in'']" sample_world sample_w1
      sample_files sample_w2 sample_summary sample_w3 None "()" sample_end]
  have "(\<exists>pre. stdout sample_end = pre @ [SummaryHeader, SummaryLine 3 1 [''out'']]) \<and>
        (3::nat) + 1 = length sample_files"
    unfolding c1 c2
    by (simp add: sample_input sample_output normpath_in sample_stage1 sample_stage2
          sample_stage3 sample_files_ne sample_main)
  then show ?thesis
    using sample_input sample_stage1 sample_stage2 sample_stage3 sample_files_ne sample_main
    by blast
qed

lemma no_match_stage1: "ensure_dir [''out''] no_match_world = (Inr (), no_match_w1)"
  by (simp add: run_defs no_match_world_def no_match_tree_def no_match_w1_def)

lemma no_match_walk:
  "os_walk [''in''] (fs no_match_w1) = [([''in''], [], [''notes.txt'', ''.csv''])]"
  by (simp add: no_match_w1_def main_defs run_defs)

theorem no_files_clean_exit_witness:
  "input_of args_delete NoTkinter = Some [''in''] \<and>
   ensure_dir [''out''] no_match_world = (Inr (), no_match_w1) \<and>
   os_walk [''in''] (fs no_match_w1) = [([''in''], [], [''notes.txt'', ''.csv''])] \<and>
   lower (snd (splitext ''notes.txt'')) \<notin> set exts \<and>
   lower (snd (splitext ''.csv'')) \<notin> set exts \<and>
   main args_delete NoTkinter None no_match_world =
     (Inl (SystemExit 0),
      no_match_w1\<lparr>calls := calls no_match_w1 @ [Walk [''in'']],
                  stdout := stdout no_match_w1 @ [NoFilesFound]\<rparr>) \<and>
   calls no_match_w1 = calls no_match_world @ [Makedirs [''out'']]"
proof -
  have walk: "\<forall>(dirpath, dirnames, filenames) \<in> set (os_walk [''in''] (fs no_match_w1)).
      \<forall>f \<in> set filenames. lower (snd (splitext f)) \<notin> set exts"
    by (simp add: no_match_walk exts_def splitext_def lower_def lower_char_def)
  from no_files_clean_exit [of args_delete NoTkinter "[''in'']" no_match_world no_match_w1 None]
  have "main args_delete NoTkinter None no_match_world =
     (Inl (SystemExit 0),
      no_match_w1\<lparr>calls := calls no_match_w1 @ [Walk [''in'']],
                  stdout := stdout no_match_w1 @ [NoFilesFound]\<rparr>) \<and>
   calls no_match_w1 = calls no_match_world @ [Makedirs [''out'']]"
    using walk by (simp add: sample_input sample_output normpath_in no_match_stage1)
  moreover have "lower (snd (splitext ''notes.txt'')) \<notin> set exts"
    and "lower (snd (splitext ''.csv'')) \<notin> set exts"
    by (simp_all add: exts_def splitext_def lower_def lower_char_def)
  ultimately show ?thesis using sample_input no_match_stage1 no_match_walk by blast
qed

lemma args_sub_input: "input_of args_sub NoTkinter = Some [''in'']"
  by (simp add: input_of_def args_sub_def)

lemma args_sub_output: "output_dir_of args_sub [''in''] = [''out'', ''sub'']"
  by (simp add: output_dir_of_def args_sub_def)

lemma blocked_stage1:
  "ensure_dir [''out'', ''sub''] blocked_world =
     (Inl FileExistsError, blocked_world\<lparr>calls := [Makedirs [''out'', ''sub'']]\<rparr>)"
  by (simp add: run_defs blocked_world_def blocked_tree_def)

theorem output_dir_made_before_discovery_witness:
  "input_of args_delete NoTkinter = Some [''in''] \<and>
   ensure_dir [''out''] no_match_world = (Inr (), no_match_w1) \<and>
   fst (main args_delete NoTkinter None no_match_world) = Inl (SystemExit 0) \<and>
   is_dir (fs no_match_w1) [''out''] \<and>
   take 2 (new_calls no_match_world (snd (main args_delete NoTkinter None no_match_world)))
     = [Makedirs [''out''], Walk [''in'']] \<and>
   is_dir (fs (snd (main args_delete NoTkinter None no_match_world))) [''out''] \<and>
   input_of args_sub NoTkinter = Some [''in''] \<and>
   ensure_dir [''out'', ''sub''] blocked_world =
     (Inl FileExistsError, blocked_world\<lparr>calls := [Makedirs [''out'', ''sub'']]\<rparr>) \<and>
   fst (main args_sub NoTkinter None blocked_world) = Inl FileExistsError \<and>
   new_calls blocked_world (snd (main args_sub NoTkinter None blocked_world))
     = [Makedirs [''out'', ''sub'']]"
proof -
  have no: "normpath [''out''] = [''out'']" by (simp add: normpath_def norm_step_def)
  have exit: "fst (main args_delete NoTkinter None no_match_world) = Inl (SystemExit 0)"
    by (simp add: main_defs run_defs no_match_world_def no_match_tree_def)
  from output_dir_made_before_discovery [where stdin = None and w = no_match_world,
      OF sample_input prod.collapse [symmetric]]
  have a: "\<forall>w1. ensure_dir [''out''] no_match_world = (Inr (), w1) \<longrightarrow>
            (\<forall>q. prefix q [''out''] \<longrightarrow> is_dir (fs w1) q) \<and>
            take 2 (new_calls no_match_world
                (snd (main args_delete NoTkinter None no_match_world)))
              = [Makedirs [''out''], Walk [''in'']] \<and>
            is_dir (fs (snd (main args_delete NoTkinter None no_match_world))) [''out'']"
    by (simp add: sample_output normpath_in no)
  from a no_match_stage1
  have a': "is_dir (fs no_match_w1) [''out''] \<and>
            take 2 (new_calls no_match_world
                (snd (main args_delete NoTkinter None no_match_world)))
              = [Makedirs [''out''], Walk [''in'']] \<and>
            is_dir (fs (snd (main args_delete NoTkinter None no_match_world))) [''out'']"
    by blast
  from output_dir_made_before_discovery [where stdin = None and w = blocked_world,
      OF args_sub_input prod.collapse [symmetric]]
  have b: "\<forall>e w1. ensure_dir [''out'', ''sub''] blocked_world = (Inl e, w1) \<longrightarrow>
            fst (main args_sub NoTkinter None blocked_world) = Inl e \<and>
            new_calls blocked_world (snd (main args_sub NoTkinter None blocked_world))
              = [Makedirs [''out'', ''sub'']]"
    unfolding args_sub_output by blast
  from b blocked_stage1
  have b': "fst (main args_sub NoTkinter None blocked_world) = Inl FileExistsError \<and>
            new_calls blocked_world (snd (main args_sub NoTkinter None blocked_world))
              = [Makedirs [''out'', ''sub'']]"
    by blast
  from a' b' exit show ?thesis
    using sample_input no_match_stage1 args_sub_input blocked_stage1 by simp
qed

subsection \<open>Where the outputs of a file go\<close>

lemma rfind_dot_None: "CHR ''.'' \<notin> set e \<Longrightarrow> rfind_dot e = None"
  by (induction e) auto

lemma rfind_dot_ext: "CHR ''.'' \<notin> set e \<Longrightarrow> rfind_dot (c @ CHR ''.'' # e) = Some (length c)"
  by (induction c) (auto simp: rfind_dot_None)

lemma splitext_ext:
  "CHR ''.'' \<notin> set e \<Longrightarrow> \<exists>x \<in> set c. x \<noteq> CHR ''.'' \<Longrightarrow>
     splitext (c @ CHR ''.'' # e) = (c, CHR ''.'' # e)"
  by (simp add: splitext_def rfind_dot_ext)

lemma os_path_getsize_calls:
  "os_path_getsize p w = (r, w') \<Longrightarrow> calls w' = calls w @ [Getsize p]"
  by (auto simp: os_path_getsize_def log_call_def Let_def
      split: option.splits node.splits fdata.splits)

lemma pd_read_calls:
  "pd_read_csv p w = (r, w') \<Longrightarrow> calls w' = calls w @ [ReadCsv p None]"
  "pd_read_excel p w = (r, w') \<Longrightarrow> calls w' = calls w @ [ReadExcel p]"
  "pd_read_stata p w = (r, w') \<Longrightarrow> calls w' = calls w @ [ReadStata p]"
  by (auto simp: pd_read_csv_def pd_read_excel_def pd_read_stata_def log_call_def Let_def)

lemma pd_read_csv_chunks_calls:
  "pd_read_csv_chunks p n w = (r, w') \<Longrightarrow> calls w' = calls w @ [ReadCsv p (Some n)]"
  by (auto simp: pd_read_csv_chunks_def log_call_def Let_def split: if_splits sum.splits)

lemma os_listdir_calls:
  "os_listdir p w = (r, w') \<Longrightarrow> calls w' = calls w @ [Listdir p]"
  by (auto simp: os_listdir_def log_call_def Let_def split: option.splits node.splits)

lemma write_one_calls:
  "then_do (write_df_to_parquet df out) (\<lambda>u. return [out]) w = (r, w') \<Longrightarrow>
     calls w' = calls w @ [ToParquet out df]"
  by (auto simp: then_do_def write_df_to_parquet_def to_parquet_def return_def log_call_def
      Let_def split: sum.splits prod.splits)

text \<open>
  What a reader of a whole file has called when it is done: the read, and after a
  read that succeeded one write, to the file named after the input in the target
  directory.
\<close>

lemma process_excel_calls:
  assumes "process_excel path out_dir name w = (r, w')"
  shows "\<exists>cs. calls w' = calls w @ cs \<and> (\<forall>n. ReadCsv path n \<notin> set cs) \<and>
           (written cs = [] \<or> (\<exists>df. written cs = [(join out_dir [name @ ''.parquet''], df)]))"
proof -
  obtain rr w1 where rd: "pd_read_excel path w = (rr, w1)"
    by (cases "pd_read_excel path w") auto
  note c1 = pd_read_calls(2) [OF rd]
  show ?thesis
  proof (cases rr)
    case (Inl e)
    with assms rd have "w' = w1" by (simp add: process_excel_def then_do_def)
    with c1 show ?thesis by simp
  next
    case (Inr df)
    with assms rd have "then_do (write_df_to_parquet df (join out_dir [name @ ''.parquet'']))
        (\<lambda>u. return [join out_dir [name @ ''.parquet'']]) w1 = (r, w')"
      by (simp add: process_excel_def then_do_Inr Let_def)
    from write_one_calls [OF this] c1 show ?thesis by simp
  qed
qed

lemma process_dta_calls:
  assumes "process_dta path out_dir name w = (r, w')"
  shows "\<exists>cs. calls w' = calls w @ cs \<and> (\<forall>n. ReadCsv path n \<notin> set cs) \<and>
           (written cs = [] \<or> (\<exists>df. written cs = [(join out_dir [name @ ''.parquet''], df)]))"
proof -
  obtain rr w1 where rd: "pd_read_stata path w = (rr, w1)"
    by (cases "pd_read_stata path w") auto
  note c1 = pd_read_calls(3) [OF rd]
  show ?thesis
  proof (cases rr)
    case (Inl e)
    with assms rd have "w' = w1" by (simp add: process_dta_def then_do_def)
    with c1 show ?thesis by simp
  next
    case (Inr df)
    with assms rd have "then_do (write_df_to_parquet df (join out_dir [name @ ''.parquet'']))
        (\<lambda>u. return [join out_dir [name @ ''.parquet'']]) w1 = (r, w')"
      by (simp add: process_dta_def then_do_Inr Let_def)
    from write_one_calls [OF this] c1 show ?thesis by simp
  qed
qed

text \<open>
  The same for a CSV file, whatever is at its path: without a chunked read at most one
  write, to the file named after the input; with a chunked read only writes of parts in
  the directory named after the input.
\<close>

lemma process_csv_calls:
  assumes "process_csv path out_dir name n w = (r, w')"
  shows "\<exists>cs. calls w' = calls w @ cs \<and>
           (if ReadCsv path (Some n) \<in> set cs
            then \<exists>m fr. written cs =
                   map (\<lambda>i. (join (join out_dir [name]) [part_name i], fr ! i)) [0..<m]
            else written cs = [] \<or>
                 (\<exists>df. written cs = [(join out_dir [name @ ''.parquet''], df)]))"
proof -
  let ?pd = "join out_dir [name]"
  obtain rg w0 where gs: "os_path_getsize path w = (rg, w0)"
    by (cases "os_path_getsize path w") auto
  note c0 = os_path_getsize_calls [OF gs]
  show ?thesis
  proof (cases rg)
    case (Inl e)
    with assms gs have "w' = w0" by (simp add: process_csv_def then_do_def)
    with c0 show ?thesis by simp
  next
    case sz: (Inr sz)
    show ?thesis
    proof (cases "50 * 1024 * 1024 < sz")
      case False
      obtain rr w1 where rd: "pd_read_csv path w0 = (rr, w1)"
        by (cases "pd_read_csv path w0") auto
      note c1 = pd_read_calls(1) [OF rd]
      show ?thesis
      proof (cases rr)
        case (Inl e)
        with assms gs sz False rd have "w' = w1" by (simp add: process_csv_def then_do_def)
        with c0 c1 show ?thesis by simp
      next
        case (Inr df)
        with assms gs sz False rd
        have "then_do (write_df_to_parquet df (join out_dir [name @ ''.parquet'']))
            (\<lambda>u. return [join out_dir [name @ ''.parquet'']]) w1 = (r, w')"
          by (simp add: process_csv_def then_do_Inr Let_def)
        from write_one_calls [OF this] c0 c1 show ?thesis by simp
      qed
    next
      case True
      obtain rm w1 where mk: "os_makedirs ?pd w0 = (rm, w1)"
        by (cases "os_makedirs ?pd w0") auto
      from os_makedirs_result [OF mk] have c1: "calls w1 = calls w0 @ [Makedirs ?pd]" by simp
      have run1: "process_csv path out_dir name n w =
          then_do (ensure_dir ?pd) (\<lambda>u.
             then_do (pd_read_csv_chunks path n) (\<lambda>chunks.
             then_do (write_parts ?pd 0 chunks) (\<lambda>part.
             then_do (os_listdir ?pd) (\<lambda>names.
               return (map (\<lambda>f. join ?pd [f]) (sort names)))))) w0"
        using gs sz True by (simp add: process_csv_def then_do_Inr Let_def)
      show ?thesis
      proof (cases rm)
        case (Inl e)
        with assms run1 mk have "w' = w1" by (simp add: ensure_dir_def then_do_def)
        with c0 c1 show ?thesis by simp
      next
        case (Inr u)
        obtain rc w2 where rd: "pd_read_csv_chunks path n w1 = (rc, w2)"
          by (cases "pd_read_csv_chunks path n w1") auto
        note c2 = pd_read_csv_chunks_calls [OF rd]
        have run2: "process_csv path out_dir name n w =
            (case rc of Inl e \<Rightarrow> (Inl e, w2)
             | Inr chunks \<Rightarrow>
               then_do (write_parts ?pd 0 chunks) (\<lambda>part.
               then_do (os_listdir ?pd) (\<lambda>names.
                 return (map (\<lambda>f. join ?pd [f]) (sort names)))) w2)"
          using run1 mk Inr rd by (simp add: ensure_dir_def then_do_def split: sum.splits)
        show ?thesis
        proof (cases rc)
          case (Inl e)
          with assms run2 have "w' = w2" by simp
          with c0 c1 c2 show ?thesis by simp
        next
          case chunks: (Inr chunks)
          obtain rp w3 where wp: "write_parts ?pd 0 chunks w2 = (rp, w3)"
            by (cases "write_parts ?pd 0 chunks w2") auto
          from write_parts_calls [OF wp] obtain m where
            c3: "calls w3 = calls w2 @ map (\<lambda>i. ToParquet (join ?pd [part_name i]) (chunks ! i)) [0..<m]"
            by auto
          let ?ws = "map (\<lambda>i. ToParquet (join ?pd [part_name i]) (chunks ! i)) [0..<m]"
          have wr: "written ?ws = map (\<lambda>i. (join ?pd [part_name i], chunks ! i)) [0..<m]"
            by (rule written_ToParquets)
          show ?thesis
          proof (cases rp)
            case (Inl e)
            with assms run2 chunks wp have "w' = w3" by (simp add: then_do_def)
            with c0 c1 c2 c3 wr show ?thesis by auto
          next
            case (Inr k)
            obtain rl w4 where ld: "os_listdir ?pd w3 = (rl, w4)"
              by (cases "os_listdir ?pd w3") auto
            note c4 = os_listdir_calls [OF ld]
            from assms run2 chunks wp Inr ld have "w' = w4"
              by (auto simp: then_do_def return_def split: sum.splits)
            with c0 c1 c2 c3 c4 wr show ?thesis by auto
          qed
        qed
      qed
    qed
  qed
qed

lemma dispatch_calls:
  assumes "dispatch ext f t name w = (r, w')"
  shows "\<exists>cs. calls w' = calls w @ cs \<and>
           (if ReadCsv f (Some 200000) \<in> set cs
            then \<exists>m fr. written cs =
                   map (\<lambda>i. (join (join t [name]) [part_name i], fr ! i)) [0..<m]
            else written cs = [] \<or> (\<exists>df. written cs = [(join t [name @ ''.parquet''], df)]))"
proof -
  have d: "dispatch ext f t name w =
      (if ext = ''.csv'' then process_csv f t name 200000 w
       else if ext \<in> set [''.xlsx'', ''.xls''] then process_excel f t name w
       else if ext = ''.dta'' then process_dta f t name w
       else return [] w)"
    by (simp add: dispatch_def)
  show ?thesis
  proof (cases "ext = ''.csv''")
    case True
    with assms d have "process_csv f t name 200000 w = (r, w')" by simp
    from process_csv_calls [OF this] show ?thesis .
  next
    case csv: False
    show ?thesis
    proof (cases "ext \<in> set [''.xlsx'', ''.xls'']")
      case True
      with assms d csv have "process_excel f t name w = (r, w')" by simp
      from process_excel_calls [OF this] show ?thesis by auto
    next
      case xl: False
      show ?thesis
      proof (cases "ext = ''.dta''")
        case True
        with assms d csv xl have "process_dta f t name w = (r, w')" by simp
        from process_dta_calls [OF this] show ?thesis by auto
      next
        case False
        with assms d csv xl have "w' = w" by (simp add: return_def)
        then show ?thesis by simp
      qed
    qed
  qed
qed


lemma os_makedirs_existing:
  "is_dir (fs w) (normpath p) \<Longrightarrow>
     fst (os_makedirs p w) = Inr () \<and> fs (snd (os_makedirs p w)) = fs w"
  by (simp add: os_makedirs_def Let_def makedirs_idem)

lemma target_dir_under:
  assumes "normal input_dir" and "normal rel" and "f = join (join input_dir rel) [fname]"
  shows "target_dir_of input_dir output_dir f =
           join output_dir (if rel = [] then [''.''] else rel)"
    and "normpath (target_dir_of input_dir output_dir f) = normpath output_dir @ rel"
proof -
  have d: "dirname f = input_dir @ rel"
    using assms(3) by (simp add: dirname_def join_def butlast_append)
  show t: "target_dir_of input_dir output_dir f =
           join output_dir (if rel = [] then [''.''] else rel)"
    using relpath_under [OF assms(1,2)] by (simp add: target_dir_of_def d)
  show "normpath (target_dir_of input_dir output_dir f) = normpath output_dir @ rel"
  proof (cases "rel = []")
    case True
    with normpath_dot [of output_dir "[]"] show ?thesis by (simp add: t join_def)
  next
    case False
    with normpath_append_normal [OF assms(2), of output_dir] show ?thesis
      by (simp add: t join_def)
  qed
qed

lemma makedirs_file_old:
  "makedirs p t = Inr t' \<Longrightarrow> lookup t' q = Some (File d) \<Longrightarrow> lookup t q = Some (File d)"
proof (induction p t arbitrary: t' q rule: makedirs.induct)
  case (4 c cs wr es)
  show ?case
  proof (cases "map_of es c")
    case None
    with 4(3) obtain n' where mk: "makedirs cs (Dir True []) = Inr n'"
      and wr: "wr" and t': "t' = Dir wr (AList.update c n' es)"
      by (auto split: sum.splits if_splits)
    from 4(4) t' obtain c' q' where q: "q = c' # q'" by (cases q) auto
    show ?thesis
    proof (cases "c' = c")
      case True
      with 4(4) have "lookup n' q' = Some (File d)" by (simp add: q t' update_conv')
      from 4(1) [OF None _ mk this] wr have "lookup (Dir True []) q' = Some (File d)" by simp
      then show ?thesis by (cases q') auto
    next
      case False
      with 4(4) show ?thesis by (simp add: q t' update_conv')
    qed
  next
    case (Some n)
    with 4(3) obtain n' where mk: "makedirs cs n = Inr n'"
      and t': "t' = Dir wr (AList.update c n' es)"
      by (auto split: sum.splits)
    from 4(4) t' obtain c' q' where q: "q = c' # q'" by (cases q) auto
    show ?thesis
    proof (cases "c' = c")
      case True
      with 4(4) have "lookup n' q' = Some (File d)" by (simp add: q t' update_conv')
      from 4(2) [OF Some mk this] show ?thesis by (simp add: q True Some)
    next
      case False
      with 4(4) show ?thesis by (simp add: q t' update_conv')
    qed
  qed
qed (auto)

lemma read_table_Inr:
  "read_table p t = Inr rows \<longleftrightarrow>
     (\<exists>n. lookup t (normpath p) = Some (File (Source n (Inr rows))))"
  by (auto simp: read_table_def split: option.splits node.splits fdata.splits sum.splits)

lemma read_table_before_makedirs:
  "makedirs p t = Inr t' \<Longrightarrow> read_table f t' = Inr rows \<Longrightarrow> read_table f t = Inr rows"
  unfolding read_table_Inr by (blast dest: makedirs_file_old)

lemma lookup_snoc:
  "lookup t (p @ [c]) =
     (case lookup t p of Some (Dir wr es) \<Rightarrow> map_of es c | _ \<Rightarrow> None)"
proof (induction t p rule: lookup.induct)
  case (1 n)
  then show ?case by (cases n) (auto split: option.splits)
next
  case (2 d c' cs)
  then show ?case by simp
next
  case (3 wr es c' cs)
  then show ?case by (auto split: option.splits)
qed

text \<open>A whole table written to one file: the result, the call and the file on disk.\<close>

lemma write_one_ok:
  assumes "then_do (write_df_to_parquet df out) (\<lambda>u. return [out]) w = (Inr outs, w')"
  shows "outs = [out]" and "calls w' = calls w @ [ToParquet out df]"
    and "parquet_rows (fs w') out = Some df"
proof -
  obtain r1 w1 where tp: "to_parquet df out w = (r1, w1)" by (cases "to_parquet df out w") auto
  with assms obtain u where r1: "r1 = Inr u" and o: "outs = [out]" and w': "w' = w1"
    by (cases r1) (auto simp: then_do_def write_df_to_parquet_def return_def)
  note res = to_parquet_result [OF tp]
  show "outs = [out]" by (rule o)
  show "calls w' = calls w @ [ToParquet out df]" using res w' by simp
  from res r1 have "write_node (normpath out) (Parquet df) (fs w) = Inr (fs w1)" by simp
  from write_node_lookup [OF this] show "parquet_rows (fs w') out = Some df"
    by (simp add: parquet_rows_def w')
qed

lemma process_excel_ok:
  assumes "process_excel path out_dir name w = (Inr outs, w')"
  shows "\<exists>rows. read_table path (fs w) = Inr rows \<and>
           outs = [join out_dir [name @ ''.parquet'']] \<and>
           new_calls w w' = [ReadExcel path, ToParquet (join out_dir [name @ ''.parquet'']) rows] \<and>
           parquet_rows (fs w') (join out_dir [name @ ''.parquet'']) = Some rows"
proof -
  let ?out = "join out_dir [name @ ''.parquet'']"
  let ?w1 = "log_call (ReadExcel path) w"
  have rd: "pd_read_excel path w = (read_table path (fs w), ?w1)"
    by (simp add: pd_read_excel_def Let_def)
  with assms obtain rows where rows: "read_table path (fs w) = Inr rows"
    by (cases "read_table path (fs w)") (auto simp: process_excel_def then_do_def)
  with assms rd have "then_do (write_df_to_parquet rows ?out) (\<lambda>u. return [?out]) ?w1 =
      (Inr outs, w')"
    by (simp add: process_excel_def then_do_def Let_def)
  from write_one_ok [OF this] rows show ?thesis
    by (simp add: new_calls_def log_call_def)
qed

lemma process_dta_ok:
  assumes "process_dta path out_dir name w = (Inr outs, w')"
  shows "\<exists>rows. read_table path (fs w) = Inr rows \<and>
           outs = [join out_dir [name @ ''.parquet'']] \<and>
           new_calls w w' = [ReadStata path, ToParquet (join out_dir [name @ ''.parquet'']) rows] \<and>
           parquet_rows (fs w') (join out_dir [name @ ''.parquet'']) = Some rows"
proof -
  let ?out = "join out_dir [name @ ''.parquet'']"
  let ?w1 = "log_call (ReadStata path) w"
  have rd: "pd_read_stata path w = (read_table path (fs w), ?w1)"
    by (simp add: pd_read_stata_def Let_def)
  with assms obtain rows where rows: "read_table path (fs w) = Inr rows"
    by (cases "read_table path (fs w)") (auto simp: process_dta_def then_do_def)
  with assms rd have "then_do (write_df_to_parquet rows ?out) (\<lambda>u. return [?out]) ?w1 =
      (Inr outs, w')"
    by (simp add: process_dta_def then_do_def Let_def)
  from write_one_ok [OF this] rows show ?thesis
    by (simp add: new_calls_def log_call_def)
qed

text \<open>A CSV conversion that returns has read a table at its path.\<close>

lemma process_csv_source:
  assumes "process_csv path out_dir name n w = (Inr outs, w')"
  shows "\<exists>sz rows. lookup (fs w) (normpath path) = Some (File (Source sz (Inr rows)))"
proof -
  obtain rg w0 where gs: "os_path_getsize path w = (rg, w0)"
    by (cases "os_path_getsize path w") auto
  then have w0: "fs w0 = fs w"
    by (auto simp: os_path_getsize_def Let_def split: option.splits node.splits fdata.splits)
  from assms gs obtain sz where sz: "rg = Inr sz"
    by (cases rg) (auto simp: process_csv_def then_do_def)
  show ?thesis
  proof (cases "50 * 1024 * 1024 < sz")
    case False
    have rd: "pd_read_csv path w0 = (read_table path (fs w), log_call (ReadCsv path None) w0)"
      by (simp add: pd_read_csv_def Let_def w0)
    with assms gs sz False obtain rows where "read_table path (fs w) = Inr rows"
      by (cases "read_table path (fs w)") (auto simp: process_csv_def then_do_def)
    then show ?thesis unfolding read_table_Inr by blast
  next
    case True
    let ?pd = "join out_dir [name]"
    obtain rm w1 where mk: "os_makedirs ?pd w0 = (rm, w1)" by (cases "os_makedirs ?pd w0") auto
    have run1: "process_csv path out_dir name n w =
        then_do (ensure_dir ?pd) (\<lambda>u.
           then_do (pd_read_csv_chunks path n) (\<lambda>chunks.
           then_do (write_parts ?pd 0 chunks) (\<lambda>part.
           then_do (os_listdir ?pd) (\<lambda>names.
             return (map (\<lambda>f. join ?pd [f]) (sort names)))))) w0"
      using gs sz True by (simp add: process_csv_def then_do_Inr Let_def)
    with assms mk obtain u where rm: "rm = Inr u"
      by (cases rm) (auto simp: ensure_dir_def then_do_def)
    from os_makedirs_result [OF mk] rm
    have m: "makedirs (normpath ?pd) (fs w) = Inr (fs w1)" by (simp add: w0)
    obtain rc w2 where rd: "pd_read_csv_chunks path n w1 = (rc, w2)"
      by (cases "pd_read_csv_chunks path n w1") auto
    with assms run1 mk rm obtain chunks where "rc = Inr chunks"
      by (cases rc) (auto simp: ensure_dir_def then_do_def)
    with rd obtain rows where "read_table path (fs w1) = Inr rows"
      by (auto simp: pd_read_csv_chunks_def Let_def split: if_splits sum.splits)
    from read_table_before_makedirs [OF m this] show ?thesis
      unfolding read_table_Inr by blast
  qed
qed


lemma csv_frames_nonempty: "0 < n \<Longrightarrow> csv_frames n rows \<noteq> []"
  by (simp add: csv_frames_def chunks_of.simps [of n rows])

text \<open>
  A CSV conversion that returns: the table it has read, and either the one file
  written from it or its parts, written, on disk and in the result.
\<close>

lemma process_csv_ok:
  assumes ok: "process_csv path out_dir name n w = (Inr outs, w')" and n: "0 < n"
  shows "\<exists>rows. read_table path (fs w) = Inr rows \<and>
     (if ReadCsv path (Some n) \<in> set (new_calls w w')
      then written (new_calls w w') =
             map (\<lambda>k. (join (join out_dir [name]) [part_name k], csv_frames n rows ! k))
               [0..<length (csv_frames n rows)] \<and>
           0 < length (csv_frames n rows) \<and>
           (\<forall>k < length (csv_frames n rows).
              join (join out_dir [name]) [part_name k] \<in> set outs \<and>
              parquet_rows (fs w') (join (join out_dir [name]) [part_name k]) =
                Some (csv_frames n rows ! k)) \<and>
           (\<forall>p \<in> set outs. \<exists>c. p = join (join out_dir [name]) [c])
      else outs = [join out_dir [name @ ''.parquet'']] \<and>
           written (new_calls w w') = [(join out_dir [name @ ''.parquet''], rows)] \<and>
           parquet_rows (fs w') (join out_dir [name @ ''.parquet'']) = Some rows)"
proof -
  let ?pd = "join out_dir [name]"
  let ?out = "join out_dir [name @ ''.parquet'']"
  from process_csv_source [OF ok] obtain sz rows
    where lk: "lookup (fs w) (normpath path) = Some (File (Source sz (Inr rows)))"
    by blast
  let ?fr = "csv_frames n rows"
  have rt: "read_table path (fs w) = Inr rows" using read_table_file [OF lk] by simp
  show ?thesis
  proof (cases "50 * 1024 * 1024 < sz")
    case False
    then have le: "sz \<le> 50 * 1024 * 1024" by simp
    note wh = process_csv_whole [OF lk le ok]
    from wh(1) have nc: "new_calls w w' = [Getsize path, ReadCsv path None, ToParquet ?out rows]"
      by (simp add: new_calls_append)
    from wh(3) [OF refl] have o: "outs = [?out]"
      and wn: "write_node (normpath ?out) (Parquet rows) (fs w) = Inr (fs w')"
      by simp_all
    from write_node_lookup [OF wn] have "parquet_rows (fs w') ?out = Some rows"
      by (simp add: parquet_rows_def)
    with rt nc o show ?thesis by auto
  next
    case True
    from process_csv_chunked_calls [OF lk True n ok]
    have wr: "written (new_calls w w') =
        map (\<lambda>k. (join ?pd [part_name k], ?fr ! k)) [0..<length ?fr]"
      and rd: "reads (new_calls w w') = [ReadCsv path (Some n)]"
      by auto
    from rd have "ReadCsv path (Some n) \<in> set (reads (new_calls w w'))" by simp
    then have mem: "ReadCsv path (Some n) \<in> set (new_calls w w')" by (simp add: reads_def)
    from process_csv_chunked_ok [OF lk True n ok refl]
    obtain w2 j w3 names where wp: "write_parts ?pd 0 ?fr w2 = (Inr j, w3)"
      and ls: "os_listdir ?pd w3 = (Inr names, w')"
      and o: "outs = map (\<lambda>f. join ?pd [f]) (sort names)"
      by blast
    from os_listdir_result [OF ls] obtain wr' es
      where d: "lookup (fs w3) (normpath ?pd) = Some (Dir wr' es)" and names: "names = map fst es"
      by auto
    have parts: "join ?pd [part_name k] \<in> set outs \<and>
        parquet_rows (fs w') (join ?pd [part_name k]) = Some (?fr ! k)"
      if k: "k < length ?fr" for k
    proof
      from write_parts_fs [OF wp k]
      have "lookup (fs w3) (normpath ?pd @ [part_name k]) = Some (File (Parquet (?fr ! k)))"
        by (simp add: part_path_normpath)
      with d have "map_of es (part_name k) = Some (File (Parquet (?fr ! k)))"
        by (simp add: lookup_snoc)
      then have "part_name k \<in> set names" unfolding names by (force dest: map_of_SomeD)
      then show "join ?pd [part_name k] \<in> set outs" by (simp add: o)
      show "parquet_rows (fs w') (join ?pd [part_name k]) = Some (?fr ! k)"
        by (rule process_csv_chunked_disk [OF lk True n ok k])
    qed
    have inside: "\<forall>p \<in> set outs. \<exists>c. p = join ?pd [c]" by (auto simp: o)
    from csv_frames_nonempty [OF n] have "0 < length ?fr" by simp
    with rt mem wr parts inside show ?thesis by auto
  qed
qed

text \<open>The same for the reader chosen by an extension of \<open>exts\<close>.\<close>

lemma dispatch_ok:
  assumes "dispatch ext f t name w = (Inr outs, w')" and "ext \<in> set exts"
  shows "\<exists>rows. read_table f (fs w) = Inr rows \<and>
     (if ReadCsv f (Some 200000) \<in> set (new_calls w w')
      then written (new_calls w w') =
             map (\<lambda>k. (join (join t [name]) [part_name k], csv_frames 200000 rows ! k))
               [0..<length (csv_frames 200000 rows)] \<and>
           0 < length (csv_frames 200000 rows) \<and>
           (\<forall>k < length (csv_frames 200000 rows).
              join (join t [name]) [part_name k] \<in> set outs \<and>
              parquet_rows (fs w') (join (join t [name]) [part_name k]) =
                Some (csv_frames 200000 rows ! k)) \<and>
           (\<forall>p \<in> set outs. \<exists>c. p = join (join t [name]) [c])
      else outs = [join t [name @ ''.parquet'']] \<and>
           written (new_calls w w') = [(join t [name @ ''.parquet''], rows)] \<and>
           parquet_rows (fs w') (join t [name @ ''.parquet'']) = Some rows)"
proof -
  have d: "dispatch ext f t name w =
      (if ext = ''.csv'' then process_csv f t name 200000 w
       else if ext \<in> set [''.xlsx'', ''.xls''] then process_excel f t name w
       else if ext = ''.dta'' then process_dta f t name w
       else return [] w)"
    by (simp add: dispatch_def)
  show ?thesis
  proof (cases "ext = ''.csv''")
    case True
    with assms(1) d have "process_csv f t name 200000 w = (Inr outs, w')" by simp
    from process_csv_ok [OF this] show ?thesis by simp
  next
    case csv: False
    show ?thesis
    proof (cases "ext \<in> set [''.xlsx'', ''.xls'']")
      case True
      with assms(1) d csv have "process_excel f t name w = (Inr outs, w')" by simp
      from process_excel_ok [OF this] show ?thesis by auto
    next
      case False
      with assms(2) csv have "ext = ''.dta''" by (simp add: exts_def)
      with assms(1) d have "process_dta f t name w = (Inr outs, w')" by simp
      from process_dta_ok [OF this] show ?thesis by auto
    qed
  qed
qed

text \<open>
  C3. The file \<open>fname\<close> in the directory \<open>rel\<close> below the input directory. Its target
  directory is the output directory followed by \<open>rel\<close> (by \<open>.\<close> for a file of the
  input directory itself), which names the directory \<open>rel\<close> below the output
  directory; for a file name \<open>c.e\<close> the name used for the output is \<open>c\<close>. The pass
  first makes the target directory. What it writes afterwards is, without a chunked
  read, at most one file, \<open>name.parquet\<close> in the target directory, and with a chunked
  read only part files in the directory \<open>name\<close> of the target directory. If the
  target directory cannot be made nothing is written; if it is made, it and all its
  ancestors are directories from then on, and making it again succeeds and changes
  nothing, as does making a target directory that exists already. When the outcome
  recorded for a file with one of the four extensions is a success, the file held a
  table; without a chunked read the outcome lists the one file \<open>name.parquet\<close> in
  the target directory, which was written with the rows of the table and holds them
  on disk; with a chunked read the parts written are the frames of the table, in
  order, to the part names 0, 1, ... in the directory \<open>name\<close> of the target
  directory, there is at least one, each of them holds its frame on disk and is
  listed in the outcome, and everything the outcome lists is in that directory.
\<close>

theorem mirrored_output_layout:
  fixes w :: "'a world"
  assumes "normal input_dir" and "normal rel"
    and "f = join (join input_dir rel) [fname]"
    and "convert_one input_dir output_dir f summary w = (r, w')"
  shows "target_dir_of input_dir output_dir f =
           join output_dir (if rel = [] then [''.''] else rel)
       \<and> normpath (target_dir_of input_dir output_dir f) = normpath output_dir @ rel
       \<and> (\<forall>c e. fname = c @ CHR ''.'' # e \<and> CHR ''.'' \<notin> set e \<and> (\<exists>x \<in> set c. x \<noteq> CHR ''.'')
             \<longrightarrow> name_of f = c)
       \<and> take 1 (new_calls w w') = [Makedirs (target_dir_of input_dir output_dir f)]
       \<and> (\<forall>(p, df) \<in> set (written (new_calls w w')).
            if ReadCsv f (Some 200000) \<in> set (new_calls w w')
            then \<exists>k. p = join (join (target_dir_of input_dir output_dir f) [name_of f])
                            [part_name k]
            else p = join (target_dir_of input_dir output_dir f) [name_of f @ ''.parquet''])
       \<and> (ReadCsv f (Some 200000) \<notin> set (new_calls w w') \<longrightarrow>
            length (written (new_calls w w')) \<le> 1)
       \<and> (\<forall>e w1. ensure_dir (target_dir_of input_dir output_dir f) w = (Inl e, w1) \<longrightarrow>
            r = Inl e \<and> written (new_calls w w') = [])
       \<and> (\<forall>w1. ensure_dir (target_dir_of input_dir output_dir f) w = (Inr (), w1) \<longrightarrow>
            (\<forall>q. prefix q (normpath (target_dir_of input_dir output_dir f)) \<longrightarrow>
               is_dir (fs w1) q \<and> is_dir (fs w') q) \<and>
            fst (ensure_dir (target_dir_of input_dir output_dir f) w1) = Inr () \<and>
            fs (snd (ensure_dir (target_dir_of input_dir output_dir f) w1)) = fs w1)
       \<and> (is_dir (fs w) (normpath (target_dir_of input_dir output_dir f)) \<longrightarrow>
            fst (ensure_dir (target_dir_of input_dir output_dir f) w) = Inr () \<and>
            fs (snd (ensure_dir (target_dir_of input_dir output_dir f) w)) = fs w \<and>
            (\<exists>s. r = Inr s))
       \<and> (\<forall>outs. r = Inr (summary @ [(f, outs, None)]) \<and> ext_of f \<in> set exts \<longrightarrow>
            (\<exists>rows. read_table f (fs w) = Inr rows \<and>
               (if ReadCsv f (Some 200000) \<in> set (new_calls w w')
                then written (new_calls w w') =
                       map (\<lambda>k. (join (join (target_dir_of input_dir output_dir f)
                                          [name_of f]) [part_name k],
                                  csv_frames 200000 rows ! k))
                         [0..<length (csv_frames 200000 rows)] \<and>
                     0 < length (csv_frames 200000 rows) \<and>
                     (\<forall>k < length (csv_frames 200000 rows).
                        join (join (target_dir_of input_dir output_dir f) [name_of f])
                          [part_name k] \<in> set outs \<and>
                        parquet_rows (fs w')
                          (join (join (target_dir_of input_dir output_dir f) [name_of f])
                             [part_name k]) = Some (csv_frames 200000 rows ! k)) \<and>
                     (\<forall>p \<in> set outs.
                        \<exists>c. p = join (join (target_dir_of input_dir output_dir f)
                                         [name_of f]) [c])
                else outs = [join (target_dir_of input_dir output_dir f)
                                [name_of f @ ''.parquet'']] \<and>
                     written (new_calls w w') =
                       [(join (target_dir_of input_dir output_dir f)
                           [name_of f @ ''.parquet''], rows)] \<and>
                     parquet_rows (fs w')
                       (join (target_dir_of input_dir output_dir f)
                          [name_of f @ ''.parquet'']) = Some rows)))"
proof -
  let ?T = "target_dir_of input_dir output_dir f"
  let ?name = "name_of f"
  have base: "basename f = fname" using assms(3) by (simp add: basename_def join_def)
  have nm: "\<forall>c e. fname = c @ CHR ''.'' # e \<and> CHR ''.'' \<notin> set e \<and> (\<exists>x \<in> set c. x \<noteq> CHR ''.'')
             \<longrightarrow> ?name = c"
    by (auto simp: name_of_def base splitext_ext)
  from convert_one_result [OF assms(4)]
  consider (failed) e where "os_makedirs ?T w = (Inl e, w')" and "r = Inl e"
    | (made) w1 rd w2 entry where "os_makedirs ?T w = (Inr (), w1)"
        and "dispatch (ext_of f) f ?T ?name w1 = (rd, w2)"
        and "r = Inr (summary @ [entry])" and "fs w' = fs w2" and "calls w' = calls w2"
    by blast
  then have shape: "\<exists>cs. new_calls w w' = Makedirs ?T # cs \<and>
      (if ReadCsv f (Some 200000) \<in> set cs
       then \<exists>m fr. written cs =
              map (\<lambda>i. (join (join ?T [?name]) [part_name i], fr ! i)) [0..<m]
       else written cs = [] \<or> (\<exists>df. written cs = [(join ?T [?name @ ''.parquet''], df)])) \<and>
      (\<forall>e w1. os_makedirs ?T w = (Inl e, w1) \<longrightarrow> r = Inl e \<and> cs = []) \<and>
      (\<forall>w1. os_makedirs ?T w = (Inr (), w1) \<longrightarrow>
          (\<forall>q. is_dir (fs w1) q \<longrightarrow> is_dir (fs w') q)) \<and>
      (fst (os_makedirs ?T w) = Inr () \<longrightarrow> (\<exists>s. r = Inr s))"
  proof cases
    case failed
    note mk = failed(1) and r = failed(2)
    from os_makedirs_result [OF mk] have "new_calls w w' = [Makedirs ?T]"
      by (simp add: new_calls_append)
    with mk r show ?thesis by simp
  next
    case made
    note mk = made(1) and dp = made(2) and r = made(3) and fs' = made(4) and calls' = made(5)
    from os_makedirs_result [OF mk] have c1: "calls w1 = calls w @ [Makedirs ?T]" by simp
    from dispatch_calls [OF dp] obtain cs where c2: "calls w2 = calls w1 @ cs"
      and sh: "if ReadCsv f (Some 200000) \<in> set cs
         then \<exists>m fr. written cs =
                map (\<lambda>i. (join (join ?T [?name]) [part_name i], fr ! i)) [0..<m]
         else written cs = [] \<or> (\<exists>df. written cs = [(join ?T [?name @ ''.parquet''], df)])"
      by blast
    have nc: "new_calls w w' = Makedirs ?T # cs"
      using c1 c2 calls' by (simp add: new_calls_append)
    from steadyD [OF steady_dispatch dp] have "\<forall>q. is_dir (fs w1) q \<longrightarrow> is_dir (fs w') q"
      by (simp add: grows_def fs' is_dir_def)
    with nc sh mk r show ?thesis by auto
  qed
  then obtain cs where nc: "new_calls w w' = Makedirs ?T # cs"
    and sh: "if ReadCsv f (Some 200000) \<in> set cs
       then \<exists>m fr. written cs =
              map (\<lambda>i. (join (join ?T [?name]) [part_name i], fr ! i)) [0..<m]
       else written cs = [] \<or> (\<exists>df. written cs = [(join ?T [?name @ ''.parquet''], df)])"
    and fail: "\<forall>e w1. os_makedirs ?T w = (Inl e, w1) \<longrightarrow> r = Inl e \<and> cs = []"
    and keep: "\<forall>w1. os_makedirs ?T w = (Inr (), w1) \<longrightarrow>
          (\<forall>q. is_dir (fs w1) q \<longrightarrow> is_dir (fs w') q)"
    and ok: "fst (os_makedirs ?T w) = Inr () \<longrightarrow> (\<exists>s. r = Inr s)"
    by blast
  have mem: "ReadCsv f (Some 200000) \<in> set (new_calls w w') \<longleftrightarrow> ReadCsv f (Some 200000) \<in> set cs"
    by (simp add: nc)
  have wr: "written (new_calls w w') = written cs" by (simp add: nc)
  have c4: "take 1 (new_calls w w') = [Makedirs ?T]" by (simp add: nc)
  have c5: "\<forall>(p, df) \<in> set (written (new_calls w w')).
            if ReadCsv f (Some 200000) \<in> set (new_calls w w')
            then \<exists>k. p = join (join ?T [?name]) [part_name k]
            else p = join ?T [?name @ ''.parquet'']"
    unfolding mem wr using sh by (auto split: if_splits)
  have c6: "ReadCsv f (Some 200000) \<notin> set (new_calls w w') \<longrightarrow>
            length (written (new_calls w w')) \<le> 1"
    unfolding mem wr using sh by (auto split: if_splits)
  have c7: "\<forall>e w1. ensure_dir ?T w = (Inl e, w1) \<longrightarrow> r = Inl e \<and> written (new_calls w w') = []"
    unfolding wr ensure_dir_def using fail by auto
  have c8: "\<forall>w1. ensure_dir ?T w = (Inr (), w1) \<longrightarrow>
            (\<forall>q. prefix q (normpath ?T) \<longrightarrow> is_dir (fs w1) q \<and> is_dir (fs w') q) \<and>
            fst (ensure_dir ?T w1) = Inr () \<and> fs (snd (ensure_dir ?T w1)) = fs w1"
  proof (intro allI impI)
    fix w1
    assume "ensure_dir ?T w = (Inr (), w1)"
    then have mk: "os_makedirs ?T w = (Inr (), w1)" by (simp add: ensure_dir_def)
    from os_makedirs_result [OF mk] have m: "makedirs (normpath ?T) (fs w) = Inr (fs w1)"
      by simp
    have d1: "is_dir (fs w1) q" if "prefix q (normpath ?T)" for q
      using makedirs_is_dir [OF m that] .
    then have "is_dir (fs w1) (normpath ?T)" by simp
    from os_makedirs_existing [OF this] d1 keep mk
    show "(\<forall>q. prefix q (normpath ?T) \<longrightarrow> is_dir (fs w1) q \<and> is_dir (fs w') q) \<and>
            fst (ensure_dir ?T w1) = Inr () \<and> fs (snd (ensure_dir ?T w1)) = fs w1"
      by (simp add: ensure_dir_def)
  qed
  have c9: "is_dir (fs w) (normpath ?T) \<longrightarrow>
            fst (ensure_dir ?T w) = Inr () \<and> fs (snd (ensure_dir ?T w)) = fs w \<and>
            (\<exists>s. r = Inr s)"
    using os_makedirs_existing [of w ?T] ok by (simp add: ensure_dir_def)
  have c10: "\<forall>outs. r = Inr (summary @ [(f, outs, None)]) \<and> ext_of f \<in> set exts \<longrightarrow>
            (\<exists>rows. read_table f (fs w) = Inr rows \<and>
               (if ReadCsv f (Some 200000) \<in> set (new_calls w w')
                then written (new_calls w w') =
                       map (\<lambda>k. (join (join ?T [?name]) [part_name k],
                                  csv_frames 200000 rows ! k))
                         [0..<length (csv_frames 200000 rows)] \<and>
                     0 < length (csv_frames 200000 rows) \<and>
                     (\<forall>k < length (csv_frames 200000 rows).
                        join (join ?T [?name]) [part_name k] \<in> set outs \<and>
                        parquet_rows (fs w') (join (join ?T [?name]) [part_name k]) =
                          Some (csv_frames 200000 rows ! k)) \<and>
                     (\<forall>p \<in> set outs. \<exists>c. p = join (join ?T [?name]) [c])
                else outs = [join ?T [?name @ ''.parquet'']] \<and>
                     written (new_calls w w') = [(join ?T [?name @ ''.parquet''], rows)] \<and>
                     parquet_rows (fs w') (join ?T [?name @ ''.parquet'']) = Some rows))"
  proof (intro allI impI, elim conjE)
    fix outs
    assume r: "r = Inr (summary @ [(f, outs, None)])" and ext: "ext_of f \<in> set exts"
    from convert_one_result [OF assms(4)] r
    obtain w1 w2 where mk: "os_makedirs ?T w = (Inr (), w1)"
      and dp: "dispatch (ext_of f) f ?T ?name w1 = (Inr outs, w2)"
      and fs': "fs w' = fs w2" and calls': "calls w' = calls w2"
      by auto
    from os_makedirs_result [OF mk] have c1: "calls w1 = calls w @ [Makedirs ?T]"
      and m: "makedirs (normpath ?T) (fs w) = Inr (fs w1)"
      by simp_all
    from dispatch_calls [OF dp] obtain ds where c2: "calls w2 = calls w1 @ ds" by blast
    have nc': "new_calls w w' = Makedirs ?T # new_calls w1 w2"
      using c1 c2 calls' by (simp add: new_calls_def)
    have mem2: "ReadCsv f (Some 200000) \<in> set (new_calls w w') \<longleftrightarrow>
        ReadCsv f (Some 200000) \<in> set (new_calls w1 w2)"
      by (simp add: nc')
    have wr2: "written (new_calls w w') = written (new_calls w1 w2)" by (simp add: nc')
    from dispatch_ok [OF dp ext] obtain rows where rt1: "read_table f (fs w1) = Inr rows"
      and body: "if ReadCsv f (Some 200000) \<in> set (new_calls w1 w2)
          then written (new_calls w1 w2) =
                 map (\<lambda>k. (join (join ?T [?name]) [part_name k], csv_frames 200000 rows ! k))
                   [0..<length (csv_frames 200000 rows)] \<and>
               0 < length (csv_frames 200000 rows) \<and>
               (\<forall>k < length (csv_frames 200000 rows).
                  join (join ?T [?name]) [part_name k] \<in> set outs \<and>
                  parquet_rows (fs w2) (join (join ?T [?name]) [part_name k]) =
                    Some (csv_frames 200000 rows ! k)) \<and>
               (\<forall>p \<in> set outs. \<exists>c. p = join (join ?T [?name]) [c])
          else outs = [join ?T [?name @ ''.parquet'']] \<and>
               written (new_calls w1 w2) = [(join ?T [?name @ ''.parquet''], rows)] \<and>
               parquet_rows (fs w2) (join ?T [?name @ ''.parquet'']) = Some rows"
      by blast
    have rt: "read_table f (fs w) = Inr rows" by (rule read_table_before_makedirs [OF m rt1])
    show "\<exists>rows. read_table f (fs w) = Inr rows \<and>
               (if ReadCsv f (Some 200000) \<in> set (new_calls w w')
                then written (new_calls w w') =
                       map (\<lambda>k. (join (join ?T [?name]) [part_name k],
                                  csv_frames 200000 rows ! k))
                         [0..<length (csv_frames 200000 rows)] \<and>
                     0 < length (csv_frames 200000 rows) \<and>
                     (\<forall>k < length (csv_frames 200000 rows).
                        join (join ?T [?name]) [part_name k] \<in> set outs \<and>
                        parquet_rows (fs w') (join (join ?T [?name]) [part_name k]) =
                          Some (csv_frames 200000 rows ! k)) \<and>
                     (\<forall>p \<in> set outs. \<exists>c. p = join (join ?T [?name]) [c])
                else outs = [join ?T [?name @ ''.parquet'']] \<and>
                     written (new_calls w w') = [(join ?T [?name @ ''.parquet''], rows)] \<and>
                     parquet_rows (fs w') (join ?T [?name @ ''.parquet'']) = Some rows)"
      unfolding mem2 wr2 fs' using rt body by blast
  qed
  from target_dir_under [OF assms(1-3), of output_dir] nm c4 c5 c6 c7 c8 c9 c10
  show ?thesis by (intro conjI)
qed


lemma sample_convert_z:
  "new_calls sample_world (snd (convert_one [''in''] [''out''] [''in'', ''ro'', ''z.dta''] []
       sample_world)) =
     [Makedirs [''out'', ''ro''], ReadStata [''in'', ''ro'', ''z.dta''],
      ToParquet [''out'', ''ro'', ''z.parquet''] [7]]"
  by (simp add: main_defs run_defs sample_world_def sample_tree_def)

lemma sample_convert_big:
  "new_calls sample_world (snd (convert_one [''in''] [''out''] [''in'', ''big.csv''] []
       sample_world)) =
     [Makedirs [''out'', ''.''], Getsize [''in'', ''big.csv''],
      Makedirs [''out'', ''.'', ''big''], ReadCsv [''in'', ''big.csv''] (Some 200000),
      ToParquet [''out'', ''.'', ''big'', ''part-00000.parquet''] [4, 5, 6],
      Listdir [''out'', ''.'', ''big'']]"
  by (simp add: main_defs run_defs sample_world_def sample_tree_def)

lemma nested_calls:
  "new_calls nested_world
     (snd (convert_one [''in''] [''out''] [''in'', ''a'', ''b'', ''c.xlsx''] [] nested_world)) =
     [Makedirs [''out'', ''a'', ''b''], ReadExcel [''in'', ''a'', ''b'', ''c.xlsx''],
      ToParquet [''out'', ''a'', ''b'', ''c.parquet''] [1, 2]]"
  by (simp add: main_defs run_defs nested_world_def nested_tree_def)

lemma sample_convert_x:
  "new_calls sample_world (snd (convert_one [''in''] [''out''] [''in'', ''x.csv''] []
       sample_world)) =
     [Makedirs [''out'', ''.''], Getsize [''in'', ''x.csv''], ReadCsv [''in'', ''x.csv''] None,
      ToParquet [''out'', ''.'', ''x.parquet''] [1, 2, 3]]"
  by (simp add: main_defs run_defs sample_world_def sample_tree_def)

lemma witness_x_result:
  "fst (convert_one [''in''] [''out''] [''in'', ''a'', ''b'', ''c.xlsx''] [] nested_world) =
     Inr ([] @ [([''in'', ''a'', ''b'', ''c.xlsx''], [[''out'', ''a'', ''b'', ''c.parquet'']], None)])"
  by (simp add: main_defs run_defs nested_world_def nested_tree_def)

lemma witness_x_table: "read_table [''in'', ''a'', ''b'', ''c.xlsx''] (fs nested_world) = Inr [1, 2]"
  by (simp add: read_table_def normpath_def norm_step_def nested_world_def nested_tree_def)

lemma witness_x_ext: "ext_of [''in'', ''a'', ''b'', ''c.xlsx''] \<in> set exts"
  by (simp add: main_defs)

lemma witness_x_mkdir: "fst (ensure_dir [''out'', ''a'', ''b''] nested_world) = Inr ()"
  by (simp add: run_defs nested_world_def nested_tree_def)

lemma witness_z_result:
  "fst (convert_one [''in''] [''out''] [''in'', ''ro'', ''z.dta''] [] sample_world) =
     Inr ([] @ [([''in'', ''ro'', ''z.dta''], [[''out'', ''ro'', ''z.parquet'']], None)])"
  by (simp add: main_defs run_defs sample_world_def sample_tree_def)

lemma witness_z_table: "read_table [''in'', ''ro'', ''z.dta''] (fs sample_world) = Inr [7]"
  by (simp add: read_table_def normpath_def norm_step_def sample_world_def sample_tree_def)

lemma witness_z_ext: "ext_of [''in'', ''ro'', ''z.dta''] \<in> set exts"
  by (simp add: main_defs)

lemma witness_z_mkdir: "fst (ensure_dir [''out'', ''ro''] sample_world) = Inr ()"
  by (simp add: run_defs sample_world_def sample_tree_def)

lemma witness_s_result:
  "fst (convert_one [''in''] [''out''] [''in'', ''x.csv''] [] sample_world) =
     Inr ([] @ [([''in'', ''x.csv''], [[''out'', ''.'', ''x.parquet'']], None)])"
  by (simp add: main_defs run_defs sample_world_def sample_tree_def)

lemma witness_s_table: "read_table [''in'', ''x.csv''] (fs sample_world) = Inr [1, 2, 3]"
  by (simp add: read_table_def normpath_def norm_step_def sample_world_def sample_tree_def)

lemma witness_s_ext: "ext_of [''in'', ''x.csv''] \<in> set exts"
  by (simp add: main_defs)

lemma witness_s_mkdir: "fst (ensure_dir [''out'', ''.''] sample_world) = Inr ()"
  by (simp add: run_defs sample_world_def sample_tree_def)

lemma witness_b_result:
  "fst (convert_one [''in''] [''out''] [''in'', ''big.csv''] [] sample_world) =
     Inr ([] @ [([''in'', ''big.csv''], [[''out'', ''.'', ''big'', ''part-00000.parquet'']], None)])"
  by (simp add: main_defs run_defs sample_world_def sample_tree_def)

lemma witness_b_table: "read_table [''in'', ''big.csv''] (fs sample_world) = Inr [4, 5, 6]"
  by (simp add: read_table_def normpath_def norm_step_def sample_world_def sample_tree_def)

lemma witness_b_ext: "ext_of [''in'', ''big.csv''] \<in> set exts"
  by (simp add: main_defs)

lemma witness_b_mkdir: "fst (ensure_dir [''out'', ''.''] sample_world) = Inr ()"
  by (simp add: run_defs sample_world_def sample_tree_def)

theorem mirrored_output_layout_witness:
  "normal [''in''] \<and> normal [''a'', ''b''] \<and> normal [''ro''] \<and> normal [] \<and>
   [''in'', ''a'', ''b'', ''c.xlsx''] = join (join [''in''] [''a'', ''b'']) [''c.xlsx''] \<and>
   target_dir_of [''in''] [''out''] [''in'', ''a'', ''b'', ''c.xlsx''] = [''out'', ''a'', ''b''] \<and>
   name_of [''in'', ''a'', ''b'', ''c.xlsx''] = ''c'' \<and>
   ext_of [''in'', ''a'', ''b'', ''c.xlsx''] \<in> set exts \<and>
   fst (ensure_dir [''out'', ''a'', ''b''] nested_world) = Inr () \<and>
   fst (convert_one [''in''] [''out''] [''in'', ''a'', ''b'', ''c.xlsx''] [] nested_world) =
     Inr ([] @ [([''in'', ''a'', ''b'', ''c.xlsx''], [[''out'', ''a'', ''b'', ''c.parquet'']], None)]) \<and>
   read_table [''in'', ''a'', ''b'', ''c.xlsx''] (fs nested_world) = Inr [1, 2] \<and>
   ReadCsv [''in'', ''a'', ''b'', ''c.xlsx''] (Some 200000) \<notin>
     set (new_calls nested_world (snd (convert_one [''in''] [''out''] [''in'', ''a'', ''b'', ''c.xlsx''] [] nested_world))) \<and>
   written (new_calls nested_world (snd (convert_one [''in''] [''out''] [''in'', ''a'', ''b'', ''c.xlsx''] [] nested_world))) =
     [([''out'', ''a'', ''b'', ''c.parquet''], [1, 2])] \<and>
   parquet_rows (fs (snd (convert_one [''in''] [''out''] [''in'', ''a'', ''b'', ''c.xlsx''] [] nested_world)))
     [''out'', ''a'', ''b'', ''c.parquet''] = Some [1, 2] \<and>
   is_dir (fs (snd (convert_one [''in''] [''out''] [''in'', ''a'', ''b'', ''c.xlsx''] [] nested_world)))
     [''out''] \<and>
   is_dir (fs (snd (convert_one [''in''] [''out''] [''in'', ''a'', ''b'', ''c.xlsx''] [] nested_world)))
     [''out'', ''a''] \<and>
   is_dir (fs (snd (convert_one [''in''] [''out''] [''in'', ''a'', ''b'', ''c.xlsx''] [] nested_world)))
     [''out'', ''a'', ''b''] \<and>
   [''in'', ''ro'', ''z.dta''] = join (join [''in''] [''ro'']) [''z.dta''] \<and>
   target_dir_of [''in''] [''out''] [''in'', ''ro'', ''z.dta''] = [''out'', ''ro''] \<and>
   name_of [''in'', ''ro'', ''z.dta''] = ''z'' \<and>
   ext_of [''in'', ''ro'', ''z.dta''] \<in> set exts \<and>
   fst (ensure_dir [''out'', ''ro''] sample_world) = Inr () \<and>
   fst (convert_one [''in''] [''out''] [''in'', ''ro'', ''z.dta''] [] sample_world) =
     Inr ([] @ [([''in'', ''ro'', ''z.dta''], [[''out'', ''ro'', ''z.parquet'']], None)]) \<and>
   read_table [''in'', ''ro'', ''z.dta''] (fs sample_world) = Inr [7] \<and>
   ReadCsv [''in'', ''ro'', ''z.dta''] (Some 200000) \<notin>
     set (new_calls sample_world (snd (convert_one [''in''] [''out''] [''in'', ''ro'', ''z.dta''] [] sample_world))) \<and>
   written (new_calls sample_world (snd (convert_one [''in''] [''out''] [''in'', ''ro'', ''z.dta''] [] sample_world))) =
     [([''out'', ''ro'', ''z.parquet''], [7])] \<and>
   parquet_rows (fs (snd (convert_one [''in''] [''out''] [''in'', ''ro'', ''z.dta''] [] sample_world)))
     [''out'', ''ro'', ''z.parquet''] = Some [7] \<and>
   is_dir (fs (snd (convert_one [''in''] [''out''] [''in'', ''ro'', ''z.dta''] [] sample_world)))
     [''out''] \<and>
   is_dir (fs (snd (convert_one [''in''] [''out''] [''in'', ''ro'', ''z.dta''] [] sample_world)))
     [''out'', ''ro''] \<and>
   [''in'', ''x.csv''] = join (join [''in''] []) [''x.csv''] \<and>
   target_dir_of [''in''] [''out''] [''in'', ''x.csv''] = [''out'', ''.''] \<and>
   name_of [''in'', ''x.csv''] = ''x'' \<and>
   ext_of [''in'', ''x.csv''] \<in> set exts \<and>
   fst (ensure_dir [''out'', ''.''] sample_world) = Inr () \<and>
   fst (convert_one [''in''] [''out''] [''in'', ''x.csv''] [] sample_world) =
     Inr ([] @ [([''in'', ''x.csv''], [[''out'', ''.'', ''x.parquet'']], None)]) \<and>
   read_table [''in'', ''x.csv''] (fs sample_world) = Inr [1, 2, 3] \<and>
   ReadCsv [''in'', ''x.csv''] (Some 200000) \<notin>
     set (new_calls sample_world (snd (convert_one [''in''] [''out''] [''in'', ''x.csv''] [] sample_world))) \<and>
   written (new_calls sample_world (snd (convert_one [''in''] [''out''] [''in'', ''x.csv''] [] sample_world))) =
     [([''out'', ''.'', ''x.parquet''], [1, 2, 3])] \<and>
   parquet_rows (fs (snd (convert_one [''in''] [''out''] [''in'', ''x.csv''] [] sample_world)))
     [''out'', ''.'', ''x.parquet''] = Some [1, 2, 3] \<and>
   is_dir (fs (snd (convert_one [''in''] [''out''] [''in'', ''x.csv''] [] sample_world)))
     [''out''] \<and>
   [''in'', ''big.csv''] = join (join [''in''] []) [''big.csv''] \<and>
   target_dir_of [''in''] [''out''] [''in'', ''big.csv''] = [''out'', ''.''] \<and>
   name_of [''in'', ''big.csv''] = ''big'' \<and>
   ext_of [''in'', ''big.csv''] \<in> set exts \<and>
   fst (ensure_dir [''out'', ''.''] sample_world) = Inr () \<and>
   fst (convert_one [''in''] [''out''] [''in'', ''big.csv''] [] sample_world) =
     Inr ([] @ [([''in'', ''big.csv''], [[''out'', ''.'', ''big'', ''part-00000.parquet'']], None)]) \<and>
   read_table [''in'', ''big.csv''] (fs sample_world) = Inr [4, 5, 6] \<and>
   ReadCsv [''in'', ''big.csv''] (Some 200000) \<in>
     set (new_calls sample_world (snd (convert_one [''in''] [''out''] [''in'', ''big.csv''] [] sample_world))) \<and>
   written (new_calls sample_world (snd (convert_one [''in''] [''out''] [''in'', ''big.csv''] [] sample_world))) =
     [([''out'', ''.'', ''big'', ''part-00000.parquet''], [4, 5, 6])] \<and>
   parquet_rows (fs (snd (convert_one [''in''] [''out''] [''in'', ''big.csv''] [] sample_world)))
     [''out'', ''.'', ''big'', ''part-00000.parquet''] = Some [4, 5, 6] \<and>
   is_dir (fs (snd (convert_one [''in''] [''out''] [''in'', ''big.csv''] [] sample_world)))
     [''out'']"
proof -
  have n: "normal [''in'']" "normal [''a'', ''b'']" "normal [''ro'']" "normal []"
    by (simp_all add: normal_def)
  have no: "normpath [''out''] = [''out'']" by (simp add: normpath_def norm_step_def)
  have xq: "[''in'', ''a'', ''b'', ''c.xlsx''] = join (join [''in''] [''a'', ''b'']) [''c.xlsx'']"
    by (simp add: join_def)
  have xmk: "ensure_dir [''out'', ''a'', ''b''] nested_world =
      (Inr (), snd (ensure_dir [''out'', ''a'', ''b''] nested_world))"
    using witness_x_mkdir by (simp add: prod_eq_iff)
  have xnr: "normpath [''out'', ''a'', ''b''] = [''out'', ''a'', ''b'']"
    by (simp add: normpath_def norm_step_def)
  note x = mirrored_output_layout [where w = nested_world and summary = "[]"
      and output_dir = "[''out'']", OF n(1) n(2) xq prod.collapse [symmetric]]
  from x [THEN conjunct1]
  have x1: "target_dir_of [''in''] [''out''] [''in'', ''a'', ''b'', ''c.xlsx''] = [''out'', ''a'', ''b'']"
    by (simp add: join_def)
  from x have "\<forall>c e. ''c.xlsx'' = c @ CHR ''.'' # e \<and> CHR ''.'' \<notin> set e \<and>
      (\<exists>x \<in> set c. x \<noteq> CHR ''.'') \<longrightarrow> name_of [''in'', ''a'', ''b'', ''c.xlsx''] = c"
    by blast
  from this [rule_format, of "''c''" "''xlsx''"]
  have x2: "name_of [''in'', ''a'', ''b'', ''c.xlsx''] = ''c''" by simp
  have x7: "ReadCsv [''in'', ''a'', ''b'', ''c.xlsx''] (Some 200000) \<notin>
     set (new_calls nested_world (snd (convert_one [''in''] [''out''] [''in'', ''a'', ''b'', ''c.xlsx''] [] nested_world)))"
    by (simp add: nested_calls)
  have x9: "written (new_calls nested_world (snd (convert_one [''in''] [''out''] [''in'', ''a'', ''b'', ''c.xlsx''] [] nested_world))) =
     [([''out'', ''a'', ''b'', ''c.parquet''], [1, 2])]"
    by (simp add: nested_calls)
  note x8 = x [THEN conjunct2, THEN conjunct2, THEN conjunct2, THEN conjunct2,
      THEN conjunct2, THEN conjunct2, THEN conjunct2, THEN conjunct1, unfolded x1 xnr]
  from x8 [rule_format, OF xmk]
  have x4: "\<forall>q. prefix q [''out'', ''a'', ''b''] \<longrightarrow>
      is_dir (fs (snd (convert_one [''in''] [''out''] [''in'', ''a'', ''b'', ''c.xlsx''] [] nested_world))) q"
    by blast
  have xd0: "is_dir (fs (snd (convert_one [''in''] [''out''] [''in'', ''a'', ''b'', ''c.xlsx''] [] nested_world)))
     [''out'']"
    using x4 [rule_format, of "[''out'']"] by simp
  have xd1: "is_dir (fs (snd (convert_one [''in''] [''out''] [''in'', ''a'', ''b'', ''c.xlsx''] [] nested_world)))
     [''out'', ''a'']"
    using x4 [rule_format, of "[''out'', ''a'']"] by simp
  have xd2: "is_dir (fs (snd (convert_one [''in''] [''out''] [''in'', ''a'', ''b'', ''c.xlsx''] [] nested_world)))
     [''out'', ''a'', ''b'']"
    using x4 [rule_format, of "[''out'', ''a'', ''b'']"] by simp
  note x10 = x [THEN conjunct2, THEN conjunct2, THEN conjunct2, THEN conjunct2,
      THEN conjunct2, THEN conjunct2, THEN conjunct2, THEN conjunct2, THEN conjunct2]
  from x10 [rule_format, OF conjI [OF witness_x_result witness_x_ext]] x7
  have "parquet_rows (fs (snd (convert_one [''in''] [''out''] [''in'', ''a'', ''b'', ''c.xlsx''] [] nested_world)))
     (join (target_dir_of [''in''] [''out''] [''in'', ''a'', ''b'', ''c.xlsx''])
        [name_of [''in'', ''a'', ''b'', ''c.xlsx''] @ ''.parquet'']) = Some [1, 2]"
    by (auto simp: witness_x_table)
  then have x11: "parquet_rows (fs (snd (convert_one [''in''] [''out''] [''in'', ''a'', ''b'', ''c.xlsx''] [] nested_world)))
     [''out'', ''a'', ''b'', ''c.parquet''] = Some [1, 2]"
    unfolding x1 x2 by (simp add: join_def)
  have zq: "[''in'', ''ro'', ''z.dta''] = join (join [''in''] [''ro'']) [''z.dta'']"
    by (simp add: join_def)
  have zmk: "ensure_dir [''out'', ''ro''] sample_world =
      (Inr (), snd (ensure_dir [''out'', ''ro''] sample_world))"
    using witness_z_mkdir by (simp add: prod_eq_iff)
  have znr: "normpath [''out'', ''ro''] = [''out'', ''ro'']"
    by (simp add: normpath_def norm_step_def)
  note z = mirrored_output_layout [where w = sample_world and summary = "[]"
      and output_dir = "[''out'']", OF n(1) n(3) zq prod.collapse [symmetric]]
  from z [THEN conjunct1]
  have z1: "target_dir_of [''in''] [''out''] [''in'', ''ro'', ''z.dta''] = [''out'', ''ro'']"
    by (simp add: join_def)
  from z have "\<forall>c e. ''z.dta'' = c @ CHR ''.'' # e \<and> CHR ''.'' \<notin> set e \<and>
      (\<exists>x \<in> set c. x \<noteq> CHR ''.'') \<longrightarrow> name_of [''in'', ''ro'', ''z.dta''] = c"
    by blast
  from this [rule_format, of "''z''" "''dta''"]
  have z2: "name_of [''in'', ''ro'', ''z.dta''] = ''z''" by simp
  have z7: "ReadCsv [''in'', ''ro'', ''z.dta''] (Some 200000) \<notin>
     set (new_calls sample_world (snd (convert_one [''in''] [''out''] [''in'', ''ro'', ''z.dta''] [] sample_world)))"
    by (simp add: sample_convert_z)
  have z9: "written (new_calls sample_world (snd (convert_one [''in''] [''out''] [''in'', ''ro'', ''z.dta''] [] sample_world))) =
     [([''out'', ''ro'', ''z.parquet''], [7])]"
    by (simp add: sample_convert_z)
  note z8 = z [THEN conjunct2, THEN conjunct2, THEN conjunct2, THEN conjunct2,
      THEN conjunct2, THEN conjunct2, THEN conjunct2, THEN conjunct1, unfolded z1 znr]
  from z8 [rule_format, OF zmk]
  have z4: "\<forall>q. prefix q [''out'', ''ro''] \<longrightarrow>
      is_dir (fs (snd (convert_one [''in''] [''out''] [''in'', ''ro'', ''z.dta''] [] sample_world))) q"
    by blast
  have zd0: "is_dir (fs (snd (convert_one [''in''] [''out''] [''in'', ''ro'', ''z.dta''] [] sample_world)))
     [''out'']"
    using z4 [rule_format, of "[''out'']"] by simp
  have zd1: "is_dir (fs (snd (convert_one [''in''] [''out''] [''in'', ''ro'', ''z.dta''] [] sample_world)))
     [''out'', ''ro'']"
    using z4 [rule_format, of "[''out'', ''ro'']"] by simp
  note z10 = z [THEN conjunct2, THEN conjunct2, THEN conjunct2, THEN conjunct2,
      THEN conjunct2, THEN conjunct2, THEN conjunct2, THEN conjunct2, THEN conjunct2]
  from z10 [rule_format, OF conjI [OF witness_z_result witness_z_ext]] z7
  have "parquet_rows (fs (snd (convert_one [''in''] [''out''] [''in'', ''ro'', ''z.dta''] [] sample_world)))
     (join (target_dir_of [''in''] [''out''] [''in'', ''ro'', ''z.dta''])
        [name_of [''in'', ''ro'', ''z.dta''] @ ''.parquet'']) = Some [7]"
    by (auto simp: witness_z_table)
  then have z11: "parquet_rows (fs (snd (convert_one [''in''] [''out''] [''in'', ''ro'', ''z.dta''] [] sample_world)))
     [''out'', ''ro'', ''z.parquet''] = Some [7]"
    unfolding z1 z2 by (simp add: join_def)
  have sq: "[''in'', ''x.csv''] = join (join [''in''] []) [''x.csv'']"
    by (simp add: join_def)
  have smk: "ensure_dir [''out'', ''.''] sample_world =
      (Inr (), snd (ensure_dir [''out'', ''.''] sample_world))"
    using witness_s_mkdir by (simp add: prod_eq_iff)
  have snr: "normpath [''out'', ''.''] = [''out'']"
    by (simp add: normpath_def norm_step_def)
  note s = mirrored_output_layout [where w = sample_world and summary = "[]"
      and output_dir = "[''out'']", OF n(1) n(4) sq prod.collapse [symmetric]]
  from s [THEN conjunct1]
  have s1: "target_dir_of [''in''] [''out''] [''in'', ''x.csv''] = [''out'', ''.'']"
    by (simp add: join_def)
  from s have "\<forall>c e. ''x.csv'' = c @ CHR ''.'' # e \<and> CHR ''.'' \<notin> set e \<and>
      (\<exists>x \<in> set c. x \<noteq> CHR ''.'') \<longrightarrow> name_of [''in'', ''x.csv''] = c"
    by blast
  from this [rule_format, of "''x''" "''csv''"]
  have s2: "name_of [''in'', ''x.csv''] = ''x''" by simp
  have s7: "ReadCsv [''in'', ''x.csv''] (Some 200000) \<notin>
     set (new_calls sample_world (snd (convert_one [''in''] [''out''] [''in'', ''x.csv''] [] sample_world)))"
    by (simp add: sample_convert_x)
  have s9: "written (new_calls sample_world (snd (convert_one [''in''] [''out''] [''in'', ''x.csv''] [] sample_world))) =
     [([''out'', ''.'', ''x.parquet''], [1, 2, 3])]"
    by (simp add: sample_convert_x)
  note s8 = s [THEN conjunct2, THEN conjunct2, THEN conjunct2, THEN conjunct2,
      THEN conjunct2, THEN conjunct2, THEN conjunct2, THEN conjunct1, unfolded s1 snr]
  from s8 [rule_format, OF smk]
  have s4: "\<forall>q. prefix q [''out''] \<longrightarrow>
      is_dir (fs (snd (convert_one [''in''] [''out''] [''in'', ''x.csv''] [] sample_world))) q"
    by blast
  have sd0: "is_dir (fs (snd (convert_one [''in''] [''out''] [''in'', ''x.csv''] [] sample_world)))
     [''out'']"
    using s4 [rule_format, of "[''out'']"] by simp
  note s10 = s [THEN conjunct2, THEN conjunct2, THEN conjunct2, THEN conjunct2,
      THEN conjunct2, THEN conjunct2, THEN conjunct2, THEN conjunct2, THEN conjunct2]
  from s10 [rule_format, OF conjI [OF witness_s_result witness_s_ext]] s7
  have "parquet_rows (fs (snd (convert_one [''in''] [''out''] [''in'', ''x.csv''] [] sample_world)))
     (join (target_dir_of [''in''] [''out''] [''in'', ''x.csv''])
        [name_of [''in'', ''x.csv''] @ ''.parquet'']) = Some [1, 2, 3]"
    by (auto simp: witness_s_table)
  then have s11: "parquet_rows (fs (snd (convert_one [''in''] [''out''] [''in'', ''x.csv''] [] sample_world)))
     [''out'', ''.'', ''x.parquet''] = Some [1, 2, 3]"
    unfolding s1 s2 by (simp add: join_def)
  have bq: "[''in'', ''big.csv''] = join (join [''in''] []) [''big.csv'']"
    by (simp add: join_def)
  have bmk: "ensure_dir [''out'', ''.''] sample_world =
      (Inr (), snd (ensure_dir [''out'', ''.''] sample_world))"
    using witness_b_mkdir by (simp add: prod_eq_iff)
  have bnr: "normpath [''out'', ''.''] = [''out'']"
    by (simp add: normpath_def norm_step_def)
  note b = mirrored_output_layout [where w = sample_world and summary = "[]"
      and output_dir = "[''out'']", OF n(1) n(4) bq prod.collapse [symmetric]]
  from b [THEN conjunct1]
  have b1: "target_dir_of [''in''] [''out''] [''in'', ''big.csv''] = [''out'', ''.'']"
    by (simp add: join_def)
  from b have "\<forall>c e. ''big.csv'' = c @ CHR ''.'' # e \<and> CHR ''.'' \<notin> set e \<and>
      (\<exists>x \<in> set c. x \<noteq> CHR ''.'') \<longrightarrow> name_of [''in'', ''big.csv''] = c"
    by blast
  from this [rule_format, of "''big''" "''csv''"]
  have b2: "name_of [''in'', ''big.csv''] = ''big''" by simp
  have b7: "ReadCsv [''in'', ''big.csv''] (Some 200000) \<in>
     set (new_calls sample_world (snd (convert_one [''in''] [''out''] [''in'', ''big.csv''] [] sample_world)))"
    by (simp add: sample_convert_big)
  have b9: "written (new_calls sample_world (snd (convert_one [''in''] [''out''] [''in'', ''big.csv''] [] sample_world))) =
     [([''out'', ''.'', ''big'', ''part-00000.parquet''], [4, 5, 6])]"
    by (simp add: sample_convert_big)
  note b8 = b [THEN conjunct2, THEN conjunct2, THEN conjunct2, THEN conjunct2,
      THEN conjunct2, THEN conjunct2, THEN conjunct2, THEN conjunct1, unfolded b1 bnr]
  from b8 [rule_format, OF bmk]
  have b4: "\<forall>q. prefix q [''out''] \<longrightarrow>
      is_dir (fs (snd (convert_one [''in''] [''out''] [''in'', ''big.csv''] [] sample_world))) q"
    by blast
  have bd0: "is_dir (fs (snd (convert_one [''in''] [''out''] [''in'', ''big.csv''] [] sample_world)))
     [''out'']"
    using b4 [rule_format, of "[''out'']"] by simp
  note b10 = b [THEN conjunct2, THEN conjunct2, THEN conjunct2, THEN conjunct2,
      THEN conjunct2, THEN conjunct2, THEN conjunct2, THEN conjunct2, THEN conjunct2]
  from b10 [rule_format, OF conjI [OF witness_b_result witness_b_ext]] b7
  have "\<forall>k < length (csv_frames 200000 ([4, 5, 6]::nat list)).
      parquet_rows (fs (snd (convert_one [''in''] [''out''] [''in'', ''big.csv''] [] sample_world)))
        (join (join (target_dir_of [''in''] [''out''] [''in'', ''big.csv''])
           [name_of [''in'', ''big.csv'']]) [part_name k]) =
      Some (csv_frames 200000 [4, 5, 6] ! k)"
    by (auto simp: witness_b_table)
  from this [rule_format, of 0]
  have b11: "parquet_rows (fs (snd (convert_one [''in''] [''out''] [''in'', ''big.csv''] [] sample_world)))
     [''out'', ''.'', ''big'', ''part-00000.parquet''] = Some [4, 5, 6]"
    unfolding b1 b2 by (simp add: sample_frames_big join_def part_name_0)
  show ?thesis
    using n xq x1 x2 witness_x_ext witness_x_mkdir witness_x_result witness_x_table x7 x9 x11 xd0
      xd1 xd2 zq z1 z2 witness_z_ext witness_z_mkdir witness_z_result witness_z_table z7 z9
      z11 zd0 zd1 sq s1 s2 witness_s_ext witness_s_mkdir witness_s_result witness_s_table s7
      s9 s11 sd0 bq b1 b2 witness_b_ext witness_b_mkdir witness_b_result witness_b_table b7 b9
      b11 bd0
    by - (intro conjI, assumption+)
qed

subsection \<open>Runs that leave the loop early or find parts of an earlier run\<close>

lemma main_loop_abort:
  fixes w :: "'a world"
  assumes "input_of a dlg = Some d"
    and "ensure_dir (output_dir_of a d) w = (Inr (), w1)"
    and "find_files (normpath d) exts w1 = (Inr files, w2)"
    and "files \<noteq> []"
    and "convert_all (normpath d) (output_dir_of a d) files [] w2 = (Inl e, w3)"
  shows "main a dlg stdin w = (Inl e, w3)"
proof -
  have s1: "then_do (ensure_dir (output_dir_of a d)) F w = F () w1"
    for F :: "unit \<Rightarrow> (unit, 'a) prog"
    using assms(2) by (simp add: then_do_def)
  have s2: "then_do (find_files (normpath d) exts) G w1 = G files w2"
    for G :: "path list \<Rightarrow> (unit, 'a) prog"
    using assms(3) by (simp add: then_do_def)
  have s3: "then_do (convert_all (normpath d) (output_dir_of a d) files []) H w2 = (Inl e, w3)"
    for H :: "outcome list \<Rightarrow> (unit, 'a) prog"
    using assms(5) by (simp add: then_do_def)
  show ?thesis
    unfolding main_run [OF assms(1)] s1 s2 using assms(4) by (simp add: s3)
qed

lemma blocked_w1_eq: "blocked_w1 = blocked_world\<lparr>calls := [Makedirs [''out'']]\<rparr>"
  by (simp add: blocked_w1_def run_defs blocked_world_def blocked_tree_def)

lemma blocked_run1: "ensure_dir [''out''] blocked_world = (Inr (), blocked_w1)"
proof -
  have "fst (ensure_dir [''out''] blocked_world) = Inr ()"
    by (simp add: run_defs blocked_world_def blocked_tree_def)
  then show ?thesis by (simp add: blocked_w1_def prod_eq_iff)
qed

lemma blocked_w2_eq:
  "blocked_w2 = blocked_world\<lparr>calls := [Makedirs [''out''], Walk [''in'']]\<rparr>"
  by (simp add: blocked_w2_def blocked_w1_eq find_files_def log_call_def Let_def
      blocked_world_def)

lemma blocked_run2: "find_files [''in''] exts blocked_w1 = (Inr blocked_files, blocked_w2)"
proof -
  have "fst (find_files [''in''] exts blocked_w1) = Inr blocked_files"
    by (simp add: blocked_w1_eq blocked_files_def blocked_world_def blocked_tree_def
        main_defs run_defs)
  then show ?thesis by (simp add: blocked_w2_def prod_eq_iff)
qed

lemma blocked_w3_eq:
  "blocked_w3 =
     \<lparr>fs = Dir True
       [(''in'', Dir True
          [(''x.csv'', File (Source 100 (Inr [1]))),
           (''sub'', Dir True [(''y.csv'', File (Source 100 (Inr [2])))]),
           (''t'', Dir True [(''z.csv'', File (Source 100 (Inr [3])))])]),
        (''out'', Dir True [(''sub'', File (Source 5 (Inr []))),
                            (''x.parquet'', File (Parquet [1]))])],
      calls = [Makedirs [''out''], Walk [''in''], Makedirs [''out'', ''.''],
        Getsize [''in'', ''x.csv''], ReadCsv [''in'', ''x.csv''] None,
        ToParquet [''out'', ''.'', ''x.parquet''] [1], Makedirs [''out'', ''sub'']],
      stdout = [Converted [''in'', ''x.csv''] 1]\<rparr>"
  by (simp add: blocked_w3_def blocked_w2_eq blocked_files_def blocked_world_def
      blocked_tree_def main_defs run_defs)

lemma blocked_run3:
  "convert_all [''in''] [''out''] blocked_files [] blocked_w2 = (Inl FileExistsError, blocked_w3)"
proof -
  have "fst (convert_all [''in''] [''out''] blocked_files [] blocked_w2) = Inl FileExistsError"
    by (simp add: blocked_w2_eq blocked_files_def blocked_world_def
      blocked_tree_def main_defs run_defs)
  then show ?thesis by (simp add: blocked_w3_def prod_eq_iff)
qed

lemma blocked_files_ne: "blocked_files \<noteq> []"
  by (simp add: blocked_files_def)

lemma blocked_main:
  "main args_delete NoTkinter None blocked_world = (Inl FileExistsError, blocked_w3)"
  using main_loop_abort [of args_delete NoTkinter "[''in'']" blocked_world blocked_w1
      blocked_files blocked_w2 FileExistsError blocked_w3 None]
  by (simp add: sample_input sample_output normpath_in blocked_run1 blocked_run2
      blocked_run3 blocked_files_ne)

text \<open>
  C5. The run with input directory \<open>in\<close> and output directory \<open>out\<close> on the tree
  where \<open>out/sub\<close> is a plain file. The walk discovers three CSV files, all of them
  readable. The first is converted. For the second, \<open>in/sub/y.csv\<close>, the target
  directory \<open>out/sub\<close> cannot be made, and the \<open>FileExistsError\<close> of line 110 leaves
  the loop and the program: no outcome is recorded for that file, the third file is
  never read, nothing is removed, and no summary is printed.
\<close>

theorem blocked_target_dir_aborts_run:
  "fst (find_files [''in''] exts (snd (ensure_dir [''out''] blocked_world))) =
     Inr [[''in'', ''x.csv''], [''in'', ''sub'', ''y.csv''], [''in'', ''t'', ''z.csv'']] \<and>
   read_table [''in'', ''x.csv''] (fs blocked_world) = Inr [1] \<and>
   read_table [''in'', ''sub'', ''y.csv''] (fs blocked_world) = Inr [2] \<and>
   read_table [''in'', ''t'', ''z.csv''] (fs blocked_world) = Inr [3] \<and>
   fst (main args_delete NoTkinter None blocked_world) = Inl FileExistsError \<and>
   calls (snd (main args_delete NoTkinter None blocked_world)) =
     [Makedirs [''out''], Walk [''in''], Makedirs [''out'', ''.''],
      Getsize [''in'', ''x.csv''], ReadCsv [''in'', ''x.csv''] None,
      ToParquet [''out'', ''.'', ''x.parquet''] [1], Makedirs [''out'', ''sub'']] \<and>
   stdout (snd (main args_delete NoTkinter None blocked_world)) =
     [Converted [''in'', ''x.csv''] 1]"
proof -
  have "fst (find_files [''in''] exts (snd (ensure_dir [''out''] blocked_world))) =
     Inr [[''in'', ''x.csv''], [''in'', ''sub'', ''y.csv''], [''in'', ''t'', ''z.csv'']]"
    using blocked_run2 by (simp add: blocked_w1_def blocked_files_def)
  moreover have "read_table [''in'', ''x.csv''] (fs blocked_world) = Inr [1]"
    and "read_table [''in'', ''sub'', ''y.csv''] (fs blocked_world) = Inr [2]"
    and "read_table [''in'', ''t'', ''z.csv''] (fs blocked_world) = Inr [3]"
    by (simp_all add: read_table_def normpath_def norm_step_def blocked_world_def
        blocked_tree_def)
  ultimately show ?thesis by (simp add: blocked_main blocked_w3_eq)
qed

text \<open>
  C6. The same run: its command line has \<open>--delete\<close>, so the removal of the
  originals is confirmed, and three files are discovered. The \<open>FileExistsError\<close> of
  line 110 ends the program before line 134: \<open>os.remove\<close> is called on none of the
  three files, all of them are still on disk, and neither the line that follows the
  removals nor a line about a failed removal is printed.
\<close>

theorem blocked_run_removes_nothing:
  "arg_delete args_delete \<and>
   fst (find_files [''in''] exts (snd (ensure_dir [''out''] blocked_world))) =
     Inr [[''in'', ''x.csv''], [''in'', ''sub'', ''y.csv''], [''in'', ''t'', ''z.csv'']] \<and>
   fst (main args_delete NoTkinter None blocked_world) = Inl FileExistsError \<and>
   removed (calls (snd (main args_delete NoTkinter None blocked_world))) = [] \<and>
   lookup (fs (snd (main args_delete NoTkinter None blocked_world))) [''in'', ''x.csv''] =
     Some (File (Source 100 (Inr [1]))) \<and>
   lookup (fs (snd (main args_delete NoTkinter None blocked_world)))
     [''in'', ''sub'', ''y.csv''] = Some (File (Source 100 (Inr [2]))) \<and>
   lookup (fs (snd (main args_delete NoTkinter None blocked_world)))
     [''in'', ''t'', ''z.csv''] = Some (File (Source 100 (Inr [3]))) \<and>
   stdout (snd (main args_delete NoTkinter None blocked_world)) =
     [Converted [''in'', ''x.csv''] 1]"
proof -
  have "arg_delete args_delete" by (simp add: args_delete_def)
  moreover
  have "fst (find_files [''in''] exts (snd (ensure_dir [''out''] blocked_world))) =
     Inr [[''in'', ''x.csv''], [''in'', ''sub'', ''y.csv''], [''in'', ''t'', ''z.csv'']]"
    using blocked_run2 by (simp add: blocked_w1_def blocked_files_def)
  ultimately show ?thesis by (simp add: blocked_main blocked_w3_eq)
qed


lemma stale_w1_eq: "stale_w1 = stale_world\<lparr>calls := [Makedirs [''out'']]\<rparr>"
  by (simp add: stale_w1_def run_defs stale_world_def stale_tree_def)

lemma stale_stage1: "ensure_dir [''out''] stale_world = (Inr (), stale_w1)"
proof -
  have "fst (ensure_dir [''out''] stale_world) = Inr ()"
    by (simp add: run_defs stale_world_def stale_tree_def)
  then show ?thesis by (simp add: stale_w1_def prod_eq_iff)
qed

lemma stale_w2_eq:
  "stale_w2 = stale_world\<lparr>calls := [Makedirs [''out''], Walk [''in'']]\<rparr>"
  by (simp add: stale_w2_def stale_w1_eq find_files_def log_call_def Let_def stale_world_def)

lemma stale_stage2: "find_files [''in''] exts stale_w1 = (Inr stale_files, stale_w2)"
proof -
  have "fst (find_files [''in''] exts stale_w1) = Inr stale_files"
    by (simp add: stale_w1_eq stale_files_def stale_world_def stale_tree_def main_defs
        run_defs)
  then show ?thesis by (simp add: stale_w2_def prod_eq_iff)
qed

lemma stale_w3_eq:
  "stale_w3 =
     \<lparr>fs = Dir True
       [(''in'', Dir True [(''big.csv'', File (Source 52428801 (Inr [1, 2, 3])))]),
        (''out'', Dir True
          [(''big'', Dir True
             [(''part-00007.parquet'', File (Parquet [9, 9])),
              (''part-00000.parquet'', File (Parquet [1, 2, 3]))])])],
      calls = [Makedirs [''out''], Walk [''in''], Makedirs [''out'', ''.''],
        Getsize [''in'', ''big.csv''], Makedirs [''out'', ''.'', ''big''],
        ReadCsv [''in'', ''big.csv''] (Some 200000),
        ToParquet [''out'', ''.'', ''big'', ''part-00000.parquet''] [1, 2, 3],
        Listdir [''out'', ''.'', ''big'']],
      stdout = [Converted [''in'', ''big.csv''] 2]\<rparr>"
  by (simp add: stale_w3_def stale_w2_eq stale_files_def stale_world_def stale_tree_def
      main_defs run_defs)

lemma stale_stage3:
  "convert_all [''in''] [''out''] stale_files [] stale_w2 = (Inr stale_summary, stale_w3)"
proof -
  have "fst (convert_all [''in''] [''out''] stale_files [] stale_w2) = Inr stale_summary"
    by (simp add: stale_w2_eq stale_files_def stale_summary_def stale_world_def
        stale_tree_def main_defs run_defs)
  then show ?thesis by (simp add: stale_w3_def prod_eq_iff)
qed

lemma stale_files_ne: "stale_files \<noteq> []"
  by (simp add: stale_files_def)

lemma stale_input: "input_of args_ask NoTkinter = Some [''in'']"
  by (simp add: input_of_def args_ask_def)

lemma stale_output: "output_dir_of args_ask [''in''] = [''out'']"
  by (simp add: output_dir_of_def args_ask_def)

lemma stale_main:
  "main args_ask NoTkinter (Some (points ''n'')) stale_world =
     finish args_ask (Some (points ''n'')) [''out''] stale_summary stale_w3"
  using main_after_loop [of args_ask NoTkinter "[''in'']" stale_world stale_w1
      stale_files stale_w2 stale_summary stale_w3 "Some (points ''n'')"]
  by (simp add: stale_input stale_output normpath_in stale_stage1 stale_stage2 stale_stage3
      stale_files_ne)

text \<open>
  C7. The run with input directory \<open>in\<close> and output directory \<open>out\<close>, with the
  answer \<open>n\<close> to the question about removal, on the tree where the part directory
  \<open>out/big\<close> of the large file \<open>in/big.csv\<close> already holds \<open>part-00007.parquet\<close>. The
  conversion succeeds and writes one file, \<open>part-00000.parquet\<close>. The outcome recorded
  for \<open>in/big.csv\<close> lists two output files: line 51 returns the sorted listing of the
  part directory, and the part of the earlier run, which this run has not written and
  which still holds its old rows, is in it. The line printed for the file counts two
  Parquet files.
\<close>

theorem stale_part_listed_as_output:
  "fst (find_files [''in''] exts (snd (ensure_dir [''out''] stale_world))) =
     Inr [[''in'', ''big.csv'']] \<and>
   fst (convert_all [''in''] [''out''] [[''in'', ''big.csv'']] []
          (snd (find_files [''in''] exts (snd (ensure_dir [''out''] stale_world))))) =
     Inr [([''in'', ''big.csv''],
           [[''out'', ''.'', ''big'', ''part-00000.parquet''],
            [''out'', ''.'', ''big'', ''part-00007.parquet'']], None)] \<and>
   fst (main args_ask NoTkinter (Some (points ''n'')) stale_world) = Inr () \<and>
   written (new_calls stale_world (snd (main args_ask NoTkinter (Some (points ''n'')) stale_world))) =
     [([''out'', ''.'', ''big'', ''part-00000.parquet''], [1, 2, 3])] \<and>
   parquet_rows (fs stale_world) [''out'', ''.'', ''big'', ''part-00007.parquet''] =
     Some [9, 9] \<and>
   parquet_rows (fs (snd (main args_ask NoTkinter (Some (points ''n'')) stale_world)))
     [''out'', ''.'', ''big'', ''part-00007.parquet''] = Some [9, 9] \<and>
   stdout (snd (main args_ask NoTkinter (Some (points ''n'')) stale_world)) =
     [Converted [''in'', ''big.csv''] 2, KeptOriginals, SummaryHeader,
      SummaryLine 1 0 [''out'']]"
proof -
  have f: "fst (find_files [''in''] exts (snd (ensure_dir [''out''] stale_world))) =
     Inr [[''in'', ''big.csv'']]"
    using stale_stage2 by (simp add: stale_w1_def stale_files_def)
  have "convert_all [''in''] [''out''] [[''in'', ''big.csv'']] []
          (snd (find_files [''in''] exts (snd (ensure_dir [''out''] stale_world)))) =
        convert_all [''in''] [''out''] stale_files [] stale_w2"
    by (simp only: stale_files_def stale_w2_def stale_w1_def)
  then have c: "fst (convert_all [''in''] [''out''] [[''in'', ''big.csv'']] []
          (snd (find_files [''in''] exts (snd (ensure_dir [''out''] stale_world))))) =
     Inr [([''in'', ''big.csv''],
           [[''out'', ''.'', ''big'', ''part-00000.parquet''],
            [''out'', ''.'', ''big'', ''part-00007.parquet'']], None)]"
    by (simp only: stale_stage3 stale_summary_def fst_conv)
  have p: "parquet_rows (fs stale_world) [''out'', ''.'', ''big'', ''part-00007.parquet''] =
     Some [9, 9]"
    by (simp add: parquet_rows_def normpath_def norm_step_def stale_world_def stale_tree_def)
  have m: "main args_ask NoTkinter (Some (points ''n'')) stale_world =
     (Inr (), stale_w3\<lparr>stdout := [Converted [''in'', ''big.csv''] 2, KeptOriginals,
        SummaryHeader, SummaryLine 1 0 [''out'']]\<rparr>)"
    unfolding stale_main
    by (simp add: stale_w3_eq stale_summary_def finish_def input_line_def succ_count_def
        fail_count_def ulower_def points_def strip_def is_space_def args_ask_def run_defs)
  have r: "fst (main args_ask NoTkinter (Some (points ''n'')) stale_world) = Inr ()"
    unfolding m by simp
  have wr: "written (new_calls stale_world
        (snd (main args_ask NoTkinter (Some (points ''n'')) stale_world))) =
     [([''out'', ''.'', ''big'', ''part-00000.parquet''], [1, 2, 3])]"
    unfolding m by (simp add: stale_w3_eq new_calls_def stale_world_def)
  have p': "parquet_rows (fs (snd (main args_ask NoTkinter (Some (points ''n'')) stale_world)))
     [''out'', ''.'', ''big'', ''part-00007.parquet''] = Some [9, 9]"
    unfolding m by (simp add: stale_w3_eq parquet_rows_def normpath_def norm_step_def)
  have out: "stdout (snd (main args_ask NoTkinter (Some (points ''n'')) stale_world)) =
     [Converted [''in'', ''big.csv''] 2, KeptOriginals, SummaryHeader,
      SummaryLine 1 0 [''out'']]"
    unfolding m by simp
  from f c r wr p p' out show ?thesis by (intro conjI)
qed

end
